(* ===== verification/Go_Prelude.thy ===== *)
theory Go_Prelude
  imports Complex_Main "HOL-Library.AList" "HOL-Library.Multiset"
begin

section \<open>What the components use of the Go language\<close>

text \<open>
  The vocabulary every component shares.
  \<^item> Integers: a Go integer of width \<open>w\<close> is an \<open>int\<close>, and an arithmetic operation
    that the source performs at that width is wrapped by \<open>i32\<close>, \<open>i64\<close>, \<open>u16\<close>,
    \<open>u32\<close> or \<open>u64\<close> (two's complement for the signed ones).
  \<^item> Floating point: \<open>float64\<close> has the IEEE special values; finite values are exact
    rationals, so rounding is the one thing that is not modelled, while division by zero,
    infinities and the comparisons with a NaN are.
  \<^item> Maps: a Go map is an association list (\<open>map_of\<close>, \<open>AList.update\<close>,
    \<open>AList.delete\<close>). The list order stands for the order in which a \<open>range\<close> statement
    visits the map; no theorem fixes that order.
  \<^item> Sorting: \<open>go_sort\<close> is the insertion sort that \<open>sort.Sort\<close> runs on short
    slices; its clients use it through the contract of the locale \<open>strict_weak_order\<close>
    (a sorted permutation), which is what the package promises for every length.
  \<^item> \<open>strconv\<close>: \<open>itoa\<close> and \<open>atoi\<close>.
\<close>

named_theorems wrap_simps \<open>integers of a fixed width\<close>
named_theorems perm_simps \<open>multisets and lengths of the lists that operations rearrange\<close>

subsection \<open>Integers of a fixed width\<close>

definition i32 :: "int \<Rightarrow> int" where
  "i32 x = (x + 2 ^ 31) mod 2 ^ 32 - 2 ^ 31"

definition i64 :: "int \<Rightarrow> int" where
  "i64 x = (x + 2 ^ 63) mod 2 ^ 64 - 2 ^ 63"

definition u16 :: "int \<Rightarrow> int" where
  "u16 x = x mod 2 ^ 16"

definition u32 :: "int \<Rightarrow> int" where
  "u32 x = x mod 2 ^ 32"

definition u64 :: "int \<Rightarrow> int" where
  "u64 x = x mod 2 ^ 64"

definition is_i32 :: "int \<Rightarrow> bool" where
  "is_i32 x \<longleftrightarrow> - (2 ^ 31) \<le> x \<and> x < 2 ^ 31"

definition is_i64 :: "int \<Rightarrow> bool" where
  "is_i64 x \<longleftrightarrow> - (2 ^ 63) \<le> x \<and> x < 2 ^ 63"

text \<open>\<open>time.Time.Sub\<close> saturates at the ends of the range of a duration.\<close>

definition time_Sub :: "int \<Rightarrow> int \<Rightarrow> int" where
  "time_Sub t u = max (- (2 ^ 63)) (min (2 ^ 63 - 1) (t - u))"

subsection \<open>IEEE special values\<close>

datatype float64 = Fin rat | PInf | NInf | NaN

definition float_of_int :: "int \<Rightarrow> float64" where
  "float_of_int x = Fin (of_int x)"

fun f_neg :: "float64 \<Rightarrow> float64" where
  "f_neg (Fin a) = Fin (- a)"
| "f_neg PInf = NInf"
| "f_neg NInf = PInf"
| "f_neg NaN = NaN"

fun f_add :: "float64 \<Rightarrow> float64 \<Rightarrow> float64" where
  "f_add (Fin a) (Fin b) = Fin (a + b)"
| "f_add NaN y = NaN"
| "f_add x NaN = NaN"
| "f_add PInf NInf = NaN"
| "f_add NInf PInf = NaN"
| "f_add PInf y = PInf"
| "f_add NInf y = NInf"
| "f_add x PInf = PInf"
| "f_add x NInf = NInf"

definition f_sub :: "float64 \<Rightarrow> float64 \<Rightarrow> float64" where
  "f_sub x y = f_add x (f_neg y)"

fun f_sign :: "float64 \<Rightarrow> rat" where
  "f_sign (Fin a) = sgn a"
| "f_sign PInf = 1"
| "f_sign NInf = - 1"
| "f_sign NaN = 0"

definition f_inf :: "rat \<Rightarrow> float64" where
  "f_inf s = (if s = 0 then NaN else if 0 < s then PInf else NInf)"

fun f_mul :: "float64 \<Rightarrow> float64 \<Rightarrow> float64" where
  "f_mul (Fin a) (Fin b) = Fin (a * b)"
| "f_mul x y = (if x = NaN \<or> y = NaN then NaN else f_inf (f_sign x * f_sign y))"

text \<open>
  Division: the divisors of the program are converted integers, so the zero that divides
  is the positive one.
\<close>

fun f_div :: "float64 \<Rightarrow> float64 \<Rightarrow> float64" where
  "f_div (Fin a) (Fin b) = (if b = 0 then f_inf (sgn a) else Fin (a / b))"
| "f_div NaN y = NaN"
| "f_div x NaN = NaN"
| "f_div (Fin a) y = Fin 0"
| "f_div x (Fin b) = f_inf (f_sign x * (if b < 0 then - 1 else 1))"
| "f_div x y = NaN"

fun f_less :: "float64 \<Rightarrow> float64 \<Rightarrow> bool" where
  "f_less (Fin a) (Fin b) = (a < b)"
| "f_less NaN y = False"
| "f_less x NaN = False"
| "f_less NInf y = (y \<noteq> NInf)"
| "f_less x PInf = (x \<noteq> PInf)"
| "f_less x y = False"

subsection \<open>Decimal numbers (package strconv)\<close>

definition digit :: "int \<Rightarrow> char" where
  "digit d = char_of (48 + d)"

definition digit_val :: "char \<Rightarrow> int option" where
  "digit_val c = (let n = of_char c in if 48 \<le> n \<and> n \<le> (57::int) then Some (n - 48) else None)"

function dec_digits :: "int \<Rightarrow> string" where
  "dec_digits n = (if n < 10 then [digit n] else dec_digits (n div 10) @ [digit (n mod 10)])"
  by pat_completeness auto
termination
  by (relation "measure nat") auto

declare dec_digits.simps [simp del]

definition itoa :: "int \<Rightarrow> string" where
  "itoa i = (if i < 0 then CHR ''-'' # dec_digits (- i) else dec_digits i)"

fun digits_val :: "int \<Rightarrow> string \<Rightarrow> int option" where
  "digits_val acc [] = Some acc"
| "digits_val acc (c # cs) =
     (case digit_val c of None \<Rightarrow> None | Some d \<Rightarrow> digits_val (10 * acc + d) cs)"

text \<open>\<open>strconv.Atoi\<close>: an optional sign, at least one digit, and a value of 64 bits.\<close>

definition atoi :: "string \<Rightarrow> int option" where
  "atoi s =
     (let (neg, ds) = (case s of
          c # cs \<Rightarrow> if c = CHR ''-'' then (True, cs) else if c = CHR ''+'' then (False, cs) else (False, s)
        | [] \<Rightarrow> (False, s))
      in if ds = [] then None
         else case digits_val 0 ds of
             None \<Rightarrow> None
           | Some n \<Rightarrow> let i = (if neg then - n else n)
                       in if is_i64 i then Some i else None)"

subsection \<open>Sorting (package sort)\<close>

fun go_insert :: "('a \<Rightarrow> 'a \<Rightarrow> bool) \<Rightarrow> 'a \<Rightarrow> 'a list \<Rightarrow> 'a list" where
  "go_insert lt x [] = [x]"
| "go_insert lt x (y # ys) = (if lt x y then x # y # ys else y # go_insert lt x ys)"

definition go_sort :: "('a \<Rightarrow> 'a \<Rightarrow> bool) \<Rightarrow> 'a list \<Rightarrow> 'a list" where
  "go_sort lt xs = fold (go_insert lt) xs []"

subsection \<open>The loop that keeps the first element of each key\<close>

fun dedup_by :: "('a \<Rightarrow> 'k) \<Rightarrow> 'k list \<Rightarrow> 'a list \<Rightarrow> 'a list" where
  "dedup_by key seen [] = []"
| "dedup_by key seen (x # xs) =
     (if key x \<in> set seen then dedup_by key seen xs
      else x # dedup_by key (key x # seen) xs)"

subsection \<open>Lemmas: integers\<close>

lemma i32_id [wrap_simps]: "is_i32 x \<Longrightarrow> i32 x = x"
  by (simp add: i32_def is_i32_def)

lemma i64_id [wrap_simps]: "is_i64 x \<Longrightarrow> i64 x = x"
  by (simp add: i64_def is_i64_def)

lemma i32_range [simp, intro]: "is_i32 (i32 x)"
  by (simp add: i32_def is_i32_def)

lemma i64_range [simp, intro]: "is_i64 (i64 x)"
  by (simp add: i64_def is_i64_def)

lemma is_i32_le_i64 [intro]: "is_i32 x \<Longrightarrow> is_i64 x"
  by (simp add: is_i32_def is_i64_def)

lemma is_i32_between: "is_i32 x \<Longrightarrow> 0 \<le> y \<Longrightarrow> y \<le> x \<Longrightarrow> is_i32 (x - y)"
  by (simp add: is_i32_def)

lemma is_i64_between: "is_i64 x \<Longrightarrow> 0 \<le> y \<Longrightarrow> y \<le> x \<Longrightarrow> is_i64 (x - y)"
  by (simp add: is_i64_def)

subsection \<open>Lemmas: decimal numbers\<close>

lemma of_char_digit: "0 \<le> d \<Longrightarrow> d < 10 \<Longrightarrow> of_char (digit d) = 48 + d"
  by (simp add: digit_def)

lemma digit_val_digit [simp]: "0 \<le> d \<Longrightarrow> d < 10 \<Longrightarrow> digit_val (digit d) = Some d"
  by (simp add: digit_val_def of_char_digit)

lemma dec_digits_not_Nil [simp]: "dec_digits n \<noteq> []"
  by (subst dec_digits.simps) simp

lemma digits_val_snoc:
  "digits_val acc (cs @ [c]) =
     (case digits_val acc cs of None \<Rightarrow> None
      | Some a \<Rightarrow> map_option (\<lambda>d. 10 * a + d) (digit_val c))"
  by (induction cs arbitrary: acc) (auto split: option.splits)

lemma digits_val_dec_digits [simp]: "0 \<le> n \<Longrightarrow> digits_val 0 (dec_digits n) = Some n"
proof (induction n rule: dec_digits.induct)
  case (1 n)
  show ?case
  proof (cases "n < 10")
    case True
    with 1 show ?thesis by (simp add: dec_digits.simps)
  next
    case False
    with 1 have "digits_val 0 (dec_digits (n div 10)) = Some (n div 10)" by simp
    with False show ?thesis
      by (simp add: dec_digits.simps [of n] digits_val_snoc)
  qed
qed

lemma set_dec_digits: "0 \<le> n \<Longrightarrow> c \<in> set (dec_digits n) \<Longrightarrow> \<exists>d. 0 \<le> d \<and> d < 10 \<and> c = digit d"
proof (induction n rule: dec_digits.induct)
  case (1 n)
  show ?case
  proof (cases "n < 10")
    case True
    with 1 show ?thesis by (auto simp: dec_digits.simps [of n])
  next
    case False
    with 1 have "c \<in> set (dec_digits (n div 10)) \<or> c = digit (n mod 10)"
      by (auto simp: dec_digits.simps [of n])
    with 1 False show ?thesis by (auto intro: exI [of _ "n mod 10"])
  qed
qed

lemma digit_neq_sign:
  "0 \<le> d \<Longrightarrow> d < 10 \<Longrightarrow>
   digit d \<noteq> CHR ''-'' \<and> digit d \<noteq> CHR ''+'' \<and> digit d \<noteq> CHR ''.''"
  by (auto dest!: arg_cong [where f = "of_char :: char \<Rightarrow> int"] simp: of_char_digit)

lemma dec_digits_Cons:
  assumes "0 \<le> n"
  obtains d ds where "dec_digits n = digit d # ds" and "0 \<le> d" and "d < 10"
proof -
  obtain c ds where c: "dec_digits n = c # ds" by (cases "dec_digits n") auto
  then obtain d where "0 \<le> d" and "d < 10" and "c = digit d"
    using set_dec_digits [OF assms, of c] by auto
  with c that show thesis by blast
qed

lemma atoi_itoa: "is_i64 i \<Longrightarrow> atoi (itoa i) = Some i"
proof (cases "i < 0")
  case True
  assume "is_i64 i"
  with True show ?thesis by (simp add: atoi_def itoa_def)
next
  case False
  assume r: "is_i64 i"
  from False obtain d ds where ds: "dec_digits i = digit d # ds" and d: "0 \<le> d" "d < 10"
    by (metis dec_digits_Cons not_less)
  have v: "digits_val 0 (digit d # ds) = Some i"
    using False digits_val_dec_digits [of i] by (simp add: ds)
  from False r ds v digit_neq_sign [OF d] show ?thesis
    by (simp add: atoi_def itoa_def del: digits_val.simps)
qed

lemma itoa_no_dot: "CHR ''.'' \<notin> set (itoa i)"
proof
  assume "CHR ''.'' \<in> set (itoa i)"
  then have "CHR ''.'' \<in> set (dec_digits \<bar>i\<bar>)" by (auto simp: itoa_def split: if_splits)
  then show False using set_dec_digits [of "\<bar>i\<bar>"] digit_neq_sign by (metis abs_ge_zero)
qed

lemma dec_digits_inject: "0 \<le> m \<Longrightarrow> 0 \<le> n \<Longrightarrow> dec_digits m = dec_digits n \<longleftrightarrow> m = n"
  by (metis digits_val_dec_digits option.inject)

lemma sign_neq_dec_digits: "0 \<le> n \<Longrightarrow> CHR ''-'' # xs \<noteq> dec_digits n"
  by (metis dec_digits_Cons digit_neq_sign list.inject)

lemma itoa_inject: "itoa i = itoa j \<longleftrightarrow> i = j"
  using sign_neq_dec_digits [of i] sign_neq_dec_digits [of j]
  by (auto simp: itoa_def dec_digits_inject not_less split: if_splits dest: sym)

lemma takeWhile_until [simp]: "c \<notin> set s \<Longrightarrow> takeWhile (\<lambda>x. x \<noteq> c) (s @ c # t) = s"
  by (induction s) auto

lemma dropWhile_until [simp]: "c \<notin> set s \<Longrightarrow> dropWhile (\<lambda>x. x \<noteq> c) (s @ c # t) = c # t"
  by (induction s) auto

lemma takeWhile_never [simp]: "c \<notin> set s \<Longrightarrow> takeWhile (\<lambda>x. x \<noteq> c) s = s"
  by (induction s) auto

lemma dropWhile_never [simp]: "c \<notin> set s \<Longrightarrow> dropWhile (\<lambda>x. x \<noteq> c) s = []"
  by (induction s) auto

text \<open>A separator that neither right part holds splits a string in one way only.\<close>

lemma split_at_last:
  assumes "xs @ s # ys = xs' @ s # ys'" and "s \<notin> set ys" and "s \<notin> set ys'"
  shows "xs = xs' \<and> ys = ys'"
proof -
  from assms(1) have "rev ys @ s # rev xs = rev ys' @ s # rev xs'"
    by (metis append.assoc append_Cons append_Nil rev.simps(2) rev_append)
  moreover have "takeWhile (\<lambda>c. c \<noteq> s) (rev ys @ s # rev xs) = rev ys"
    using assms(2) by simp
  moreover have "takeWhile (\<lambda>c. c \<noteq> s) (rev ys' @ s # rev xs') = rev ys'"
    using assms(3) by simp
  ultimately have "ys = ys'" by simp
  with assms(1) show ?thesis by simp
qed

subsection \<open>Lemmas: sorting\<close>

lemma mset_go_insert [perm_simps]: "mset (go_insert lt x ys) = add_mset x (mset ys)"
  by (induction ys) auto

lemma mset_fold_go_insert: "mset (fold (go_insert lt) xs acc) = mset xs + mset acc"
  by (induction xs arbitrary: acc) (auto simp: perm_simps)

lemma mset_go_sort [perm_simps]: "mset (go_sort lt xs) = mset xs"
  by (simp add: go_sort_def mset_fold_go_insert)

lemma set_go_sort [simp]: "set (go_sort lt xs) = set xs"
  by (metis mset_go_sort set_mset_mset)

lemma length_go_sort [simp]: "length (go_sort lt xs) = length xs"
  by (metis mset_go_sort size_mset)

lemma distinct_map_mset: "mset xs = mset ys \<Longrightarrow> distinct (map f xs) = distinct (map f ys)"
  by (metis mset_eq_imp_distinct_iff mset_map)

lemma set_go_insert: "set (go_insert lt x ys) = insert x (set ys)"
  by (metis mset_go_insert set_mset_add_mset_insert set_mset_mset)

locale strict_weak_order =
  fixes lt :: "'a \<Rightarrow> 'a \<Rightarrow> bool"
  assumes asym: "lt x y \<Longrightarrow> \<not> lt y x"
    and incomparable_trans: "\<not> lt x y \<Longrightarrow> \<not> lt y z \<Longrightarrow> \<not> lt x z"
begin

lemma sorted_go_insert:
  "sorted_wrt (\<lambda>x y. \<not> lt y x) ys \<Longrightarrow> sorted_wrt (\<lambda>x y. \<not> lt y x) (go_insert lt x ys)"
  by (induction ys) (auto simp: set_go_insert, (metis asym incomparable_trans)+)

lemma sorted_fold_go_insert:
  "sorted_wrt (\<lambda>x y. \<not> lt y x) acc \<Longrightarrow>
   sorted_wrt (\<lambda>x y. \<not> lt y x) (fold (go_insert lt) xs acc)"
  by (induction xs arbitrary: acc) (auto intro: sorted_go_insert)

lemma sorted_go_sort: "sorted_wrt (\<lambda>x y. \<not> lt y x) (go_sort lt xs)"
  by (simp add: go_sort_def sorted_fold_go_insert)

end

subsection \<open>Lemmas: keeping the first of each key\<close>

lemma dedup_by_keys: "key ` set (dedup_by key seen xs) = key ` set xs - set seen"
  by (induction xs arbitrary: seen) auto

lemma dedup_by_subset: "set (dedup_by key seen xs) \<subseteq> set xs"
  by (induction xs arbitrary: seen) auto

lemma distinct_dedup_by: "distinct (map key (dedup_by key seen xs))"
  by (induction xs arbitrary: seen) (auto simp: dedup_by_keys)

lemma dedup_by_id: "distinct (map key xs) \<Longrightarrow> key ` set xs \<inter> set seen = {} \<Longrightarrow> dedup_by key seen xs = xs"
  by (induction xs arbitrary: seen) auto

lemma dedup_by_first:
  "x \<in> set (dedup_by key seen xs) \<longleftrightarrow>
     key x \<notin> set seen \<and> find (\<lambda>y. key y = key x) xs = Some x"
  by (induction xs arbitrary: seen) auto

subsection \<open>Lemmas: association lists as Go maps\<close>

lemma map_of_update [simp]: "map_of (AList.update k v m) = (map_of m)(k \<mapsto> v)"
  by (simp add: update_conv')

lemma map_of_delete [simp]: "map_of (AList.delete k m) = (map_of m)(k := None)"
  by (simp add: delete_conv')

lemma keys_update: "fst ` set (AList.update k v m) = insert k (fst ` set m)"
  using dom_update [of k v m] by (auto simp: dom_map_of_conv_image_fst)

lemma distinct_keys_update [simp, intro]:
  "distinct (map fst m) \<Longrightarrow> distinct (map fst (AList.update k v m))"
  by (rule distinct_update)

lemma distinct_keys_delete [simp, intro]:
  "distinct (map fst m) \<Longrightarrow> distinct (map fst (AList.delete k m))"
  by (rule distinct_delete)

lemma update_fresh: "k \<notin> fst ` set xs \<Longrightarrow> AList.update k v xs = xs @ [(k, v)]"
  by (induction xs) auto

lemma delete_keys: "map fst (AList.delete k xs) = filter (\<lambda>x. x \<noteq> k) (map fst xs)"
  by (induction xs) auto

lemma set_delete: "set (AList.delete k xs) = {x \<in> set xs. fst x \<noteq> k}"
  by (induction xs) auto

lemma map_update_same:
  "map_of m k = Some v \<Longrightarrow> h (k, v') = h (k, v) \<Longrightarrow> map h (AList.update k v' m) = map h m"
  by (induction m) (auto split: if_splits)

lemma update_None: "map_of m k = None \<Longrightarrow> AList.update k v m = m @ [(k, v)]"
  by (induction m) (auto split: if_splits)

lemma sum_list_delete:
  fixes h :: "'k \<times> 'v \<Rightarrow> int"
  shows "distinct (map fst m) \<Longrightarrow> map_of m k = Some v \<Longrightarrow>
    sum_list (map h m) = h (k, v) + sum_list (map h (AList.delete k m))"
proof (induction m)
  case (Cons e m)
  show ?case
  proof (cases "fst e = k")
    case True
    with Cons.prems have "AList.delete k m = m"
      by (auto simp: map_of_eq_None_iff [symmetric] intro!: delete_idem)
    with True Cons.prems show ?thesis by (cases e) auto
  next
    case False
    with Cons show ?thesis by (cases e) auto
  qed
qed simp

lemma length_delete_Some:
  "distinct (map fst m) \<Longrightarrow> map_of m k = Some v \<Longrightarrow> length m = Suc (length (AList.delete k m))"
  using sum_list_delete [of m k v "\<lambda>_. 1"] by (simp add: sum_list_triv)

lemma set_update_subset: "set (AList.update k v m) \<subseteq> insert (k, v) (set m)"
  by (induction m) auto

end
