(* ===== verification/Go_Url.thy ===== *)
theory Go_Url
  imports Go_Prelude
begin

section \<open>What the components use of the package net/url\<close>

text \<open>
  \<open>url_Parse\<close> is \<open>url.Parse\<close> on a reference that does not come from a request line.
  The components read the scheme, the opaque part, the path and the raw query, so those
  are the fields of \<open>url\<close>; the user, the host and the fragment are checked for validity
  (they can make \<open>url.Parse\<close> fail) and dropped.
\<close>

record url =
  Scheme :: string
  Opaque :: string
  Path :: string
  RawQuery :: string

datatype escape_mode = EncodePath | EncodeUserPassword | EncodeHost | EncodeZone | EncodeFragment

subsection \<open>String helpers (package strings)\<close>

text \<open>\<open>strings.Cut\<close> at a single character: the text before and after the first one.\<close>

definition cut :: "char \<Rightarrow> string \<Rightarrow> string \<times> string" where
  "cut c s = (takeWhile (\<lambda>x. x \<noteq> c) s, drop 1 (dropWhile (\<lambda>x. x \<noteq> c) s))"

definition has_prefix :: "string \<Rightarrow> string \<Rightarrow> bool" where
  "has_prefix p s \<longleftrightarrow> take (length p) s = p"

text \<open>\<open>strings.LastIndex\<close> of a character, as the text before it and the text after it.\<close>

definition cut_last :: "char \<Rightarrow> string \<Rightarrow> (string \<times> string) option" where
  "cut_last c s =
     (if c \<in> set s
      then let after = rev (takeWhile (\<lambda>x. x \<noteq> c) (rev s))
           in Some (take (length s - length after - 1) s, after)
      else None)"

fun to_lower_char :: "char \<Rightarrow> char" where
  "to_lower_char c = (let n = of_char c in if 65 \<le> n \<and> n \<le> (90::nat) then char_of (n + 32) else c)"

definition code :: "char \<Rightarrow> nat" where
  "code c = of_char c"

definition is_letter :: "char \<Rightarrow> bool" where
  "is_letter c \<longleftrightarrow> (97 \<le> code c \<and> code c \<le> 122) \<or> (65 \<le> code c \<and> code c \<le> 90)"

definition is_digit :: "char \<Rightarrow> bool" where
  "is_digit c \<longleftrightarrow> 48 \<le> code c \<and> code c \<le> 57"

definition contains_ctl :: "string \<Rightarrow> bool" where
  "contains_ctl s \<longleftrightarrow> (\<exists>c \<in> set s. code c < 32 \<or> code c = 127)"

subsection \<open>Percent escapes\<close>

definition unhex :: "char \<Rightarrow> nat option" where
  "unhex c =
     (if is_digit c then Some (code c - 48)
      else if 97 \<le> code c \<and> code c \<le> 102 then Some (code c - 97 + 10)
      else if 65 \<le> code c \<and> code c \<le> 70 then Some (code c - 65 + 10)
      else None)"

definition should_escape_host :: "char \<Rightarrow> bool" where
  "should_escape_host c \<longleftrightarrow>
     \<not> (is_letter c \<or> is_digit c \<or> c \<in> set ''!$&()*+,;=:[]<>-_.~'' \<or> code c = 39 \<or> code c = 34)"

definition host_like :: "escape_mode \<Rightarrow> bool" where
  "host_like m \<longleftrightarrow> m = EncodeHost \<or> m = EncodeZone"

text \<open>
  A host may escape only bytes outside ASCII, and the percent sign itself; a zone
  identifier anything but a character that must stay escaped.
\<close>

fun unescape :: "escape_mode \<Rightarrow> string \<Rightarrow> string option" where
  "unescape m [] = Some []"
| "unescape m (c # cs) =
     (if c = CHR ''%'' then
        (case cs of
           a # b # rest \<Rightarrow>
             (case (unhex a, unhex b) of
                (Some x, Some y) \<Rightarrow>
                  if m = EncodeHost \<and> x < 8 \<and> \<not> (a = CHR ''2'' \<and> b = CHR ''5'') then None
                  else if m = EncodeZone \<and> \<not> (a = CHR ''2'' \<and> b = CHR ''5'')
                          \<and> 16 * x + y \<noteq> 32 \<and> should_escape_host (char_of (16 * x + y)) then None
                  else map_option ((#) (char_of (16 * x + y))) (unescape m rest)
              | _ \<Rightarrow> None)
         | _ \<Rightarrow> None)
      else if host_like m \<and> code c < 128 \<and> should_escape_host c then None
      else map_option ((#) c) (unescape m cs))"

subsection \<open>The authority part\<close>

definition valid_optional_port :: "string \<Rightarrow> bool" where
  "valid_optional_port p =
     (case p of [] \<Rightarrow> True | c # ds \<Rightarrow> c = CHR '':'' \<and> list_all is_digit ds)"

text \<open>The position of the zone separator of an IPv6 literal, if it has one.\<close>

fun zone_split :: "string \<Rightarrow> (string \<times> string) option" where
  "zone_split [] = None"
| "zone_split (c # cs) =
     (if has_prefix ''%25'' (c # cs) then Some ([], c # cs)
      else map_option (\<lambda>(a, b). (c # a, b)) (zone_split cs))"

definition parse_host :: "string \<Rightarrow> bool" where
  "parse_host h =
     (if has_prefix ''['' h then
        (case cut_last (CHR '']'') h of
           None \<Rightarrow> False
         | Some (inside, port) \<Rightarrow>
             valid_optional_port port \<and>
             (case zone_split inside of
                Some (a, b) \<Rightarrow>
                  unescape EncodeHost a \<noteq> None \<and> unescape EncodeZone b \<noteq> None
                  \<and> unescape EncodeHost (CHR '']'' # port) \<noteq> None
              | None \<Rightarrow> unescape EncodeHost h \<noteq> None))
      else
        (case cut_last (CHR '':'') h of
           None \<Rightarrow> True
         | Some (_, port) \<Rightarrow> valid_optional_port (CHR '':'' # port))
        \<and> unescape EncodeHost h \<noteq> None)"

definition valid_userinfo :: "string \<Rightarrow> bool" where
  "valid_userinfo s =
     list_all (\<lambda>c. is_letter c \<or> is_digit c \<or> c \<in> set ''-._:~!$&()*+,;=%@'' \<or> code c = 39) s"

definition parse_authority :: "string \<Rightarrow> bool" where
  "parse_authority a =
     (case cut_last (CHR ''@'') a of
        None \<Rightarrow> parse_host a
      | Some (user, host) \<Rightarrow>
          parse_host host \<and> valid_userinfo user \<and>
          unescape EncodeUserPassword (fst (cut (CHR '':'') user)) \<noteq> None \<and>
          unescape EncodeUserPassword (snd (cut (CHR '':'') user)) \<noteq> None)"

subsection \<open>Parse\<close>

text \<open>
  \<open>getScheme\<close>: \<open>None\<close> is the error for a missing scheme, an empty scheme means that the
  text has none.
\<close>

fun get_scheme_from :: "nat \<Rightarrow> string \<Rightarrow> string \<Rightarrow> (string \<times> string) option" where
  "get_scheme_from i raw [] = Some ([], raw)"
| "get_scheme_from i raw (c # cs) =
     (if is_letter c then get_scheme_from (Suc i) raw cs
      else if is_digit c \<or> c = CHR ''+'' \<or> c = CHR ''-'' \<or> c = CHR ''.'' then
        (if i = 0 then Some ([], raw) else get_scheme_from (Suc i) raw cs)
      else if c = CHR '':'' then
        (if i = 0 then None else Some (take i raw, cs))
      else Some ([], raw))"

definition get_scheme :: "string \<Rightarrow> (string \<times> string) option" where
  "get_scheme raw = get_scheme_from 0 raw raw"

definition split_query :: "string \<Rightarrow> string \<times> string" where
  "split_query rest =
     (if rest \<noteq> [] \<and> last rest = CHR ''?'' \<and> length (filter (\<lambda>c. c = CHR ''?'') rest) = 1
      then (butlast rest, [])
      else cut (CHR ''?'') rest)"

definition parse_rest :: "string \<Rightarrow> string \<Rightarrow> string \<Rightarrow> url option" where
  "parse_rest scheme rest query =
     (if \<not> has_prefix ''/'' rest \<and> scheme \<noteq> [] then
        Some \<lparr>Scheme = scheme, Opaque = rest, Path = [], RawQuery = query\<rparr>
      else if \<not> has_prefix ''/'' rest \<and> CHR '':'' \<in> set (fst (cut (CHR ''/'') rest)) then None
      else
        let (ok, p) =
          (if (scheme \<noteq> [] \<or> \<not> has_prefix ''///'' rest) \<and> has_prefix ''//'' rest
           then (parse_authority (takeWhile (\<lambda>c. c \<noteq> CHR ''/'') (drop 2 rest)),
                 dropWhile (\<lambda>c. c \<noteq> CHR ''/'') (drop 2 rest))
           else (True, rest))
        in if ok
           then map_option (\<lambda>path. \<lparr>Scheme = scheme, Opaque = [], Path = path, RawQuery = query\<rparr>)
                  (unescape EncodePath p)
           else None)"

definition parse_no_fragment :: "string \<Rightarrow> url option" where
  "parse_no_fragment raw =
     (if contains_ctl raw then None
      else if raw = ''*'' then Some \<lparr>Scheme = [], Opaque = [], Path = ''*'', RawQuery = []\<rparr>
      else case get_scheme raw of
          None \<Rightarrow> None
        | Some (scheme, rest) \<Rightarrow>
            let (r, q) = split_query rest in parse_rest (map to_lower_char scheme) r q)"

definition url_Parse :: "string \<Rightarrow> url option" where
  "url_Parse raw =
     (let (u, frag) = cut (CHR ''#'') raw
      in case parse_no_fragment u of
           None \<Rightarrow> None
         | Some r \<Rightarrow> if unescape EncodeFragment frag = None then None else Some r)"

subsection \<open>Opaque references\<close>

text \<open>
  A reference \<open>scheme:rest\<close> without fragment, query or control character whose rest does not
  start with a slash is opaque: this is the shape of the preloaded root file systems.
\<close>

lemma cut_none: "c \<notin> set s \<Longrightarrow> cut c s = (s, [])"
  by (simp add: cut_def)

lemma split_query_none: "CHR ''?'' \<notin> set s \<Longrightarrow> split_query s = (s, [])"
  by (auto simp: split_query_def cut_none) (metis last_in_set)

lemma get_scheme_from_letters:
  "list_all is_letter xs \<Longrightarrow>
   get_scheme_from i raw (xs @ ys) = get_scheme_from (i + length xs) raw ys"
  by (induction xs arbitrary: i) auto

lemma url_Parse_preloaded:
  assumes "CHR ''#'' \<notin> set s" and "CHR ''?'' \<notin> set s" and "\<not> contains_ctl s"
    and "\<not> has_prefix ''/'' s"
  shows "url_Parse (''preloaded:'' @ s) =
           Some \<lparr>Scheme = ''preloaded'', Opaque = s, Path = [], RawQuery = []\<rparr>"
proof -
  have "get_scheme (''preloaded:'' @ s) = Some (''preloaded'', s)"
    by (simp add: get_scheme_def is_letter_def is_digit_def code_def)
  moreover have "\<not> contains_ctl (''preloaded:'' @ s)"
    using assms(3) by (auto simp: contains_ctl_def code_def)
  moreover have "cut (CHR ''#'') (''preloaded:'' @ s) = (''preloaded:'' @ s, [])"
    using assms(1) by (simp add: cut_none)
  ultimately show ?thesis
    using assms(2,4)
    by (simp add: url_Parse_def parse_no_fragment_def split_query_none parse_rest_def Let_def)
qed

lemma url_Parse_preloaded_layer:
  assumes "CHR ''#'' \<notin> set s" and "CHR ''?'' \<notin> set s" and "\<not> contains_ctl s"
    and "\<not> has_prefix ''/'' s"
    and "CHR ''#'' \<notin> set q" and "\<not> contains_ctl q" and "q \<noteq> []"
  shows "url_Parse (''preloaded+layer:'' @ s @ ''?'' @ q) =
           Some \<lparr>Scheme = ''preloaded+layer'', Opaque = s, Path = [], RawQuery = q\<rparr>"
proof -
  let ?r = "s @ ''?'' @ q"
  have "get_scheme (''preloaded+layer:'' @ ?r) = Some (''preloaded+layer'', ?r)"
    by (simp add: get_scheme_def is_letter_def is_digit_def code_def)
  moreover have "\<not> contains_ctl (''preloaded+layer:'' @ ?r)"
    using assms(3,6) by (auto simp: contains_ctl_def code_def)
  moreover have "cut (CHR ''#'') (''preloaded+layer:'' @ ?r) = (''preloaded+layer:'' @ ?r, [])"
    using assms(1,5) by (simp add: cut_none)
  moreover have "\<not> (last ?r = CHR ''?'' \<and> length (filter (\<lambda>c. c = CHR ''?'') ?r) = 1)"
  proof
    assume a: "last ?r = CHR ''?'' \<and> length (filter (\<lambda>c. c = CHR ''?'') ?r) = 1"
    with \<open>q \<noteq> []\<close> have "CHR ''?'' \<in> set q" by (metis append_is_Nil_conv last_appendR last_in_set)
    then have "filter (\<lambda>c. c = CHR ''?'') q \<noteq> []" by (auto simp: filter_empty_conv)
    with a show False by simp
  qed
  then have "split_query ?r = cut (CHR ''?'') ?r" by (auto simp: split_query_def)
  moreover have "cut (CHR ''?'') ?r = (s, q)"
    using assms(2) by (simp add: cut_def)
  ultimately show ?thesis
    using assms(4)
    by (simp add: url_Parse_def parse_no_fragment_def parse_rest_def Let_def)
qed

end
