(* ===== verification/Scheduling_Types.thy ===== *)
theory Scheduling_Types
  imports Go_Url "HOL-Library.Char_ord" "HOL-Library.List_Lexorder"
begin

section \<open>The scheduling model shared by the auctioneer and the reps (package bbs/models)\<close>

text \<open>
  The types that travel between the auctioneer and the reps, and the operations on them:
  resources and their subtraction, placement constraints, the state of a cell with its
  admission test (\<open>ResourceMatch\<close>), its score and its three placement predicates. A record
  field carries a prefix that names its struct, because Go's field names repeat.
\<close>

subsection \<open>Errors of the auction\<close>

datatype auction_error =
    ErrorCellMismatch
  | ErrorVolumeDriverMismatch
  | PlacementTagMismatchError "string list"
  | InsufficientResourcesError "string list"
  | ErrorNothingToStop
  | ErrorCellCommunication
  | ErrorExceededInflightCreation

definition quoted :: "string \<Rightarrow> string" where
  "quoted s = [char_of (34::nat)] @ s @ [char_of (34::nat)]"

fun join :: "string \<Rightarrow> string list \<Rightarrow> string" where
  "join sep [] = []"
| "join sep [s] = s"
| "join sep (s # ss) = s @ sep @ join sep ss"

definition PlacementTagMismatchError_Error :: "string list \<Rightarrow> string" where
  "PlacementTagMismatchError_Error tags =
     (case tags of
        [] \<Rightarrow> ''found no compatible cell with no placement tags''
      | [t] \<Rightarrow> ''found no compatible cell with placement tag '' @ quoted t
      | _ \<Rightarrow> ''found no compatible cell with placement tags ''
             @ join '', '' (map quoted (butlast tags)) @ '' and '' @ quoted (last tags))"

definition InsufficientResourcesError_Error :: "string list \<Rightarrow> string" where
  "InsufficientResourcesError_Error problems =
     (if problems = [] then ''insufficient resources''
      else ''insufficient resources: '' @ join '', '' (go_sort (<) problems))"

fun auction_error_Error :: "auction_error \<Rightarrow> string" where
  "auction_error_Error ErrorCellMismatch = ''found no compatible cell for required rootfs''"
| "auction_error_Error ErrorVolumeDriverMismatch =
     ''found no compatible cell with required volume drivers''"
| "auction_error_Error (PlacementTagMismatchError tags) = PlacementTagMismatchError_Error tags"
| "auction_error_Error (InsufficientResourcesError ps) = InsufficientResourcesError_Error ps"
| "auction_error_Error ErrorNothingToStop = ''nothing to stop''"
| "auction_error_Error ErrorCellCommunication = ''unable to communicate to compatible cells''"
| "auction_error_Error ErrorExceededInflightCreation =
     ''waiting to start instance: reached in-flight start limit''"

subsection \<open>Resources\<close>

record Resource =
  r_MemoryMB :: int
  r_DiskMB :: int
  r_MaxPids :: int

definition NewResource :: "int \<Rightarrow> int \<Rightarrow> int \<Rightarrow> Resource" where
  "NewResource memoryMb diskMb maxPids =
     \<lparr>r_MemoryMB = memoryMb, r_DiskMB = diskMb, r_MaxPids = maxPids\<rparr>"

definition Resource_Valid :: "Resource \<Rightarrow> bool" where
  "Resource_Valid r \<longleftrightarrow> r_DiskMB r \<ge> 0 \<and> r_MemoryMB r \<ge> 0"

definition Resource_Copy :: "Resource \<Rightarrow> Resource" where
  "Resource_Copy r = NewResource (r_MemoryMB r) (r_DiskMB r) (r_MaxPids r)"

record Resources =
  rs_MemoryMB :: int
  rs_DiskMB :: int
  rs_Containers :: int

definition Resources_Subtract :: "Resources \<Rightarrow> Resource \<Rightarrow> Resources" where
  "Resources_Subtract r res =
     r\<lparr>rs_MemoryMB := i32 (rs_MemoryMB r - r_MemoryMB res),
       rs_DiskMB := i32 (rs_DiskMB r - r_DiskMB res),
       rs_Containers := i64 (rs_Containers r - 1)\<rparr>"

definition fraction_used :: "int \<Rightarrow> int \<Rightarrow> float64" where
  "fraction_used left tot = f_sub (Fin 1) (f_div (float_of_int left) (float_of_int tot))"

definition Resources_ComputeScore :: "Resources \<Rightarrow> Resources \<Rightarrow> float64" where
  "Resources_ComputeScore r tot =
     (let fractionUsedMemory = fraction_used (rs_MemoryMB r) (rs_MemoryMB tot);
          fractionUsedDisk = fraction_used (rs_DiskMB r) (rs_DiskMB tot);
          fractionUsedContainers = fraction_used (rs_Containers r) (rs_Containers tot)
      in f_div (f_add (f_add fractionUsedMemory fractionUsedDisk) fractionUsedContainers) (Fin 3))"

subsection \<open>Placement constraints, LRPs, tasks and work\<close>

record PlacementConstraint =
  pc_PlacementTags :: "string list"
  pc_VolumeDrivers :: "string list"
  pc_RootFs :: string

definition PlacementConstraint_Valid :: "PlacementConstraint \<Rightarrow> bool" where
  "PlacementConstraint_Valid p \<longleftrightarrow> pc_RootFs p \<noteq> []"

record ActualLRPKey =
  key_ProcessGuid :: string
  key_Index :: int
  key_Domain :: string

definition NewActualLRPKey :: "string \<Rightarrow> int \<Rightarrow> string \<Rightarrow> ActualLRPKey" where
  "NewActualLRPKey processGuid index domain =
     \<lparr>key_ProcessGuid = processGuid, key_Index = index, key_Domain = domain\<rparr>"

text \<open>A validation error is the list of the invalid fields; the empty list is \<open>nil\<close>.\<close>

definition ActualLRPKey_Validate :: "ActualLRPKey \<Rightarrow> string list" where
  "ActualLRPKey_Validate key =
     (if key_ProcessGuid key = [] then [''process_guid''] else [])
     @ (if key_Index key < 0 then [''index''] else [])
     @ (if key_Domain key = [] then [''domain''] else [])"

record ActualLRPInstanceKey =
  ikey_InstanceGuid :: string
  ikey_CellId :: string

definition ActualLRPInstanceKey_Validate :: "ActualLRPInstanceKey \<Rightarrow> string list" where
  "ActualLRPInstanceKey_Validate key =
     (if ikey_CellId key = [] then [''cell_id''] else [])
     @ (if ikey_InstanceGuid key = [] then [''instance_guid''] else [])"

record SchedulingLRP =
  lrp_InstanceGUID :: string
  lrp_Key :: ActualLRPKey
  lrp_Constraint :: PlacementConstraint
  lrp_Resource :: Resource
  lrp_State :: string

definition NewSchedulingLRP ::
  "string \<Rightarrow> ActualLRPKey \<Rightarrow> Resource \<Rightarrow> PlacementConstraint \<Rightarrow> SchedulingLRP" where
  "NewSchedulingLRP instanceGUID key res pc =
     \<lparr>lrp_InstanceGUID = instanceGUID, lrp_Key = key, lrp_Constraint = pc, lrp_Resource = res,
      lrp_State = []\<rparr>"

definition LRP_Identifier :: "SchedulingLRP \<Rightarrow> string" where
  "LRP_Identifier lrp = key_ProcessGuid (lrp_Key lrp) @ ''.'' @ itoa (key_Index (lrp_Key lrp))"

definition LRP_Copy :: "SchedulingLRP \<Rightarrow> SchedulingLRP" where
  "LRP_Copy lrp =
     NewSchedulingLRP (lrp_InstanceGUID lrp) (lrp_Key lrp) (lrp_Resource lrp) (lrp_Constraint lrp)"

datatype Task_State = Task_Invalid | Task_Pending | Task_Running | Task_Completed | Task_Resolving

record SchedulingTask =
  task_TaskGuid :: string
  task_Domain :: string
  task_Constraint :: PlacementConstraint
  task_Resource :: Resource
  task_State :: Task_State
  task_Failed :: bool

definition NewSchedulingTask ::
  "string \<Rightarrow> string \<Rightarrow> Resource \<Rightarrow> PlacementConstraint \<Rightarrow> SchedulingTask" where
  "NewSchedulingTask guid domain res pc =
     \<lparr>task_TaskGuid = guid, task_Domain = domain, task_Constraint = pc, task_Resource = res,
      task_State = Task_Invalid, task_Failed = False\<rparr>"

definition Task_Identifier :: "SchedulingTask \<Rightarrow> string" where
  "Task_Identifier task = task_TaskGuid task"

record Work =
  w_LRPs :: "SchedulingLRP list"
  w_Tasks :: "SchedulingTask list"
  w_CellID :: string

definition empty_work :: Work where
  "empty_work = \<lparr>w_LRPs = [], w_Tasks = [], w_CellID = []\<rparr>"

subsection \<open>Start requests\<close>

record TaskStartRequest =
  tsr_Task :: SchedulingTask

definition TaskStartRequest_Validate :: "TaskStartRequest \<Rightarrow> string option" where
  "TaskStartRequest_Validate t =
     (if task_TaskGuid (tsr_Task t) = [] then Some ''task guid is empty''
      else if \<not> Resource_Valid (task_Resource (tsr_Task t))
        then Some ''resources cannot be less than zero''
      else if \<not> PlacementConstraint_Valid (task_Constraint (tsr_Task t))
        then Some ''placement constraint cannot be empty''
      else None)"

record LRPStartRequest =
  lsr_ProcessGuid :: string
  lsr_Domain :: string
  lsr_Indices :: "int list"
  lsr_Constraint :: PlacementConstraint
  lsr_Resource :: Resource

definition LRPStartRequest_Validate :: "LRPStartRequest \<Rightarrow> string option" where
  "LRPStartRequest_Validate l =
     (if lsr_ProcessGuid l = [] then Some ''process guid is empty''
      else if lsr_Domain l = [] then Some ''domain is empty''
      else if length (lsr_Indices l) = 0 then Some ''indices must not be empty''
      else if \<not> Resource_Valid (lsr_Resource l) then Some ''resources cannot be less than 0''
      else if \<not> PlacementConstraint_Valid (lsr_Constraint l)
        then Some ''placement constraint cannot be empty''
      else None)"

subsection \<open>Root file system providers\<close>

datatype RootFSProvider = ArbitraryRootFSProvider | FixedSetRootFSProvider "string list"

type_synonym RootFSProviders = "(string \<times> RootFSProvider) list"

fun RootFSProvider_Match :: "RootFSProvider \<Rightarrow> url \<Rightarrow> bool" where
  "RootFSProvider_Match ArbitraryRootFSProvider u = True"
| "RootFSProvider_Match (FixedSetRootFSProvider rootfses) u = (Opaque u \<in> set rootfses)"

definition RootFSProviders_Match :: "RootFSProviders \<Rightarrow> url \<Rightarrow> bool" where
  "RootFSProviders_Match p u =
     (case map_of p (Scheme u) of None \<Rightarrow> False | Some provider \<Rightarrow> RootFSProvider_Match provider u)"

subsection \<open>The state of a cell\<close>

record CellState =
  cs_RepURL :: string
  cs_CellID :: string
  cs_CellIndex :: int
  cs_RootFSProviders :: RootFSProviders
  cs_AvailableResources :: Resources
  cs_TotalResources :: Resources
  cs_LRPs :: "SchedulingLRP list"
  cs_Tasks :: "SchedulingTask list"
  cs_StartingContainerCount :: int
  cs_Zone :: string
  cs_Evacuating :: bool
  cs_VolumeDrivers :: "string list"
  cs_PlacementTags :: "string list"
  cs_OptionalPlacementTags :: "string list"
  cs_ProxyMemoryAllocationMB :: int

definition CellState_AddLRP :: "CellState \<Rightarrow> SchedulingLRP \<Rightarrow> CellState" where
  "CellState_AddLRP c lrp =
     c\<lparr>cs_AvailableResources := Resources_Subtract (cs_AvailableResources c) (lrp_Resource lrp),
       cs_StartingContainerCount := i64 (cs_StartingContainerCount c + 1),
       cs_LRPs := cs_LRPs c @ [lrp]\<rparr>"

definition CellState_AddTask :: "CellState \<Rightarrow> SchedulingTask \<Rightarrow> CellState" where
  "CellState_AddTask c task =
     c\<lparr>cs_AvailableResources := Resources_Subtract (cs_AvailableResources c) (task_Resource task),
       cs_StartingContainerCount := i64 (cs_StartingContainerCount c + 1),
       cs_Tasks := cs_Tasks c @ [task]\<rparr>"

text \<open>The keys of the problem map, and \<open>None\<close> for the \<open>nil\<close> error.\<close>

definition CellState_ResourceMatch :: "CellState \<Rightarrow> Resource \<Rightarrow> string list option" where
  "CellState_ResourceMatch c res =
     (let problems =
        (if rs_DiskMB (cs_AvailableResources c) < r_DiskMB res then [''disk''] else [])
        @ (if rs_MemoryMB (cs_AvailableResources c) < r_MemoryMB res then [''memory''] else [])
        @ (if rs_Containers (cs_AvailableResources c) < 1 then [''containers''] else [])
      in if problems = [] then None else Some problems)"

definition CellState_ComputeScore :: "CellState \<Rightarrow> Resource \<Rightarrow> float64 \<Rightarrow> float64" where
  "CellState_ComputeScore c res startingContainerWeight =
     (let remainingResources = Resources_Subtract (cs_AvailableResources c) res;
          startingContainerScore =
            f_mul (float_of_int (cs_StartingContainerCount c)) startingContainerWeight
      in f_add (Resources_ComputeScore remainingResources (cs_TotalResources c))
               startingContainerScore)"

definition CellState_MatchRootFS :: "CellState \<Rightarrow> string \<Rightarrow> bool" where
  "CellState_MatchRootFS c rootfs =
     (case url_Parse rootfs of None \<Rightarrow> False | Some u \<Rightarrow> RootFSProviders_Match (cs_RootFSProviders c) u)"

definition CellState_MatchVolumeDrivers :: "CellState \<Rightarrow> string list \<Rightarrow> bool" where
  "CellState_MatchVolumeDrivers c volumeDrivers =
     list_all (\<lambda>requested. list_ex (\<lambda>actual. requested = actual) (cs_VolumeDrivers c)) volumeDrivers"

text \<open>
  A set of placement tags is the list of the keys of the Go map: without repetitions, in the
  order of insertion.
\<close>

definition toPlacementSet :: "string list \<Rightarrow> string list" where
  "toPlacementSet slice = fold List.insert slice []"

definition placementTagSet_union :: "string list \<Rightarrow> string list \<Rightarrow> string list" where
  "placementTagSet_union s other = fold List.insert other (fold List.insert s [])"

definition placementTagSet_isSubset :: "string list \<Rightarrow> string list \<Rightarrow> bool" where
  "placementTagSet_isSubset s other = list_all (\<lambda>k. k \<in> set other) s"

definition CellState_MatchPlacementTags :: "CellState \<Rightarrow> string list \<Rightarrow> bool" where
  "CellState_MatchPlacementTags c desiredPlacementTags =
     (let desiredTags = toPlacementSet desiredPlacementTags;
          optionalTags = toPlacementSet (cs_OptionalPlacementTags c);
          requiredTags = toPlacementSet (cs_PlacementTags c);
          allTags = placementTagSet_union requiredTags optionalTags
      in placementTagSet_isSubset requiredTags desiredTags
         \<and> placementTagSet_isSubset desiredTags allTags)"

subsection \<open>Lemmas: identifiers\<close>

lemma LRP_Identifier_inject:
  "LRP_Identifier a = LRP_Identifier b \<longleftrightarrow>
     key_ProcessGuid (lrp_Key a) = key_ProcessGuid (lrp_Key b)
     \<and> key_Index (lrp_Key a) = key_Index (lrp_Key b)"
  using split_at_last [of "key_ProcessGuid (lrp_Key a)" "CHR ''.''"
      "itoa (key_Index (lrp_Key a))" "key_ProcessGuid (lrp_Key b)" "itoa (key_Index (lrp_Key b))"]
    itoa_no_dot
  by (auto simp: LRP_Identifier_def itoa_inject)

lemma LRP_Identifier_Copy [simp]: "LRP_Identifier (LRP_Copy lrp) = LRP_Identifier lrp"
  by (simp add: LRP_Identifier_def LRP_Copy_def NewSchedulingLRP_def)

subsection \<open>Lemmas: the placement predicates\<close>

lemma set_fold_insert [simp]: "set (fold List.insert xs acc) = set xs \<union> set acc"
  by (induction xs arbitrary: acc) auto

lemma MatchVolumeDrivers_subset:
  "CellState_MatchVolumeDrivers c ds \<longleftrightarrow> set ds \<subseteq> set (cs_VolumeDrivers c)"
  by (auto simp: CellState_MatchVolumeDrivers_def list_all_iff list_ex_iff)

lemma MatchPlacementTags_subset:
  "CellState_MatchPlacementTags c tags \<longleftrightarrow>
     set (cs_PlacementTags c) \<subseteq> set tags
     \<and> set tags \<subseteq> set (cs_PlacementTags c) \<union> set (cs_OptionalPlacementTags c)"
  by (auto simp: CellState_MatchPlacementTags_def toPlacementSet_def placementTagSet_union_def
      placementTagSet_isSubset_def list_all_iff)

subsection \<open>Lemmas: admission and subtraction\<close>

text \<open>The resources of a cell fit their Go types, and none is overdrawn.\<close>

definition Resources_typed :: "Resources \<Rightarrow> bool" where
  "Resources_typed r \<longleftrightarrow> is_i32 (rs_MemoryMB r) \<and> is_i32 (rs_DiskMB r) \<and> is_i64 (rs_Containers r)"

definition Resources_nonneg :: "Resources \<Rightarrow> bool" where
  "Resources_nonneg r \<longleftrightarrow> 0 \<le> rs_MemoryMB r \<and> 0 \<le> rs_DiskMB r \<and> 0 \<le> rs_Containers r"

definition Resources_fits :: "Resources \<Rightarrow> Resource \<Rightarrow> bool" where
  "Resources_fits r res \<longleftrightarrow>
     r_MemoryMB res \<le> rs_MemoryMB r \<and> r_DiskMB res \<le> rs_DiskMB r \<and> 1 \<le> rs_Containers r"

lemma ResourceMatch_None_iff:
  "CellState_ResourceMatch c res = None \<longleftrightarrow> Resources_fits (cs_AvailableResources c) res"
  by (auto simp: CellState_ResourceMatch_def Resources_fits_def Let_def)

lemma ResourceMatch_Some_problems:
  "CellState_ResourceMatch c res = Some ps \<Longrightarrow> ps \<noteq> [] \<and> set ps \<subseteq> {''disk'', ''memory'', ''containers''}"
  by (auto simp: CellState_ResourceMatch_def Let_def split: if_splits)

lemma Resources_Subtract_fits:
  assumes "Resources_typed r" and "Resource_Valid res" and "Resources_fits r res"
  shows "rs_MemoryMB (Resources_Subtract r res) = rs_MemoryMB r - r_MemoryMB res"
    and "rs_DiskMB (Resources_Subtract r res) = rs_DiskMB r - r_DiskMB res"
    and "rs_Containers (Resources_Subtract r res) = rs_Containers r - 1"
    and "Resources_typed (Resources_Subtract r res)"
    and "Resources_nonneg (Resources_Subtract r res)"
  using assms
  by (simp_all add: Resources_Subtract_def Resources_typed_def Resource_Valid_def
      Resources_fits_def Resources_nonneg_def i32_id i64_id is_i32_between is_i64_between)

end
