(* ===== verification/Auction_Cell.thy ===== *)
theory Auction_Cell
  imports Scheduling_Types
begin

section \<open>Auctions and the auctioneer's view of a cell\<close>

text \<open>
  The auction records (package \<open>auction/auctiontypes\<close>) and the cell on which the scheduler
  reserves work (\<open>auction/auctionrunner/cell.go\<close>): scoring, reservation and commit. The rep
  behind a cell is reached through a client; \<open>Perform\<close> of that client is a parameter, with
  \<open>None\<close> for an error of the call.

  The contract that both reservations satisfy is the locale \<open>reservation\<close>: a reservation is
  refused exactly when the resources do not fit, and a granted one subtracts exactly what was
  asked for. It is interpreted on \<open>ReserveLRP\<close> and on \<open>ReserveTask\<close>.
\<close>

subsection \<open>Auctions (auctiontypes/types.go)\<close>

record AuctionRecord =
  ar_Winner :: string
  ar_Attempts :: int
  ar_QueueTime :: int
  ar_WaitDuration :: int
  ar_PlacementError :: string

definition NewAuctionRecord :: "int \<Rightarrow> AuctionRecord" where
  "NewAuctionRecord now =
     \<lparr>ar_Winner = [], ar_Attempts = 0, ar_QueueTime = now, ar_WaitDuration = 0,
      ar_PlacementError = []\<rparr>"

record LRPAuction =
  la_LRP :: SchedulingLRP
  la_Record :: AuctionRecord

definition NewLRPAuction :: "SchedulingLRP \<Rightarrow> int \<Rightarrow> LRPAuction" where
  "NewLRPAuction lrp now = \<lparr>la_LRP = lrp, la_Record = NewAuctionRecord now\<rparr>"

definition LRPAuction_Copy :: "LRPAuction \<Rightarrow> LRPAuction" where
  "LRPAuction_Copy a = \<lparr>la_LRP = LRP_Copy (la_LRP a), la_Record = la_Record a\<rparr>"

record TaskAuction =
  ta_Task :: SchedulingTask
  ta_Record :: AuctionRecord

definition NewTaskAuction :: "SchedulingTask \<Rightarrow> int \<Rightarrow> TaskAuction" where
  "NewTaskAuction task now = \<lparr>ta_Task = task, ta_Record = NewAuctionRecord now\<rparr>"

definition TaskAuction_Copy :: "TaskAuction \<Rightarrow> TaskAuction" where
  "TaskAuction_Copy a = \<lparr>ta_Task = ta_Task a, ta_Record = ta_Record a\<rparr>"

text \<open>Both auctions embed their subject, so its identifier is theirs.\<close>

abbreviation la_id :: "LRPAuction \<Rightarrow> string" where
  "la_id a \<equiv> LRP_Identifier (la_LRP a)"

abbreviation ta_id :: "TaskAuction \<Rightarrow> string" where
  "ta_id a \<equiv> Task_Identifier (ta_Task a)"

record AuctionRequest =
  req_LRPs :: "LRPAuction list"
  req_Tasks :: "TaskAuction list"

record AuctionResults =
  SuccessfulLRPs :: "LRPAuction list"
  SuccessfulTasks :: "TaskAuction list"
  FailedLRPs :: "LRPAuction list"
  FailedTasks :: "TaskAuction list"

subsection \<open>The cell (auctionrunner/cell.go)\<close>

definition LocalityOffset :: int where
  "LocalityOffset = 1000"

text \<open>A rep client is named by a number; what its calls return is a parameter.\<close>

type_synonym client = nat

record Cell =
  cell_Guid :: string
  cell_client :: client
  cell_state :: CellState
  cell_Index :: int
  cell_workToCommit :: Work

definition NewCell :: "string \<Rightarrow> client \<Rightarrow> CellState \<Rightarrow> Cell" where
  "NewCell guid client state =
     \<lparr>cell_Guid = guid, cell_client = client, cell_state = state, cell_Index = cs_CellIndex state,
      cell_workToCommit = empty_work\<lparr>w_CellID := guid\<rparr>\<rparr>"

definition StartingContainerCount :: "Cell \<Rightarrow> int" where
  "StartingContainerCount c = cs_StartingContainerCount (cell_state c)"

definition proxiedLRP :: "Cell \<Rightarrow> SchedulingLRP \<Rightarrow> Resource" where
  "proxiedLRP c lrp =
     \<lparr>r_MemoryMB = i32 (r_MemoryMB (lrp_Resource lrp)
                        + i32 (cs_ProxyMemoryAllocationMB (cell_state c))),
      r_DiskMB = r_DiskMB (lrp_Resource lrp),
      r_MaxPids = r_MaxPids (lrp_Resource lrp)\<rparr>"

definition instances_on :: "string \<Rightarrow> SchedulingLRP list \<Rightarrow> nat" where
  "instances_on guid lrps = length (filter (\<lambda>l. key_ProcessGuid (lrp_Key l) = guid) lrps)"

definition ScoreForLRP ::
  "Cell \<Rightarrow> SchedulingLRP \<Rightarrow> float64 \<Rightarrow> float64 \<Rightarrow> string list + float64" where
  "ScoreForLRP c lrp startingContainerWeight binPackFirstFitWeight =
     (case CellState_ResourceMatch (cell_state c) (proxiedLRP c lrp) of
        Some problems \<Rightarrow> Inl problems
      | None \<Rightarrow>
          let numberOfInstancesWithMatchingProcessGuid =
                instances_on (key_ProcessGuid (lrp_Key lrp)) (cs_LRPs (cell_state c));
              localityScore = i64 (LocalityOffset * int numberOfInstancesWithMatchingProcessGuid);
              resourceScore = CellState_ComputeScore (cell_state c) (proxiedLRP c lrp)
                                startingContainerWeight;
              indexScore = f_mul (float_of_int (cell_Index c)) binPackFirstFitWeight
          in Inr (f_add (f_add resourceScore (float_of_int localityScore)) indexScore))"

definition ScoreForTask :: "Cell \<Rightarrow> SchedulingTask \<Rightarrow> float64 \<Rightarrow> string list + float64" where
  "ScoreForTask c task startingContainerWeight =
     (case CellState_ResourceMatch (cell_state c) (task_Resource task) of
        Some problems \<Rightarrow> Inl problems
      | None \<Rightarrow>
          let localityScore = i64 (LocalityOffset * int (length (cs_Tasks (cell_state c))));
              resourceScore = CellState_ComputeScore (cell_state c) (task_Resource task)
                                startingContainerWeight
          in Inr (f_add resourceScore (float_of_int localityScore)))"

definition ReserveLRP :: "Cell \<Rightarrow> SchedulingLRP \<Rightarrow> string list + Cell" where
  "ReserveLRP c lrp =
     (case CellState_ResourceMatch (cell_state c) (lrp_Resource lrp) of
        Some problems \<Rightarrow> Inl problems
      | None \<Rightarrow>
          let c1 = c\<lparr>cell_state := CellState_AddLRP (cell_state c) lrp\<rparr>
          in Inr (c1\<lparr>cell_workToCommit :=
                       (cell_workToCommit c1)\<lparr>w_LRPs := w_LRPs (cell_workToCommit c1) @ [lrp]\<rparr>\<rparr>))"

definition ReserveTask :: "Cell \<Rightarrow> SchedulingTask \<Rightarrow> string list + Cell" where
  "ReserveTask c task =
     (case CellState_ResourceMatch (cell_state c) (task_Resource task) of
        Some problems \<Rightarrow> Inl problems
      | None \<Rightarrow>
          let c1 = c\<lparr>cell_state := CellState_AddTask (cell_state c) task\<rparr>
          in Inr (c1\<lparr>cell_workToCommit :=
                       (cell_workToCommit c1)\<lparr>w_Tasks := w_Tasks (cell_workToCommit c1) @ [task]\<rparr>\<rparr>))"

definition Commit :: "(client \<Rightarrow> Work \<Rightarrow> Work option) \<Rightarrow> Cell \<Rightarrow> Work" where
  "Commit Perform c =
     (if length (w_LRPs (cell_workToCommit c)) = 0 \<and> length (w_Tasks (cell_workToCommit c)) = 0
      then empty_work
      else case Perform (cell_client c) (cell_workToCommit c) of
             None \<Rightarrow> empty_work
           | Some failedWork \<Rightarrow> failedWork)"

subsection \<open>The accounting of a cell\<close>

text \<open>
  A cell is accounted against the resources \<open>base\<close> it reported: what is available now and what
  its work to commit asks for add up to \<open>base\<close>, and nothing is overdrawn.
\<close>

definition work_resources :: "Work \<Rightarrow> Resource list" where
  "work_resources w = map lrp_Resource (w_LRPs w) @ map task_Resource (w_Tasks w)"

definition work_memory :: "Work \<Rightarrow> int" where
  "work_memory w = sum_list (map r_MemoryMB (work_resources w))"

definition work_disk :: "Work \<Rightarrow> int" where
  "work_disk w = sum_list (map r_DiskMB (work_resources w))"

definition work_size :: "Work \<Rightarrow> int" where
  "work_size w = int (length (w_LRPs w) + length (w_Tasks w))"

definition cell_accounted :: "Resources \<Rightarrow> Cell \<Rightarrow> bool" where
  "cell_accounted base c \<longleftrightarrow>
     Resources_typed (cs_AvailableResources (cell_state c))
     \<and> Resources_nonneg (cs_AvailableResources (cell_state c))
     \<and> rs_MemoryMB (cs_AvailableResources (cell_state c)) + work_memory (cell_workToCommit c)
         = rs_MemoryMB base
     \<and> rs_DiskMB (cs_AvailableResources (cell_state c)) + work_disk (cell_workToCommit c)
         = rs_DiskMB base
     \<and> rs_Containers (cs_AvailableResources (cell_state c)) + work_size (cell_workToCommit c)
         = rs_Containers base"

lemmas work_defs = work_resources_def work_memory_def work_disk_def work_size_def

lemma NewCell_accounted:
  "Resources_typed (cs_AvailableResources st) \<Longrightarrow> Resources_nonneg (cs_AvailableResources st) \<Longrightarrow>
     cell_accounted (cs_AvailableResources st) (NewCell guid cl st)"
  by (simp add: cell_accounted_def NewCell_def empty_work_def work_defs)

lemma cell_accounted_bounds:
  assumes "cell_accounted base c"
  shows "work_memory (cell_workToCommit c) \<le> rs_MemoryMB base"
    and "work_disk (cell_workToCommit c) \<le> rs_DiskMB base"
    and "work_size (cell_workToCommit c) \<le> rs_Containers base"
  using assms by (auto simp: cell_accounted_def Resources_nonneg_def)

subsection \<open>The contract of a reservation\<close>

locale reservation =
  fixes res :: "'a \<Rightarrow> Resource"
    and reserve :: "Cell \<Rightarrow> 'a \<Rightarrow> string list + Cell"
  assumes refused: "\<not> Resources_fits (cs_AvailableResources (cell_state c)) (res a) \<Longrightarrow>
      \<exists>ps. reserve c a = Inl ps \<and> ps \<noteq> []"
    and granted: "Resources_fits (cs_AvailableResources (cell_state c)) (res a) \<Longrightarrow>
      \<exists>c'. reserve c a = Inr c'
         \<and> cs_AvailableResources (cell_state c')
             = Resources_Subtract (cs_AvailableResources (cell_state c)) (res a)
         \<and> work_memory (cell_workToCommit c') = work_memory (cell_workToCommit c) + r_MemoryMB (res a)
         \<and> work_disk (cell_workToCommit c') = work_disk (cell_workToCommit c) + r_DiskMB (res a)
         \<and> work_size (cell_workToCommit c') = work_size (cell_workToCommit c) + 1"
begin

lemma reserve_Inr_iff:
  "(\<exists>c'. reserve c a = Inr c') \<longleftrightarrow> Resources_fits (cs_AvailableResources (cell_state c)) (res a)"
  using refused granted by (metis sum.distinct(1))

lemma reserve_accounted:
  assumes "cell_accounted base c" and "Resource_Valid (res a)" and "reserve c a = Inr c'"
  shows "cell_accounted base c'"
proof -
  have "Resources_fits (cs_AvailableResources (cell_state c)) (res a)"
    using assms(3) reserve_Inr_iff by metis
  with granted [of c a] Resources_Subtract_fits [of "cs_AvailableResources (cell_state c)" "res a"] assms
  show ?thesis by (auto simp: cell_accounted_def)
qed

lemma reserve_many_accounted:
  assumes "cell_accounted base c" and "\<forall>a \<in> set as. Resource_Valid (res a)"
  shows "cell_accounted base
           (fold (\<lambda>a c. case reserve c a of Inl _ \<Rightarrow> c | Inr c' \<Rightarrow> c') as c)"
  using assms by (induction as arbitrary: c) (auto split: sum.split intro: reserve_accounted)

end

lemma work_memory_add [simp]:
  "work_memory (w\<lparr>w_LRPs := w_LRPs w @ [l]\<rparr>) = work_memory w + r_MemoryMB (lrp_Resource l)"
  "work_memory (w\<lparr>w_Tasks := w_Tasks w @ [t]\<rparr>) = work_memory w + r_MemoryMB (task_Resource t)"
  by (simp_all add: work_defs)

lemma work_disk_add [simp]:
  "work_disk (w\<lparr>w_LRPs := w_LRPs w @ [l]\<rparr>) = work_disk w + r_DiskMB (lrp_Resource l)"
  "work_disk (w\<lparr>w_Tasks := w_Tasks w @ [t]\<rparr>) = work_disk w + r_DiskMB (task_Resource t)"
  by (simp_all add: work_defs)

lemma work_size_add [simp]:
  "work_size (w\<lparr>w_LRPs := w_LRPs w @ [l]\<rparr>) = work_size w + 1"
  "work_size (w\<lparr>w_Tasks := w_Tasks w @ [t]\<rparr>) = work_size w + 1"
  by (simp_all add: work_defs)

interpretation lrp_res: reservation lrp_Resource ReserveLRP
proof (unfold_locales, goal_cases)
  case (1 c a)
  then obtain ps where "CellState_ResourceMatch (cell_state c) (lrp_Resource a) = Some ps"
    using ResourceMatch_None_iff by (metis option.exhaust)
  then show ?case using ResourceMatch_Some_problems by (auto simp: ReserveLRP_def)
next
  case (2 c a)
  then have "CellState_ResourceMatch (cell_state c) (lrp_Resource a) = None"
    by (simp add: ResourceMatch_None_iff)
  then show ?case by (simp add: ReserveLRP_def CellState_AddLRP_def)
qed

interpretation task_res: reservation task_Resource ReserveTask
proof (unfold_locales, goal_cases)
  case (1 c a)
  then obtain ps where "CellState_ResourceMatch (cell_state c) (task_Resource a) = Some ps"
    using ResourceMatch_None_iff by (metis option.exhaust)
  then show ?case using ResourceMatch_Some_problems by (auto simp: ReserveTask_def)
next
  case (2 c a)
  then have "CellState_ResourceMatch (cell_state c) (task_Resource a) = None"
    by (simp add: ResourceMatch_None_iff)
  then show ?case by (simp add: ReserveTask_def CellState_AddTask_def)
qed

subsection \<open>What a reservation changes besides the accounting\<close>

lemma ReserveLRP_work:
  "ReserveLRP c lrp = Inr c' \<Longrightarrow>
     cell_Guid c' = cell_Guid c \<and> cell_client c' = cell_client c \<and> cell_Index c' = cell_Index c
     \<and> cell_workToCommit c' = (cell_workToCommit c)\<lparr>w_LRPs := w_LRPs (cell_workToCommit c) @ [lrp]\<rparr>
     \<and> cs_LRPs (cell_state c') = cs_LRPs (cell_state c) @ [lrp]"
  by (auto simp: ReserveLRP_def CellState_AddLRP_def Let_def split: option.splits)

lemma ReserveTask_work:
  "ReserveTask c t = Inr c' \<Longrightarrow>
     cell_Guid c' = cell_Guid c \<and> cell_client c' = cell_client c \<and> cell_Index c' = cell_Index c
     \<and> cell_workToCommit c' = (cell_workToCommit c)\<lparr>w_Tasks := w_Tasks (cell_workToCommit c) @ [t]\<rparr>
     \<and> cs_LRPs (cell_state c') = cs_LRPs (cell_state c)"
  by (auto simp: ReserveTask_def CellState_AddTask_def Let_def split: option.splits)

lemma ScoreForLRP_Inr_fits:
  "ScoreForLRP c lrp w b = Inr s \<Longrightarrow>
     Resources_fits (cs_AvailableResources (cell_state c)) (proxiedLRP c lrp)"
  by (auto simp: ScoreForLRP_def ResourceMatch_None_iff split: option.splits)

lemma ScoreForTask_Inr_fits:
  "ScoreForTask c t w = Inr s \<Longrightarrow>
     Resources_fits (cs_AvailableResources (cell_state c)) (task_Resource t)"
  by (auto simp: ScoreForTask_def ResourceMatch_None_iff split: option.splits)

end
