(* ===== verification/Auction_Zones.thy ===== *)
theory Auction_Zones
  imports Auction_Cell
begin

section \<open>Zones: building, filtering and sorting\<close>

text \<open>
  The zones of the auctioneer: \<open>Zone.filterCells\<close> of \<open>scheduler.go\<close>, \<open>zone_sorter.go\<close> and
  \<open>zone_builder.go\<close> of \<open>auction/auctionrunner\<close>. The cells of a zone are pointers, which the
  filtered and sorted copies of a zone share with the original, so a zone is a list of
  addresses and the cells live in a store. A Go map is an association list; its order is the
  order in which \<open>range\<close> happens to visit it, and no theorem depends on it.
\<close>

type_synonym ptr = nat
type_synonym cell_store = "ptr \<Rightarrow> Cell"
type_synonym Zone = "ptr list"
type_synonym zones = "(string \<times> Zone) list"

subsection \<open>Filtering the cells of a zone (scheduler.go)\<close>

definition MatchRootFS :: "Cell \<Rightarrow> string \<Rightarrow> bool" where
  "MatchRootFS c rootFS = CellState_MatchRootFS (cell_state c) rootFS"

definition MatchVolumeDrivers :: "Cell \<Rightarrow> string list \<Rightarrow> bool" where
  "MatchVolumeDrivers c volumeDrivers = CellState_MatchVolumeDrivers (cell_state c) volumeDrivers"

definition MatchPlacementTags :: "Cell \<Rightarrow> string list \<Rightarrow> bool" where
  "MatchPlacementTags c placementTags = CellState_MatchPlacementTags (cell_state c) placementTags"

definition filterCells_step ::
  "cell_store \<Rightarrow> PlacementConstraint \<Rightarrow> ptr \<Rightarrow> ptr list \<times> auction_error option
     \<Rightarrow> ptr list \<times> auction_error option" where
  "filterCells_step st pc cell acc =
     (let (cells, err) = acc in
      if MatchRootFS (st cell) (pc_RootFs pc) then
        let err1 = (if err = Some ErrorCellMismatch then Some ErrorVolumeDriverMismatch else err) in
        if MatchVolumeDrivers (st cell) (pc_VolumeDrivers pc) then
          let err2 = (if err1 = Some ErrorVolumeDriverMismatch
                      then Some (PlacementTagMismatchError (pc_PlacementTags pc)) else err1) in
          if MatchPlacementTags (st cell) (pc_PlacementTags pc) then (cells @ [cell], None)
          else (cells, err2)
        else (cells, err1)
      else (cells, err))"

definition filterCells ::
  "cell_store \<Rightarrow> Zone \<Rightarrow> PlacementConstraint \<Rightarrow> ptr list \<times> auction_error option" where
  "filterCells st z pc = fold (filterCells_step st pc) z ([], Some ErrorCellMismatch)"

text \<open>What a cell satisfies of a constraint, and what the reported error has to say.\<close>

definition cell_matches :: "PlacementConstraint \<Rightarrow> Cell \<Rightarrow> bool" where
  "cell_matches pc c \<longleftrightarrow> MatchRootFS c (pc_RootFs pc) \<and> MatchVolumeDrivers c (pc_VolumeDrivers pc)
     \<and> MatchPlacementTags c (pc_PlacementTags pc)"

definition mismatch_of :: "cell_store \<Rightarrow> Zone \<Rightarrow> PlacementConstraint \<Rightarrow> auction_error option" where
  "mismatch_of st z pc =
     (if \<exists>p \<in> set z. cell_matches pc (st p) then None
      else if \<exists>p \<in> set z. MatchRootFS (st p) (pc_RootFs pc) \<and> MatchVolumeDrivers (st p) (pc_VolumeDrivers pc)
        then Some (PlacementTagMismatchError (pc_PlacementTags pc))
      else if \<exists>p \<in> set z. MatchRootFS (st p) (pc_RootFs pc) then Some ErrorVolumeDriverMismatch
      else Some ErrorCellMismatch)"

lemma filterCells_snoc:
  "filterCells st (z @ [p]) pc = filterCells_step st pc p (filterCells st z pc)"
  by (simp add: filterCells_def)

lemma filterCells_eq:
  "filterCells st z pc = (filter (\<lambda>p. cell_matches pc (st p)) z, mismatch_of st z pc)"
proof (induction z rule: rev_induct)
  case Nil
  then show ?case by (simp add: filterCells_def mismatch_of_def)
next
  case (snoc p z)
  define a b c where "a p = MatchRootFS (st p) (pc_RootFs pc)"
    and "b p = MatchVolumeDrivers (st p) (pc_VolumeDrivers pc)"
    and "c p = MatchPlacementTags (st p) (pc_PlacementTags pc)" for p
  define E1 E2 E3 where "E1 = (\<exists>p \<in> set z. a p)" and "E2 = (\<exists>p \<in> set z. a p \<and> b p)"
    and "E3 = (\<exists>p \<in> set z. a p \<and> b p \<and> c p)"
  have imp: "E3 \<Longrightarrow> E2" "E2 \<Longrightarrow> E1" by (auto simp: E1_def E2_def E3_def)
  have m: "cell_matches pc (st q) = (a q \<and> b q \<and> c q)" for q
    by (simp add: cell_matches_def a_def b_def c_def)
  have old: "mismatch_of st z pc =
      (if E3 then None else if E2 then Some (PlacementTagMismatchError (pc_PlacementTags pc))
       else if E1 then Some ErrorVolumeDriverMismatch else Some ErrorCellMismatch)"
    by (simp only: mismatch_of_def m E1_def E2_def E3_def a_def [symmetric] b_def [symmetric])
  have new: "mismatch_of st (z @ [p]) pc =
      (if (a p \<and> b p \<and> c p) \<or> E3 then None
       else if (a p \<and> b p) \<or> E2 then Some (PlacementTagMismatchError (pc_PlacementTags pc))
       else if a p \<or> E1 then Some ErrorVolumeDriverMismatch else Some ErrorCellMismatch)"
  proof -
    have "(\<exists>q \<in> set (z @ [p]). a q \<and> b q \<and> c q) = ((a p \<and> b p \<and> c p) \<or> E3)"
      "(\<exists>q \<in> set (z @ [p]). a q \<and> b q) = ((a p \<and> b p) \<or> E2)"
      "(\<exists>q \<in> set (z @ [p]). a q) = (a p \<or> E1)"
      by (auto simp: E1_def E2_def E3_def)
    then show ?thesis
      by (simp only: mismatch_of_def m a_def [symmetric] b_def [symmetric])
  qed
  have "filterCells_step st pc p (filter (\<lambda>p. cell_matches pc (st p)) z, mismatch_of st z pc)
      = (filter (\<lambda>p. cell_matches pc (st p)) (z @ [p]), mismatch_of st (z @ [p]) pc)"
    unfolding filterCells_step_def old new m a_def [symmetric] b_def [symmetric] c_def [symmetric]
    using imp by (cases "a p"; cases "b p"; cases "c p"; cases E3; cases E2; cases E1) simp_all
  then show ?case by (simp only: filterCells_snoc snoc.IH)
qed

lemma filterCells_None_iff:
  "snd (filterCells st z pc) = None \<longleftrightarrow> fst (filterCells st z pc) \<noteq> []"
  by (auto simp: filterCells_eq mismatch_of_def filter_empty_conv)

subsection \<open>Counting and sorting (zone\_sorter.go)\<close>

record lrpByZone =
  lz_zone :: Zone
  lz_instances :: int

definition zone_instances :: "cell_store \<Rightarrow> string \<Rightarrow> Zone \<Rightarrow> nat" where
  "zone_instances st processGuid z =
     sum_list (map (\<lambda>p. instances_on processGuid (cs_LRPs (cell_state (st p)))) z)"

definition accumulateZonesByInstances :: "cell_store \<Rightarrow> zones \<Rightarrow> string \<Rightarrow> lrpByZone list" where
  "accumulateZonesByInstances st zs processGuid =
     map (\<lambda>(_, z). \<lparr>lz_zone = z, lz_instances = int (zone_instances st processGuid z)\<rparr>) zs"

definition lrpByZone_Less :: "lrpByZone \<Rightarrow> lrpByZone \<Rightarrow> bool" where
  "lrpByZone_Less a b \<longleftrightarrow> lz_instances a < lz_instances b"

definition sortZonesByInstances :: "lrpByZone list \<Rightarrow> lrpByZone list" where
  "sortZonesByInstances zs = go_sort lrpByZone_Less zs"

text \<open>The error that several failing zones report together.\<close>

definition is_PlacementTagMismatchError :: "auction_error option \<Rightarrow> bool" where
  "is_PlacementTagMismatchError e = (case e of Some (PlacementTagMismatchError _) \<Rightarrow> True | _ \<Rightarrow> False)"

definition zoneError_update :: "auction_error option \<Rightarrow> auction_error option \<Rightarrow> auction_error option" where
  "zoneError_update zoneError err =
     (if is_PlacementTagMismatchError zoneError
         \<or> (zoneError = Some ErrorVolumeDriverMismatch \<and> is_PlacementTagMismatchError err)
         \<or> zoneError = Some ErrorCellMismatch \<or> zoneError = None
      then err else zoneError)"

definition filterZones_step ::
  "cell_store \<Rightarrow> PlacementConstraint \<Rightarrow> lrpByZone \<Rightarrow> lrpByZone list \<times> auction_error option
     \<Rightarrow> lrpByZone list \<times> auction_error option" where
  "filterZones_step st pc lz acc =
     (let (filteredZones, zoneError) = acc;
          (cells, err) = filterCells st (lz_zone lz) pc
      in if err \<noteq> None then (filteredZones, zoneError_update zoneError err)
         else (filteredZones @ [\<lparr>lz_zone = cells, lz_instances = lz_instances lz\<rparr>], zoneError))"

text \<open>The second component is the error; on an error the slice is \<open>nil\<close>.\<close>

definition filterZones ::
  "cell_store \<Rightarrow> lrpByZone list \<Rightarrow> LRPAuction \<Rightarrow> lrpByZone list \<times> auction_error option" where
  "filterZones st zs lrpAuction =
     (let (filteredZones, zoneError) =
            fold (filterZones_step st (lrp_Constraint (la_LRP lrpAuction))) zs ([], None)
      in if length filteredZones = 0 then ([], zoneError) else (filteredZones, None))"

lemma fold_filterZones_step_fst:
  "fst (fold (filterZones_step st pc) zs (acc, e)) =
     acc @ map (\<lambda>lz. lz\<lparr>lz_zone := filter (\<lambda>p. cell_matches pc (st p)) (lz_zone lz)\<rparr>)
             (filter (\<lambda>lz. \<exists>p \<in> set (lz_zone lz). cell_matches pc (st p)) zs)"
  by (induction zs arbitrary: acc e)
     (auto simp: filterZones_step_def filterCells_eq mismatch_of_def)

lemma filterZones_fst:
  "fst (filterZones st zs a) =
     map (\<lambda>lz. lz\<lparr>lz_zone := filter (\<lambda>p. cell_matches (lrp_Constraint (la_LRP a)) (st p)) (lz_zone lz)\<rparr>)
       (filter (\<lambda>lz. \<exists>p \<in> set (lz_zone lz). cell_matches (lrp_Constraint (la_LRP a)) (st p)) zs)"
proof -
  obtain fz ze where 1: "fold (filterZones_step st (lrp_Constraint (la_LRP a))) zs ([], None) = (fz, ze)"
    by fastforce
  then show ?thesis
    using fold_filterZones_step_fst [of st "lrp_Constraint (la_LRP a)" zs "[]" None]
    by (auto simp: filterZones_def)
qed

lemma mismatch_of_Some:
  "mismatch_of st z pc = Some e \<Longrightarrow>
     e \<in> {ErrorCellMismatch, ErrorVolumeDriverMismatch, PlacementTagMismatchError (pc_PlacementTags pc)}"
  by (auto simp: mismatch_of_def split: if_splits)

lemma fold_filterZones_step_snd:
  "zs \<noteq> [] \<Longrightarrow> \<forall>lz \<in> set zs. \<forall>p \<in> set (lz_zone lz). \<not> cell_matches pc (st p) \<Longrightarrow>
     snd (fold (filterZones_step st pc) zs (acc, e)) \<noteq> None"
proof (induction zs arbitrary: acc e rule: rev_induct)
  case (snoc lz zs)
  have m: "mismatch_of st (lz_zone lz) pc \<noteq> None"
    using snoc.prems by (auto simp: mismatch_of_def)
  obtain fz ze where 1: "fold (filterZones_step st pc) zs (acc, e) = (fz, ze)"
    by fastforce
  have "snd (filterZones_step st pc lz (fz, ze)) \<noteq> None"
    using m by (auto simp: filterZones_step_def filterCells_eq zoneError_update_def)
  then show ?case using 1 by simp
qed simp

lemma filterZones_snd_None:
  "zs \<noteq> [] \<Longrightarrow> snd (filterZones st zs a) = None \<longleftrightarrow>
     (\<exists>lz \<in> set zs. \<exists>p \<in> set (lz_zone lz). cell_matches (lrp_Constraint (la_LRP a)) (st p))"
  using fold_filterZones_step_fst [of st "lrp_Constraint (la_LRP a)" zs "[]" None]
    fold_filterZones_step_snd [of zs "lrp_Constraint (la_LRP a)" st "[]" None]
  by (auto simp: filterZones_def Let_def case_prod_beta filter_empty_conv)

lemma zoneError_update_range:
  "zoneError_update a b \<in> {a, b}"
  by (simp add: zoneError_update_def)

interpretation zone_order: strict_weak_order lrpByZone_Less
  by unfold_locales (auto simp: lrpByZone_Less_def)

lemma sortZonesByInstances_sorted:
  "sorted_wrt (\<lambda>a b. lz_instances a \<le> lz_instances b) (sortZonesByInstances zs)"
  using zone_order.sorted_go_sort [of zs]
  by (simp add: sortZonesByInstances_def lrpByZone_Less_def not_less)

subsection \<open>Fetching the states (zone\_builder.go)\<close>

record zone_builder =
  zb_cells :: "Cell list"
  zb_zones :: zones
  zb_failedRequests :: nat

text \<open>
  The work items of the pool finish in some order, the order of the list of clients. The
  address of a cell is its position among the cells built so far.
\<close>

definition fetchState_step ::
  "(client \<Rightarrow> CellState option) \<Rightarrow> string \<times> client \<Rightarrow> zone_builder \<Rightarrow> zone_builder" where
  "fetchState_step State gc b =
     (let (guid, client) = gc in
      case State client of
        None \<Rightarrow> b\<lparr>zb_failedRequests := zb_failedRequests b + 1\<rparr>
      | Some state \<Rightarrow>
          if cs_Evacuating state then b
          else if cs_CellID state \<noteq> [] \<and> cs_CellID state \<noteq> guid then b
          else
            let zone = (case map_of (zb_zones b) (cs_Zone state) of None \<Rightarrow> [] | Some z \<Rightarrow> z)
            in b\<lparr>zb_cells := zb_cells b @ [NewCell guid client state],
                 zb_zones := AList.update (cs_Zone state) (zone @ [length (zb_cells b)]) (zb_zones b)\<rparr>)"

definition fetchStates :: "(client \<Rightarrow> CellState option) \<Rightarrow> (string \<times> client) list \<Rightarrow> zone_builder" where
  "fetchStates State clients =
     fold (fetchState_step State) clients \<lparr>zb_cells = [], zb_zones = [], zb_failedRequests = 0\<rparr>"

definition MinBinPackFirstFitWeight :: float64 where
  "MinBinPackFirstFitWeight = Fin 0"

definition isBinPackFirstFitWeightProvided :: "float64 \<Rightarrow> bool" where
  "isBinPackFirstFitWeightProvided w = f_less MinBinPackFirstFitWeight w"

definition Zone_Less :: "cell_store \<Rightarrow> ptr \<Rightarrow> ptr \<Rightarrow> bool" where
  "Zone_Less st p q \<longleftrightarrow> cs_CellIndex (cell_state (st p)) < cs_CellIndex (cell_state (st q))"

fun assign_indices :: "int \<Rightarrow> Zone \<Rightarrow> cell_store \<Rightarrow> cell_store" where
  "assign_indices i [] st = st"
| "assign_indices i (p # ps) st = assign_indices (i + 1) ps (st(p := (st p)\<lparr>cell_Index := i\<rparr>))"

fun normaliseCellIndices :: "zones \<Rightarrow> cell_store \<Rightarrow> zones \<times> cell_store" where
  "normaliseCellIndices [] st = ([], st)"
| "normaliseCellIndices ((name, z) # zs) st =
     (let z' = go_sort (Zone_Less st) z;
          (zs', st') = normaliseCellIndices zs (assign_indices 0 z' st)
      in ((name, z') # zs', st'))"

definition fetchStateAndBuildZones ::
  "(client \<Rightarrow> CellState option) \<Rightarrow> (string \<times> client) list \<Rightarrow> float64 \<Rightarrow> zones \<times> cell_store" where
  "fetchStateAndBuildZones State clients binPackFirstFitWeight =
     (let b = fetchStates State clients; st = (\<lambda>p. zb_cells b ! p)
      in if isBinPackFirstFitWeightProvided binPackFirstFitWeight
         then normaliseCellIndices (zb_zones b) st
         else (zb_zones b, st))"

text \<open>
  The loop over the attempts: attempt \<open>i\<close> is the last one when \<open>i = 3\<close>. The reps may answer
  differently every time, and each attempt visits the clients in an order of its own.
\<close>

fun fetch_attempts ::
  "nat \<Rightarrow> (nat \<Rightarrow> client \<Rightarrow> CellState option) \<Rightarrow> (nat \<Rightarrow> (string \<times> client) list) \<Rightarrow> float64 \<Rightarrow> nat
     \<Rightarrow> zones \<times> cell_store" where
  "fetch_attempts 0 State clients w i = fetchStateAndBuildZones (State i) (clients i) w"
| "fetch_attempts (Suc left) State clients w i =
     (let (zs, st) = fetchStateAndBuildZones (State i) (clients i) w
      in if length zs > 0 then (zs, st) else fetch_attempts left State clients w (i + 1))"

definition FetchStateAndBuildZones ::
  "(nat \<Rightarrow> client \<Rightarrow> CellState option) \<Rightarrow> (nat \<Rightarrow> (string \<times> client) list) \<Rightarrow> float64 \<Rightarrow> zones \<times> cell_store" where
  "FetchStateAndBuildZones State clients w = fetch_attempts 3 State clients w 0"

subsection \<open>What the builder guarantees\<close>

definition accepted_cell ::
  "(client \<Rightarrow> CellState option) \<Rightarrow> string \<times> client \<Rightarrow> Cell option" where
  "accepted_cell State gc =
     (case State (snd gc) of
        None \<Rightarrow> None
      | Some state \<Rightarrow>
          if cs_Evacuating state \<or> (cs_CellID state \<noteq> [] \<and> cs_CellID state \<noteq> fst gc) then None
          else Some (NewCell (fst gc) (snd gc) state))"

lemma accepted_cell_idle:
  "accepted_cell State gc = Some c \<Longrightarrow>
     w_LRPs (cell_workToCommit c) = [] \<and> w_Tasks (cell_workToCommit c) = []"
  by (auto simp: accepted_cell_def NewCell_def empty_work_def split: option.splits if_splits)

abbreviation zone_ptrs :: "zones \<Rightarrow> ptr list" where
  "zone_ptrs zs \<equiv> concat (map snd zs)"

lemma mset_update_append:
  "mset (zone_ptrs (AList.update k ((case map_of zs k of None \<Rightarrow> [] | Some z \<Rightarrow> z) @ [n]) zs))
     = add_mset n (mset (zone_ptrs zs))"
  by (induction zs) auto

lemma set_update_append:
  "(name, z) \<in> set (AList.update k ((case map_of zs k of None \<Rightarrow> [] | Some z \<Rightarrow> z) @ [n]) zs) \<Longrightarrow>
     (name, z) \<in> set zs \<or> (name = k \<and> (\<exists>z0. z = z0 @ [n] \<and> (z0 = [] \<or> (k, z0) \<in> set zs)))"
  by (induction zs) (auto split: if_splits option.splits)

lemma fetchState_step_cases:
  obtains (skipped) "accepted_cell State gc = None"
      "zb_cells (fetchState_step State gc b) = zb_cells b"
      "zb_zones (fetchState_step State gc b) = zb_zones b"
  | (built) c where "accepted_cell State gc = Some c"
      "zb_cells (fetchState_step State gc b) = zb_cells b @ [c]"
      "zb_zones (fetchState_step State gc b) =
         AList.update (cs_Zone (cell_state c))
           ((case map_of (zb_zones b) (cs_Zone (cell_state c)) of None \<Rightarrow> [] | Some z \<Rightarrow> z)
            @ [length (zb_cells b)]) (zb_zones b)"
proof (cases "accepted_cell State gc")
  case None
  obtain guid cl where gc: "gc = (guid, cl)" by fastforce
  have "zb_cells (fetchState_step State gc b) = zb_cells b
      \<and> zb_zones (fetchState_step State gc b) = zb_zones b"
    using None by (cases "State cl") (auto simp add: gc fetchState_step_def accepted_cell_def split: if_splits)
  with None show ?thesis using skipped by blast
next
  case (Some c)
  obtain guid cl where gc: "gc = (guid, cl)" by fastforce
  obtain state where state: "State cl = Some state"
    using Some by (cases "State cl") (simp_all add: gc accepted_cell_def)
  have ok: "\<not> cs_Evacuating state" "\<not> (cs_CellID state \<noteq> [] \<and> cs_CellID state \<noteq> guid)"
    and c: "c = NewCell guid cl state"
    using Some by (simp_all add: gc state accepted_cell_def split: if_splits)
  have cs: "cell_state c = state" by (simp add: c NewCell_def)
  have step: "fetchState_step State gc b =
      b\<lparr>zb_cells := zb_cells b @ [c],
        zb_zones := AList.update (cs_Zone state)
          ((case map_of (zb_zones b) (cs_Zone state) of None \<Rightarrow> [] | Some z \<Rightarrow> z)
           @ [length (zb_cells b)]) (zb_zones b)\<rparr>"
    unfolding fetchState_step_def gc c Let_def prod.case state option.case if_not_P [OF ok(1)] if_not_P [OF ok(2)]
    by (rule refl)
  show ?thesis by (rule built [OF Some]) (simp_all add: step cs)
qed

definition zones_in_place :: "(ptr \<Rightarrow> Cell) \<Rightarrow> zones \<Rightarrow> bool" where
  "zones_in_place st zs \<longleftrightarrow>
     (\<forall>(name, z) \<in> set zs. z \<noteq> [] \<and> (\<forall>p \<in> set z. cs_Zone (cell_state (st p)) = name))"

lemma fetchStates_snoc:
  "fetchStates State (cs @ [gc]) = fetchState_step State gc (fetchStates State cs)"
  by (simp add: fetchStates_def)

lemma fetchStates_cells:
  "zb_cells (fetchStates State clients) = List.map_filter (accepted_cell State) clients"
proof (induction clients rule: rev_induct)
  case (snoc gc cs)
  show ?case
    by (rule fetchState_step_cases [of State gc "fetchStates State cs"])
       (simp_all add: fetchStates_snoc snoc map_filter_def)
qed (simp add: fetchStates_def map_filter_def)

lemma fetchStates_ptrs:
  "mset (zone_ptrs (zb_zones (fetchStates State clients)))
     = mset [0..<length (zb_cells (fetchStates State clients))]"
proof (induction clients rule: rev_induct)
  case (snoc gc cs)
  show ?case
    by (rule fetchState_step_cases [of State gc "fetchStates State cs"])
       (simp_all add: fetchStates_snoc snoc mset_update_append del: mset_upt)
qed (simp add: fetchStates_def)

lemma fetchStates_in_place:
  "zones_in_place (\<lambda>p. zb_cells (fetchStates State clients) ! p) (zb_zones (fetchStates State clients))"
proof (induction clients rule: rev_induct)
  case (snoc gc cs)
  let ?b = "fetchStates State cs"
  have lt: "p < length (zb_cells ?b)" if "(name, z) \<in> set (zb_zones ?b)" "p \<in> set z" for name z p
  proof -
    have "p \<in> set_mset (mset (zone_ptrs (zb_zones ?b)))"
      using that by (force simp del: set_mset_mset simp: set_mset_mset)
    then show ?thesis unfolding fetchStates_ptrs by simp
  qed
  show ?case
  proof (rule fetchState_step_cases [of State gc ?b])
    fix c
    assume c: "zb_cells (fetchState_step State gc ?b) = zb_cells ?b @ [c]"
      and z: "zb_zones (fetchState_step State gc ?b) =
         AList.update (cs_Zone (cell_state c))
           ((case map_of (zb_zones ?b) (cs_Zone (cell_state c)) of None \<Rightarrow> [] | Some z \<Rightarrow> z)
            @ [length (zb_cells ?b)]) (zb_zones ?b)"
    show ?thesis
      unfolding fetchStates_snoc c z zones_in_place_def
      using snoc lt by (fastforce dest!: set_update_append simp: zones_in_place_def nth_append)
  qed (use snoc in \<open>simp_all add: fetchStates_snoc\<close>)
qed (simp add: fetchStates_def zones_in_place_def)

lemma assign_indices_other [simp]:
  "p \<notin> set ps \<Longrightarrow> assign_indices i ps st p = st p"
  by (induction ps arbitrary: i st) auto

lemma assign_indices_nth:
  "distinct ps \<Longrightarrow> j < length ps \<Longrightarrow>
     assign_indices i ps st (ps ! j) = (st (ps ! j))\<lparr>cell_Index := i + int j\<rparr>"
proof (induction ps arbitrary: i j st)
  case (Cons q qs)
  then show ?case by (cases j) (auto simp: algebra_simps)
qed simp

lemma assign_indices_only_index:
  "\<exists>n. assign_indices i ps st p = (st p)\<lparr>cell_Index := n\<rparr>"
proof (induction ps arbitrary: i st)
  case Nil
  show ?case by (rule exI [of _ "cell_Index (st p)"]) simp
next
  case (Cons q qs)
  show ?case
    using Cons [of "i + 1" "st(q := (st q)\<lparr>cell_Index := i\<rparr>)"] by (cases "p = q") (simp_all add: fun_upd_def)
qed

interpretation cell_order: strict_weak_order "Zone_Less st" for st
  by unfold_locales (auto simp: Zone_Less_def)

lemma normaliseCellIndices_only_index:
  "normaliseCellIndices zs st = (zs', st') \<Longrightarrow> \<exists>n. st' p = (st p)\<lparr>cell_Index := n\<rparr>"
proof (induction zs arbitrary: zs' st)
  case Nil
  then show ?case by (auto intro: exI [of _ "cell_Index (st p)"])
next
  case (Cons nz zs)
  obtain name z where nz: "nz = (name, z)" by fastforce
  let ?st1 = "assign_indices 0 (go_sort (Zone_Less st) z) st"
  obtain zs1 where 1: "normaliseCellIndices zs ?st1 = (zs1, st')"
    using Cons.prems by (auto simp: nz Let_def split: prod.splits)
  show ?case
    using Cons.IH [OF 1] assign_indices_only_index [of 0 "go_sort (Zone_Less st) z" st p] by auto
qed

lemma normaliseCellIndices_perm:
  "normaliseCellIndices zs st = (zs', st') \<Longrightarrow>
     list_all2 (\<lambda>(n, z) (n', z'). n' = n \<and> mset z' = mset z) zs zs'"
  by (induction zs arbitrary: zs' st) (auto simp: Let_def perm_simps split: prod.splits)

lemma normaliseCellIndices_ptrs:
  "list_all2 (\<lambda>(n, z) (n', z'). n' = n \<and> mset z' = mset z) zs zs' \<Longrightarrow>
     mset (zone_ptrs zs') = mset (zone_ptrs zs)"
  by (induction zs zs' rule: list_all2_induct) auto

lemma normaliseCellIndices_outside:
  "normaliseCellIndices zs st = (zs', st') \<Longrightarrow> p \<notin> set (zone_ptrs zs) \<Longrightarrow> st' p = st p"
  by (induction zs arbitrary: zs' st) (auto simp: Let_def split: prod.splits)

definition zone_normalised :: "cell_store \<Rightarrow> Zone \<Rightarrow> bool" where
  "zone_normalised st z \<longleftrightarrow>
     (\<forall>j < length z. cell_Index (st (z ! j)) = int j)
     \<and> sorted_wrt (\<lambda>p q. cs_CellIndex (cell_state (st p)) \<le> cs_CellIndex (cell_state (st q))) z"

lemma normaliseCellIndices_normalised:
  "normaliseCellIndices zs st = (zs', st') \<Longrightarrow> distinct (zone_ptrs zs) \<Longrightarrow>
     \<forall>(name, z) \<in> set zs'. zone_normalised st' z"
proof (induction zs arbitrary: zs' st)
  case (Cons nz zs)
  obtain name z where nz: "nz = (name, z)" by fastforce
  let ?z = "go_sort (Zone_Less st) z"
  let ?st1 = "assign_indices 0 ?z st"
  obtain zs1 where 1: "normaliseCellIndices zs ?st1 = (zs1, st')" and zs': "zs' = (name, ?z) # zs1"
    using Cons.prems by (auto simp: nz Let_def split: prod.splits)
  have d: "distinct ?z" "set ?z \<inter> set (zone_ptrs zs) = {}" "distinct (zone_ptrs zs)"
    using Cons.prems(2) mset_eq_imp_distinct_iff [OF mset_go_sort [of "Zone_Less st" z]] by (auto simp: nz)
  have st': "st' p = ?st1 p" if "p \<in> set ?z" for p
    using normaliseCellIndices_outside [OF 1, of p] d(2) that by blast
  have "cell_Index (st' (?z ! j)) = int j" if "j < length ?z" for j
    using st' [OF nth_mem [OF that]] assign_indices_nth [OF d(1) that, of 0 st] by simp
  moreover have "cell_state (st' p) = cell_state (st p)" for p
    using normaliseCellIndices_only_index [OF Cons.prems(1), of p] by auto
  ultimately have "zone_normalised st' ?z"
    using cell_order.sorted_go_sort [of st z] by (simp add: zone_normalised_def Zone_Less_def not_less)
  then show ?case using Cons.IH [OF 1 d(3)] by (simp add: zs')
qed simp

text \<open>The facts about the zones of one fetch that the scheduler relies on.\<close>

lemma zones_in_place_cong:
  "list_all2 (\<lambda>(n, z) (n', z'). n' = n \<and> mset z' = mset z) zs zs' \<Longrightarrow> zones_in_place st zs \<Longrightarrow>
     (\<And>p. cell_state (st' p) = cell_state (st p)) \<Longrightarrow> zones_in_place st' zs'"
proof (induction zs zs' rule: list_all2_induct)
  case (Cons nz zs nz' zs')
  obtain n z n' z' where [simp]: "nz = (n, z)" "nz' = (n', z')" by fastforce
  have "set z' = set z" "n' = n" "z' = [] \<longleftrightarrow> z = []"
    using Cons.hyps(1) by (auto dest: mset_eq_setD)
  then show ?case using Cons.IH Cons.prems by (auto simp: zones_in_place_def)
qed (simp add: zones_in_place_def)

lemma fetchStateAndBuildZones_facts:
  assumes "fetchStateAndBuildZones State clients w = (zs, st)"
  shows "distinct (zone_ptrs zs)"
    and "mset (map (\<lambda>p. (st p)\<lparr>cell_Index := 0\<rparr>) (zone_ptrs zs))
           = mset (map (\<lambda>c. c\<lparr>cell_Index := 0\<rparr>) (List.map_filter (accepted_cell State) clients))"
    and "zones_in_place st zs"
    and "isBinPackFirstFitWeightProvided w \<Longrightarrow> \<forall>(name, z) \<in> set zs. zone_normalised st z"
proof -
  let ?b = "fetchStates State clients" and ?st = "\<lambda>p. zb_cells (fetchStates State clients) ! p"
  let ?un = "\<lambda>c::Cell. c\<lparr>cell_Index := 0\<rparr>"
  have d: "distinct (zone_ptrs (zb_zones ?b))"
    using fetchStates_ptrs [of State clients] mset_eq_imp_distinct_iff by fastforce
  have m: "mset (map (\<lambda>p. ?un (?st p)) (zone_ptrs (zb_zones ?b)))
      = mset (map ?un (List.map_filter (accepted_cell State) clients))"
  proof -
    have "mset (map (\<lambda>p. ?un (?st p)) (zone_ptrs (zb_zones ?b)))
        = image_mset (\<lambda>p. ?un (?st p)) (mset [0..<length (zb_cells ?b)])"
      by (simp only: mset_map fetchStates_ptrs)
    also have "\<dots> = mset (map ?un (map ?st [0..<length (zb_cells ?b)]))"
      by (simp only: mset_map multiset.map_comp comp_def)
    also have "map ?st [0..<length (zb_cells ?b)] = zb_cells ?b"
      by (rule map_nth)
    finally show ?thesis by (simp only: fetchStates_cells)
  qed
  consider (plain) "\<not> isBinPackFirstFitWeightProvided w" "zs = zb_zones ?b" "st = ?st"
    | (packed) "isBinPackFirstFitWeightProvided w" "normaliseCellIndices (zb_zones ?b) ?st = (zs, st)"
    using assms by (auto simp: fetchStateAndBuildZones_def Let_def split: if_splits)
  then have "distinct (zone_ptrs zs)
      \<and> mset (map (\<lambda>p. ?un (st p)) (zone_ptrs zs)) = mset (map ?un (List.map_filter (accepted_cell State) clients))
      \<and> zones_in_place st zs
      \<and> (isBinPackFirstFitWeightProvided w \<longrightarrow> (\<forall>(name, z) \<in> set zs. zone_normalised st z))"
  proof cases
    case plain
    then show ?thesis using d m fetchStates_in_place by simp
  next
    case packed
    note perm = normaliseCellIndices_perm [OF packed(2)]
    note ptrs = normaliseCellIndices_ptrs [OF perm]
    have un: "?un (st p) = ?un (?st p)" "cell_state (st p) = cell_state (?st p)" for p
      using normaliseCellIndices_only_index [OF packed(2), of p] by auto
    have "mset (map (\<lambda>p. ?un (st p)) (zone_ptrs zs)) = mset (map (\<lambda>p. ?un (?st p)) (zone_ptrs (zb_zones ?b)))"
      by (simp only: un mset_map ptrs)
    then show ?thesis
      using d m mset_eq_imp_distinct_iff [OF ptrs] zones_in_place_cong [OF perm fetchStates_in_place un(2)]
        normaliseCellIndices_normalised [OF packed(2) d] by simp
  qed
  then show "distinct (zone_ptrs zs)"
    and "mset (map (\<lambda>p. ?un (st p)) (zone_ptrs zs))
           = mset (map ?un (List.map_filter (accepted_cell State) clients))"
    and "zones_in_place st zs"
    and "isBinPackFirstFitWeightProvided w \<Longrightarrow> \<forall>(name, z) \<in> set zs. zone_normalised st z"
    by blast+
qed

text \<open>The attempts stop at the first one that reaches a cell.\<close>

lemma fetch_attempts_first:
  "\<exists>i \<le> k. fetch_attempts k State clients w n = fetchStateAndBuildZones (State (n + i)) (clients (n + i)) w
     \<and> (\<forall>j < i. fst (fetchStateAndBuildZones (State (n + j)) (clients (n + j)) w) = [])
     \<and> (fst (fetchStateAndBuildZones (State (n + i)) (clients (n + i)) w) \<noteq> [] \<or> i = k)"
proof (induction k arbitrary: n)
  case (Suc k)
  let ?f = "\<lambda>i. fetchStateAndBuildZones (State i) (clients i) w"
  show ?case
  proof (cases "fst (?f n) = []")
    case True
    then have step: "fetch_attempts (Suc k) State clients w n = fetch_attempts k State clients w (n + 1)"
      by (simp add: case_prod_beta)
    obtain i where i: "i \<le> k" "fetch_attempts k State clients w (n + 1) = ?f (n + 1 + i)"
      "\<forall>j < i. fst (?f (n + 1 + j)) = []" "fst (?f (n + 1 + i)) \<noteq> [] \<or> i = k"
      using Suc [of "n + 1"] by blast
    have "fst (?f (n + j)) = []" if "j < Suc i" for j
      using that True i(3) by (cases j) auto
    then show ?thesis using i step by (intro exI [of _ "Suc i"]) simp
  next
    case False
    then show ?thesis by (intro exI [of _ 0]) (simp add: case_prod_beta)
  qed
qed simp

end
