(* ===== verification/Auction_Scheduler.thy ===== *)
theory Auction_Scheduler
  imports Auction_Zones
begin

section \<open>The scheduler (auction/auctionrunner/scheduler.go)\<close>

text \<open>
  \<open>Schedule\<close> with everything it calls: the two auctions, the limit on containers in flight, the
  commit of the work to the reps and the book-keeping of successes and failures. The three
  variables that the Go function keeps for LRPs, and the three it keeps for tasks, are a
  \<open>ledger\<close>: the failed auctions, the successful ones by identifier, and the auctions looked up
  by identifier. \<open>None\<close> is the panic of a \<open>nil\<close> dereference: of the missing winner of a task
  auction, or of an identifier that a rep returned and nobody had sent.

  The laws that let one set of proofs serve both kinds of auction are the locale
  \<open>auction_kind\<close>, interpreted on LRP auctions and on task auctions.
\<close>

subsection \<open>Sorting and splitting the requests\<close>

definition LRPAuction_Less :: "LRPAuction \<Rightarrow> LRPAuction \<Rightarrow> bool" where
  "LRPAuction_Less a b =
     (if key_Index (lrp_Key (la_LRP a)) = key_Index (lrp_Key (la_LRP b))
      then r_MemoryMB (lrp_Resource (la_LRP a)) > r_MemoryMB (lrp_Resource (la_LRP b))
      else key_Index (lrp_Key (la_LRP a)) < key_Index (lrp_Key (la_LRP b)))"

definition TaskAuction_Less :: "TaskAuction \<Rightarrow> TaskAuction \<Rightarrow> bool" where
  "TaskAuction_Less a b \<longleftrightarrow>
     r_MemoryMB (task_Resource (ta_Task a)) > r_MemoryMB (task_Resource (ta_Task b))"

definition splitLRPS :: "LRPAuction list \<Rightarrow> LRPAuction list \<times> LRPAuction list" where
  "splitLRPS lrps =
     (let pivot = 0; after = (\<lambda>a. key_Index (lrp_Key (la_LRP a)) > pivot)
      in if list_ex after lrps
         then (takeWhile (\<lambda>a. \<not> after a) lrps, dropWhile (\<lambda>a. \<not> after a) lrps)
         else ([], lrps))"

interpretation lrp_order: strict_weak_order LRPAuction_Less
  by unfold_locales (auto simp: LRPAuction_Less_def split: if_splits)

interpretation task_order: strict_weak_order TaskAuction_Less
  by unfold_locales (auto simp: TaskAuction_Less_def)

subsection \<open>One auction\<close>

record Scheduler =
  s_zones :: zones
  s_now :: int
  s_binPackFirstFitWeight :: float64
  s_startingContainerWeight :: float64
  s_startingContainerCountMaximum :: int

definition exceededInflightContainerCreation :: "Scheduler \<Rightarrow> int \<Rightarrow> bool" where
  "exceededInflightContainerCreation s currentInflight \<longleftrightarrow>
     s_startingContainerCountMaximum s > 0 \<and> currentInflight \<ge> s_startingContainerCountMaximum s"

definition removeNonApplicableProblems :: "string list \<Rightarrow> string list \<Rightarrow> string list" where
  "removeNonApplicableProblems problems err = filter (\<lambda>problem. problem \<in> set err) problems"

record search =
  se_winnerCell :: "ptr option"
  se_winnerScore :: float64
  se_problems :: "string list"

definition worst_score :: float64 where
  "worst_score = Fin 100000000000000000000"

definition all_problems :: "string list" where
  "all_problems = [''disk'', ''memory'', ''containers'']"

definition search_start :: search where
  "search_start = \<lparr>se_winnerCell = None, se_winnerScore = worst_score, se_problems = all_problems\<rparr>"

definition consider_cell :: "(ptr \<Rightarrow> string list + float64) \<Rightarrow> ptr \<Rightarrow> search \<Rightarrow> search" where
  "consider_cell score_of cell acc =
     (case score_of cell of
        Inl err \<Rightarrow> acc\<lparr>se_problems := removeNonApplicableProblems (se_problems acc) err\<rparr>
      | Inr score \<Rightarrow>
          if f_less score (se_winnerScore acc)
          then acc\<lparr>se_winnerCell := Some cell, se_winnerScore := score\<rparr> else acc)"

fun search_zones :: "(ptr \<Rightarrow> string list + float64) \<Rightarrow> lrpByZone list \<Rightarrow> search \<Rightarrow> search" where
  "search_zones score_of [] acc = acc"
| "search_zones score_of (lz # rest) acc =
     (let acc' = fold (consider_cell score_of) (lz_zone lz) acc in
      if rest \<noteq> [] \<and> lz_instances lz = lz_instances (hd rest) then search_zones score_of rest acc'
      else if se_winnerCell acc' \<noteq> None then acc'
      else search_zones score_of rest acc')"

definition LRPAuction_won :: "LRPAuction \<Rightarrow> string \<Rightarrow> LRPAuction" where
  "LRPAuction_won a guid =
     (let c = LRPAuction_Copy a in c\<lparr>la_Record := (la_Record c)\<lparr>ar_Winner := guid\<rparr>\<rparr>)"

definition TaskAuction_won :: "TaskAuction \<Rightarrow> string \<Rightarrow> TaskAuction" where
  "TaskAuction_won a guid =
     (let c = TaskAuction_Copy a in c\<lparr>ta_Record := (ta_Record c)\<lparr>ar_Winner := guid\<rparr>\<rparr>)"

definition lrp_score :: "Scheduler \<Rightarrow> cell_store \<Rightarrow> LRPAuction \<Rightarrow> ptr \<Rightarrow> string list + float64" where
  "lrp_score s st lrpAuction p =
     ScoreForLRP (st p) (la_LRP lrpAuction) (s_startingContainerWeight s) (s_binPackFirstFitWeight s)"

definition scheduleLRPAuction ::
  "Scheduler \<Rightarrow> cell_store \<Rightarrow> LRPAuction \<Rightarrow> (auction_error + LRPAuction) \<times> cell_store" where
  "scheduleLRPAuction s st lrpAuction =
     (let zs = accumulateZonesByInstances st (s_zones s)
                 (key_ProcessGuid (lrp_Key (la_LRP lrpAuction)));
          (filteredZones, err) = filterZones st zs lrpAuction
      in case err of
           Some e \<Rightarrow> (Inl e, st)
         | None \<Rightarrow>
             let sortedZones = sortZonesByInstances filteredZones;
                 found = search_zones (lrp_score s st lrpAuction) sortedZones search_start
             in case se_winnerCell found of
                  None \<Rightarrow> (Inl (InsufficientResourcesError (se_problems found)), st)
                | Some winnerCell \<Rightarrow>
                    (case ReserveLRP (st winnerCell) (la_LRP lrpAuction) of
                       Inl problems \<Rightarrow> (Inl (InsufficientResourcesError problems), st)
                     | Inr c \<Rightarrow> (Inr (LRPAuction_won lrpAuction (cell_Guid (st winnerCell))),
                                 st(winnerCell := c))))"

definition task_score :: "cell_store \<Rightarrow> TaskAuction \<Rightarrow> float64 \<Rightarrow> ptr \<Rightarrow> string list + float64" where
  "task_score st taskAuction startingContainerWeight p =
     ScoreForTask (st p) (ta_Task taskAuction) startingContainerWeight"

definition filterTaskZones_step ::
  "cell_store \<Rightarrow> PlacementConstraint \<Rightarrow> string \<times> Zone \<Rightarrow> Zone list \<times> auction_error option
     \<Rightarrow> Zone list \<times> auction_error option" where
  "filterTaskZones_step st pc nz acc =
     (let (filteredZones, zoneError) = acc;
          (cells, err) = filterCells st (snd nz) pc
      in if err \<noteq> None then (filteredZones, zoneError_update zoneError err)
         else (filteredZones @ [cells], zoneError))"

text \<open>\<open>Inr None\<close> is the return of a \<open>nil\<close> auction with a \<open>nil\<close> error.\<close>

definition scheduleTaskAuction ::
  "Scheduler \<Rightarrow> cell_store \<Rightarrow> TaskAuction \<Rightarrow> float64
     \<Rightarrow> (auction_error + TaskAuction option) \<times> cell_store" where
  "scheduleTaskAuction s st taskAuction startingContainerWeight =
     (let (filteredZones, zoneError) =
            fold (filterTaskZones_step st (task_Constraint (ta_Task taskAuction))) (s_zones s) ([], None)
      in if length filteredZones = 0
         then (case zoneError of None \<Rightarrow> (Inr None, st) | Some e \<Rightarrow> (Inl e, st))
         else
           let found = fold (\<lambda>z. fold (consider_cell (task_score st taskAuction startingContainerWeight)) z)
                         filteredZones search_start
           in case se_winnerCell found of
                None \<Rightarrow> (Inl (InsufficientResourcesError (se_problems found)), st)
              | Some winnerCell \<Rightarrow>
                  (case ReserveTask (st winnerCell) (ta_Task taskAuction) of
                     Inl problems \<Rightarrow> (Inl (InsufficientResourcesError problems), st)
                   | Inr c \<Rightarrow> (Inr (Some (TaskAuction_won taskAuction (cell_Guid (st winnerCell)))),
                               st(winnerCell := c))))"

subsection \<open>The whole schedule\<close>

record 'a ledger =
  lg_failed :: "'a list"
  lg_successful :: "(string \<times> 'a) list"
  lg_lookup :: "(string \<times> 'a) list"

definition empty_ledger :: "'a ledger" where
  "empty_ledger = \<lparr>lg_failed = [], lg_successful = [], lg_lookup = []\<rparr>"

text \<open>
  The lookup holds a pointer to the auction of the request, so a placement error written to the
  auction is seen through the lookup as well.
\<close>

definition ledger_fail :: "string \<Rightarrow> 'a \<Rightarrow> 'a ledger \<Rightarrow> 'a ledger" where
  "ledger_fail k a lg =
     lg\<lparr>lg_lookup := AList.update k a (lg_lookup lg), lg_failed := lg_failed lg @ [a]\<rparr>"

definition ledger_win :: "string \<Rightarrow> 'a \<Rightarrow> string \<Rightarrow> 'a \<Rightarrow> 'a ledger \<Rightarrow> 'a ledger" where
  "ledger_win k a k' winner lg =
     lg\<lparr>lg_lookup := AList.update k a (lg_lookup lg),
        lg_successful := AList.update k' winner (lg_successful lg)\<rparr>"

definition ledger_absorb :: "string \<Rightarrow> 'a ledger \<Rightarrow> 'a ledger option" where
  "ledger_absorb k lg =
     (case map_of (lg_lookup lg) k of
        None \<Rightarrow> None
      | Some a \<Rightarrow> Some (lg\<lparr>lg_successful := AList.delete k (lg_successful lg),
                          lg_failed := lg_failed lg @ [a]\<rparr>))"

fun ledger_absorb_all :: "string list \<Rightarrow> 'a ledger \<Rightarrow> 'a ledger option" where
  "ledger_absorb_all [] lg = Some lg"
| "ledger_absorb_all (k # ks) lg =
     (case ledger_absorb k lg of None \<Rightarrow> None | Some lg' \<Rightarrow> ledger_absorb_all ks lg')"

record schedule_state =
  ss_cells :: cell_store
  ss_inflight :: int
  ss_lrps :: "LRPAuction ledger"
  ss_tasks :: "TaskAuction ledger"

definition LRPAuction_fail :: "auction_error \<Rightarrow> LRPAuction \<Rightarrow> LRPAuction" where
  "LRPAuction_fail e a = a\<lparr>la_Record := (la_Record a)\<lparr>ar_PlacementError := auction_error_Error e\<rparr>\<rparr>"

definition TaskAuction_fail :: "auction_error \<Rightarrow> TaskAuction \<Rightarrow> TaskAuction" where
  "TaskAuction_fail e a = a\<lparr>ta_Record := (ta_Record a)\<lparr>ar_PlacementError := auction_error_Error e\<rparr>\<rparr>"

definition auctionLRP :: "Scheduler \<Rightarrow> LRPAuction \<Rightarrow> schedule_state \<Rightarrow> schedule_state" where
  "auctionLRP s a t =
     (if exceededInflightContainerCreation s (ss_inflight t)
      then t\<lparr>ss_lrps := ledger_fail (la_id a) (LRPAuction_fail ErrorExceededInflightCreation a) (ss_lrps t)\<rparr>
      else case scheduleLRPAuction s (ss_cells t) a of
             (Inl e, cells) \<Rightarrow>
               t\<lparr>ss_cells := cells, ss_lrps := ledger_fail (la_id a) (LRPAuction_fail e a) (ss_lrps t)\<rparr>
           | (Inr winner, cells) \<Rightarrow>
               t\<lparr>ss_cells := cells, ss_inflight := i64 (ss_inflight t + 1),
                 ss_lrps := ledger_win (la_id a) a (la_id winner) winner (ss_lrps t)\<rparr>)"

definition auctionTask :: "Scheduler \<Rightarrow> TaskAuction \<Rightarrow> schedule_state \<Rightarrow> schedule_state option" where
  "auctionTask s a t =
     (if exceededInflightContainerCreation s (ss_inflight t)
      then Some (t\<lparr>ss_tasks :=
                    ledger_fail (ta_id a) (TaskAuction_fail ErrorExceededInflightCreation a) (ss_tasks t)\<rparr>)
      else case scheduleTaskAuction s (ss_cells t) a (s_startingContainerWeight s) of
             (Inl e, cells) \<Rightarrow>
               Some (t\<lparr>ss_cells := cells,
                       ss_tasks := ledger_fail (ta_id a) (TaskAuction_fail e a) (ss_tasks t)\<rparr>)
           | (Inr None, cells) \<Rightarrow> None
           | (Inr (Some winner), cells) \<Rightarrow>
               Some (t\<lparr>ss_cells := cells, ss_inflight := i64 (ss_inflight t + 1),
                       ss_tasks := ledger_win (ta_id a) a (ta_id winner) winner (ss_tasks t)\<rparr>))"

fun auctionTasks :: "Scheduler \<Rightarrow> TaskAuction list \<Rightarrow> schedule_state \<Rightarrow> schedule_state option" where
  "auctionTasks s [] t = Some t"
| "auctionTasks s (a # as) t =
     (case auctionTask s a t of None \<Rightarrow> None | Some t' \<Rightarrow> auctionTasks s as t')"

text \<open>
  The commits run in a work pool and append their failures in the order in which they finish;
  \<open>order\<close> gives that order.
\<close>

definition commitCells ::
  "(client \<Rightarrow> Work \<Rightarrow> Work option) \<Rightarrow> (ptr list \<Rightarrow> ptr list) \<Rightarrow> Scheduler \<Rightarrow> cell_store \<Rightarrow> Work list" where
  "commitCells Perform order s st = map (\<lambda>p. Commit Perform (st p)) (order (zone_ptrs (s_zones s)))"

fun absorb_works ::
  "Work list \<Rightarrow> LRPAuction ledger \<times> TaskAuction ledger
     \<Rightarrow> (LRPAuction ledger \<times> TaskAuction ledger) option" where
  "absorb_works [] lt = Some lt"
| "absorb_works (failedWork # ws) (l, t) =
     (case ledger_absorb_all (map LRP_Identifier (w_LRPs failedWork)) l of
        None \<Rightarrow> None
      | Some l' \<Rightarrow>
          (case ledger_absorb_all (map Task_Identifier (w_Tasks failedWork)) t of
             None \<Rightarrow> None
           | Some t' \<Rightarrow> absorb_works ws (l', t')))"

definition mark_failed :: "AuctionRecord \<Rightarrow> AuctionRecord" where
  "mark_failed r = r\<lparr>ar_Attempts := i64 (ar_Attempts r + 1)\<rparr>"

definition mark_successful :: "int \<Rightarrow> AuctionRecord \<Rightarrow> AuctionRecord" where
  "mark_successful now r =
     r\<lparr>ar_Attempts := i64 (ar_Attempts r + 1), ar_WaitDuration := time_Sub now (ar_QueueTime r)\<rparr>"

definition on_lrp_record :: "(AuctionRecord \<Rightarrow> AuctionRecord) \<Rightarrow> LRPAuction \<Rightarrow> LRPAuction" where
  "on_lrp_record f a = a\<lparr>la_Record := f (la_Record a)\<rparr>"

definition on_task_record :: "(AuctionRecord \<Rightarrow> AuctionRecord) \<Rightarrow> TaskAuction \<Rightarrow> TaskAuction" where
  "on_task_record f a = a\<lparr>ta_Record := f (ta_Record a)\<rparr>"

definition markResults :: "int \<Rightarrow> AuctionResults \<Rightarrow> AuctionResults" where
  "markResults now r =
     \<lparr>SuccessfulLRPs = map (on_lrp_record (mark_successful now)) (SuccessfulLRPs r),
      SuccessfulTasks = map (on_task_record (mark_successful now)) (SuccessfulTasks r),
      FailedLRPs = map (on_lrp_record mark_failed) (FailedLRPs r),
      FailedTasks = map (on_task_record mark_failed) (FailedTasks r)\<rparr>"

definition inflight_starts :: "Scheduler \<Rightarrow> cell_store \<Rightarrow> int" where
  "inflight_starts s st =
     fold (\<lambda>p n. i64 (n + StartingContainerCount (st p))) (zone_ptrs (s_zones s)) 0"

definition Schedule ::
  "Scheduler \<Rightarrow> (client \<Rightarrow> Work \<Rightarrow> Work option) \<Rightarrow> (ptr list \<Rightarrow> ptr list) \<Rightarrow> cell_store
     \<Rightarrow> AuctionRequest \<Rightarrow> (AuctionResults \<times> cell_store) option" where
  "Schedule s Perform order st req =
     (if length (s_zones s) = 0
      then Some (markResults (s_now s)
             \<lparr>SuccessfulLRPs = [], SuccessfulTasks = [],
              FailedLRPs = map (LRPAuction_fail ErrorCellCommunication) (req_LRPs req),
              FailedTasks = map (TaskAuction_fail ErrorCellCommunication) (req_Tasks req)\<rparr>, st)
      else
        let lrps = go_sort LRPAuction_Less (req_LRPs req);
            tasks = go_sort TaskAuction_Less (req_Tasks req);
            (lrpsBeforeTasks, lrpsAfterTasks) = splitLRPS lrps;
            t0 = \<lparr>ss_cells = st, ss_inflight = inflight_starts s st, ss_lrps = empty_ledger,
                  ss_tasks = empty_ledger\<rparr>;
            t1 = fold (auctionLRP s) lrpsBeforeTasks t0
        in case auctionTasks s tasks t1 of
             None \<Rightarrow> None
           | Some t2 \<Rightarrow>
               let t3 = fold (auctionLRP s) lrpsAfterTasks t2;
                   failedWorks = commitCells Perform order s (ss_cells t3)
               in case absorb_works failedWorks (ss_lrps t3, ss_tasks t3) of
                    None \<Rightarrow> None
                  | Some (l, t) \<Rightarrow>
                      Some (markResults (s_now s)
                        \<lparr>SuccessfulLRPs = map snd (lg_successful l),
                         SuccessfulTasks = map snd (lg_successful t),
                         FailedLRPs = lg_failed l, FailedTasks = lg_failed t\<rparr>, ss_cells t3))"

end
