(* ===== verification/Auction_Safety.thy ===== *)
theory Auction_Safety
  imports Auction_Scheduler
begin

section \<open>What the scheduler guarantees\<close>

text \<open>
  The proofs about \<open>Schedule\<close>: which cell wins an auction, that no cell is ever promised more
  than it reported, that every request ends up in exactly one of the four lists of results, and
  that the limit on containers in flight is kept.
\<close>

subsection \<open>The order of scores\<close>

lemma f_less_trans: "f_less a b \<Longrightarrow> f_less b c \<Longrightarrow> f_less a c"
  by (cases a; cases b; cases c) auto

lemma f_less_irrefl [simp]: "\<not> f_less a a"
  by (cases a) auto

lemma f_le_trans: "a = b \<or> f_less a b \<Longrightarrow> b = c \<or> f_less b c \<Longrightarrow> a = c \<or> f_less a c"
  using f_less_trans by blast

subsection \<open>The search for a winner\<close>

lemma consider_cell_better:
  "se_winnerScore (consider_cell sc p acc) = se_winnerScore acc
   \<or> f_less (se_winnerScore (consider_cell sc p acc)) (se_winnerScore acc)"
  by (auto simp: consider_cell_def split: sum.splits)

lemma fold_consider_better:
  "se_winnerScore (fold (consider_cell sc) ps acc) = se_winnerScore acc
   \<or> f_less (se_winnerScore (fold (consider_cell sc) ps acc)) (se_winnerScore acc)"
proof (induction ps rule: rev_induct)
  case (snoc p ps)
  have "fold (consider_cell sc) (ps @ [p]) acc = consider_cell sc p (fold (consider_cell sc) ps acc)"
    by simp
  then show ?case
    using f_le_trans [OF consider_cell_better [of sc p "fold (consider_cell sc) ps acc"] snoc.IH]
    by (simp only:)
qed simp

lemma fold_consider_minimal:
  "p \<in> set ps \<Longrightarrow> sc p = Inr x \<Longrightarrow> \<not> f_less x (se_winnerScore (fold (consider_cell sc) ps acc))"
proof (induction ps rule: rev_induct)
  case (snoc q ps)
  let ?acc = "fold (consider_cell sc) ps acc"
  show ?case
  proof (cases "q = p")
    case True
    then show ?thesis using snoc.prems by (simp add: consider_cell_def)
  next
    case False
    then have "\<not> f_less x (se_winnerScore ?acc)" using snoc by simp
    moreover have "fold (consider_cell sc) (ps @ [q]) acc = consider_cell sc q ?acc" by simp
    ultimately show ?thesis using consider_cell_better [of sc q ?acc] by (metis f_less_trans)
  qed
qed simp

lemma fold_consider_winner:
  "let r = fold (consider_cell sc) ps acc in
     (se_winnerCell r = se_winnerCell acc \<and> se_winnerScore r = se_winnerScore acc)
     \<or> (\<exists>p \<in> set ps. se_winnerCell r = Some p \<and> sc p = Inr (se_winnerScore r)
          \<and> f_less (se_winnerScore r) (se_winnerScore acc))"
proof (induction ps rule: rev_induct)
  case (snoc q ps)
  let ?acc = "fold (consider_cell sc) ps acc"
  have step: "(se_winnerCell (consider_cell sc q ?acc) = se_winnerCell ?acc
        \<and> se_winnerScore (consider_cell sc q ?acc) = se_winnerScore ?acc)
     \<or> (se_winnerCell (consider_cell sc q ?acc) = Some q
        \<and> sc q = Inr (se_winnerScore (consider_cell sc q ?acc))
        \<and> f_less (se_winnerScore (consider_cell sc q ?acc)) (se_winnerScore ?acc))"
    by (simp add: consider_cell_def split: sum.split)
  have better: "se_winnerScore ?acc = se_winnerScore acc \<or> f_less (se_winnerScore ?acc) (se_winnerScore acc)"
    by (rule fold_consider_better)
  have app: "fold (consider_cell sc) (ps @ [q]) acc = consider_cell sc q ?acc" by simp
  show ?case
    using step
  proof
    assume "se_winnerCell (consider_cell sc q ?acc) = Some q
        \<and> sc q = Inr (se_winnerScore (consider_cell sc q ?acc))
        \<and> f_less (se_winnerScore (consider_cell sc q ?acc)) (se_winnerScore ?acc)"
    moreover from this better have "f_less (se_winnerScore (consider_cell sc q ?acc)) (se_winnerScore acc)"
      by (metis f_less_trans)
    ultimately show ?thesis unfolding Let_def app by (metis in_set_conv_decomp)
  next
    assume "se_winnerCell (consider_cell sc q ?acc) = se_winnerCell ?acc
        \<and> se_winnerScore (consider_cell sc q ?acc) = se_winnerScore ?acc"
    then show ?thesis using snoc unfolding Let_def app by auto
  qed
qed simp

lemma fold_consider_problems:
  "set (se_problems (fold (consider_cell sc) ps acc)) =
     {x \<in> set (se_problems acc). \<forall>p \<in> set ps. \<forall>err. sc p = Inl err \<longrightarrow> x \<in> set err}"
  by (induction ps arbitrary: acc)
     (auto simp: consider_cell_def removeNonApplicableProblems_def split: sum.split)

text \<open>
  \<open>best\<close> states what the search knows after some zones: without a winner no cell of them is
  eligible, and a winner is the best eligible cell of the zones with the fewest instances.
\<close>

definition eligible :: "(ptr \<Rightarrow> string list + float64) \<Rightarrow> ptr \<Rightarrow> float64 \<Rightarrow> bool" where
  "eligible sc p x \<longleftrightarrow> sc p = Inr x \<and> f_less x worst_score"

definition best :: "(ptr \<Rightarrow> string list + float64) \<Rightarrow> lrpByZone set \<Rightarrow> lrpByZone option \<Rightarrow> search \<Rightarrow> bool" where
  "best sc Z wz r =
     (case se_winnerCell r of
        None \<Rightarrow> wz = None \<and> se_winnerScore r = worst_score
          \<and> (\<forall>z \<in> Z. \<forall>p \<in> set (lz_zone z). \<forall>x. \<not> eligible sc p x)
      | Some w \<Rightarrow> (\<exists>z0 \<in> Z. wz = Some z0 \<and> w \<in> set (lz_zone z0) \<and> eligible sc w (se_winnerScore r)
          \<and> (\<forall>z \<in> Z. \<forall>p \<in> set (lz_zone z). \<forall>x. eligible sc p x \<longrightarrow>
               lz_instances z0 < lz_instances z
               \<or> lz_instances z0 = lz_instances z \<and> \<not> f_less x (se_winnerScore r))))"

lemma best_step:
  assumes b: "best sc Z wz acc"
    and same: "\<And>z0. wz = Some z0 \<Longrightarrow> lz_instances z0 = lz_instances lz"
    and above: "\<And>z. z \<in> Z \<Longrightarrow> lz_instances z \<le> lz_instances lz"
  obtains wz' where "best sc (insert lz Z) wz' (fold (consider_cell sc) (lz_zone lz) acc)"
    and "\<And>z0. wz' = Some z0 \<Longrightarrow> lz_instances z0 = lz_instances lz"
proof -
  let ?r = "fold (consider_cell sc) (lz_zone lz) acc"
  have min: "\<And>p x. p \<in> set (lz_zone lz) \<Longrightarrow> sc p = Inr x \<Longrightarrow> \<not> f_less x (se_winnerScore ?r)"
    by (rule fold_consider_minimal)
  consider (same) "se_winnerCell ?r = se_winnerCell acc" "se_winnerScore ?r = se_winnerScore acc"
    | (new) p where "p \<in> set (lz_zone lz)" "se_winnerCell ?r = Some p"
        "sc p = Inr (se_winnerScore ?r)" "f_less (se_winnerScore ?r) (se_winnerScore acc)"
    using fold_consider_winner [of sc "lz_zone lz" acc] unfolding Let_def by blast
  then show ?thesis
  proof cases
    case same
    then have "best sc (insert lz Z) wz ?r"
      using b min assms(2) by (auto simp: best_def eligible_def split: option.splits)
    then show ?thesis using assms(2) that by blast
  next
    case new
    have "f_less (se_winnerScore ?r) worst_score"
      using b new(4) f_less_trans by (auto simp: best_def eligible_def split: option.splits)
    moreover have "lz_instances lz < lz_instances z \<or> lz_instances lz = lz_instances z \<and> \<not> f_less x (se_winnerScore ?r)"
      if zq: "z \<in> Z" "q \<in> set (lz_zone z)" "eligible sc q x" for z q x
    proof (cases "se_winnerCell acc")
      case None
      then show ?thesis using b zq by (auto simp: best_def)
    next
      case (Some w)
      then obtain z0 where "wz = Some z0"
        "lz_instances z0 < lz_instances z \<or> lz_instances z0 = lz_instances z \<and> \<not> f_less x (se_winnerScore acc)"
        using b zq by (fastforce simp: best_def)
      then show ?thesis using assms(2) new(4) f_less_trans by metis
    qed
    ultimately have "best sc (insert lz Z) (Some lz) ?r"
      using new min by (auto simp: best_def eligible_def)
    then show ?thesis using that by blast
  qed
qed

lemma best_beyond:
  assumes "best sc Z (Some z0) r" and "\<And>z. z \<in> Y \<Longrightarrow> lz_instances z0 < lz_instances z"
  shows "best sc (Z \<union> Y) (Some z0) r"
  using assms by (auto simp: best_def split: option.splits)

lemma search_zones_best:
  assumes "best sc Z wz acc"
    and "sorted_wrt (\<lambda>a b. lz_instances a \<le> lz_instances b) zs"
    and "\<forall>z \<in> Z. \<forall>y \<in> set zs. lz_instances z \<le> lz_instances y"
    and "\<And>z0. wz = Some z0 \<Longrightarrow> zs \<noteq> [] \<Longrightarrow> lz_instances z0 = lz_instances (hd zs)"
  shows "\<exists>wz'. best sc (Z \<union> set zs) wz' (search_zones sc zs acc)"
  using assms
proof (induction zs arbitrary: Z wz acc)
  case (Cons lz rest)
  let ?acc = "fold (consider_cell sc) (lz_zone lz) acc"
  obtain wz1 where 1: "best sc (insert lz Z) wz1 ?acc"
    and inst: "\<And>z0. wz1 = Some z0 \<Longrightarrow> lz_instances z0 = lz_instances lz"
    using best_step [OF Cons.prems(1), of lz] Cons.prems(3,4) by (metis list.sel(1) list.set_intros(1) list.distinct(1))
  have below: "\<forall>z \<in> insert lz Z. \<forall>y \<in> set rest. lz_instances z \<le> lz_instances y"
    using Cons.prems(2,3) by auto
  have IH: "\<exists>wz'. best sc (insert lz Z \<union> set rest) wz' (search_zones sc rest ?acc)"
    if "\<And>z0. wz1 = Some z0 \<Longrightarrow> rest \<noteq> [] \<Longrightarrow> lz_instances z0 = lz_instances (hd rest)"
    using Cons.IH [OF 1] below Cons.prems(2) that by simp
  show ?case
  proof (cases "rest \<noteq> [] \<and> lz_instances lz = lz_instances (hd rest)")
    case True
    then show ?thesis using IH inst by simp
  next
    case tie: False
    show ?thesis
    proof (cases "se_winnerCell ?acc")
      case None
      then have "wz1 = None" using 1 by (simp add: best_def)
      then show ?thesis using IH tie None by (simp add: Let_def)
    next
      case (Some w)
      then obtain z0 where z0: "wz1 = Some z0" using 1 by (auto simp: best_def)
      have "lz_instances z0 < lz_instances y" if y: "y \<in> set rest" for y
      proof -
        obtain r0 rs where rest: "rest = r0 # rs" using y by (cases rest) auto
        have "lz_instances lz < lz_instances r0" using tie Cons.prems(2) by (simp add: rest)
        moreover have "lz_instances r0 \<le> lz_instances y" using y Cons.prems(2) by (auto simp: rest)
        ultimately show ?thesis using inst [OF z0] by simp
      qed
      then have "best sc (insert lz Z \<union> set rest) (Some z0) ?acc"
        using best_beyond 1 unfolding z0 by blast
      then show ?thesis using tie Some by auto
    qed
  qed
qed auto

lemma best_start: "best sc {} None search_start"
  by (simp add: best_def search_start_def)

lemma search_zones_best_start:
  "sorted_wrt (\<lambda>a b. lz_instances a \<le> lz_instances b) zs \<Longrightarrow>
     \<exists>wz. best sc (set zs) wz (search_zones sc zs search_start)"
  using search_zones_best [OF best_start, of zs] by simp

lemma search_zones_problems:
  "se_winnerCell (search_zones sc zs acc) = None \<Longrightarrow>
     set (se_problems (search_zones sc zs acc)) =
       {x \<in> set (se_problems acc).
          \<forall>z \<in> set zs. \<forall>p \<in> set (lz_zone z). \<forall>err. sc p = Inl err \<longrightarrow> x \<in> set err}"
proof (induction zs arbitrary: acc)
  case (Cons lz rest)
  let ?acc = "fold (consider_cell sc) (lz_zone lz) acc"
  have "search_zones sc (lz # rest) acc = search_zones sc rest ?acc"
    using Cons.prems by (auto simp: Let_def split: if_splits)
  then show ?case
    using Cons.IH [of ?acc] Cons.prems by (auto simp: fold_consider_problems)
qed simp

subsection \<open>The zones that a search visits\<close>

definition candidate_zones :: "Scheduler \<Rightarrow> cell_store \<Rightarrow> LRPAuction \<Rightarrow> lrpByZone list" where
  "candidate_zones s st a =
     fst (filterZones st (accumulateZonesByInstances st (s_zones s)
       (key_ProcessGuid (lrp_Key (la_LRP a)))) a)"

lemma set_sortZones [simp]: "set (sortZonesByInstances zs) = set zs"
  by (simp add: sortZonesByInstances_def)

lemma candidate_zones_iff:
  "lz \<in> set (candidate_zones s st a) \<longleftrightarrow>
     (\<exists>name z. (name, z) \<in> set (s_zones s)
        \<and> (\<exists>p \<in> set z. cell_matches (lrp_Constraint (la_LRP a)) (st p))
        \<and> lz = \<lparr>lz_zone = filter (\<lambda>p. cell_matches (lrp_Constraint (la_LRP a)) (st p)) z,
                lz_instances = int (zone_instances st (key_ProcessGuid (lrp_Key (la_LRP a))) z)\<rparr>)"
  (is "_ \<longleftrightarrow> (\<exists>name z. _ \<and> ?m z \<and> lz = ?f z)")
proof -
  have "set (candidate_zones s st a) = {?f z |name z. (name, z) \<in> set (s_zones s) \<and> ?m z}"
    by (force simp: candidate_zones_def filterZones_fst accumulateZonesByInstances_def)
  then show ?thesis by blast
qed

lemma scheduleLRPAuction_unfold:
  "scheduleLRPAuction s st a =
     (case snd (filterZones st (accumulateZonesByInstances st (s_zones s)
              (key_ProcessGuid (lrp_Key (la_LRP a)))) a) of
        Some e \<Rightarrow> (Inl e, st)
      | None \<Rightarrow>
          let found = search_zones (lrp_score s st a) (sortZonesByInstances (candidate_zones s st a)) search_start
          in case se_winnerCell found of
               None \<Rightarrow> (Inl (InsufficientResourcesError (se_problems found)), st)
             | Some w \<Rightarrow>
                 (case ReserveLRP (st w) (la_LRP a) of
                    Inl problems \<Rightarrow> (Inl (InsufficientResourcesError problems), st)
                  | Inr c \<Rightarrow> (Inr (LRPAuction_won a (cell_Guid (st w))), st(w := c))))"
  unfolding scheduleLRPAuction_def candidate_zones_def Let_def case_prod_beta by (rule refl)

lemma scheduleLRPAuction_Inl: "scheduleLRPAuction s st a = (Inl e, st') \<Longrightarrow> st' = st"
  by (auto simp: scheduleLRPAuction_unfold Let_def split: option.splits sum.splits)

lemma scheduleLRPAuction_Inr:
  assumes "scheduleLRPAuction s st a = (Inr w, st')"
  obtains name z p c x where "(name, z) \<in> set (s_zones s)" "p \<in> set z"
    "cell_matches (lrp_Constraint (la_LRP a)) (st p)"
    "ReserveLRP (st p) (la_LRP a) = Inr c" "st' = st(p := c)"
    "w = LRPAuction_won a (cell_Guid (st p))"
    "eligible (lrp_score s st a) p x"
    "\<And>name' z' p' x'. (name', z') \<in> set (s_zones s) \<Longrightarrow> p' \<in> set z' \<Longrightarrow>
       cell_matches (lrp_Constraint (la_LRP a)) (st p') \<Longrightarrow> eligible (lrp_score s st a) p' x' \<Longrightarrow>
       zone_instances st (key_ProcessGuid (lrp_Key (la_LRP a))) z
         < zone_instances st (key_ProcessGuid (lrp_Key (la_LRP a))) z'
       \<or> zone_instances st (key_ProcessGuid (lrp_Key (la_LRP a))) z
           = zone_instances st (key_ProcessGuid (lrp_Key (la_LRP a))) z'
         \<and> \<not> f_less x' x"
proof -
  let ?sc = "lrp_score s st a" and ?Z = "candidate_zones s st a"
    and ?m = "\<lambda>p. cell_matches (lrp_Constraint (la_LRP a)) (st p)"
    and ?n = "zone_instances st (key_ProcessGuid (lrp_Key (la_LRP a)))"
  let ?r = "search_zones ?sc (sortZonesByInstances ?Z) search_start"
  obtain p c where p: "se_winnerCell ?r = Some p" and c: "ReserveLRP (st p) (la_LRP a) = Inr c"
    and res: "st' = st(p := c)" "w = LRPAuction_won a (cell_Guid (st p))"
    using assms by (auto simp: scheduleLRPAuction_unfold Let_def split: option.splits sum.splits)
  obtain wz where "best ?sc (set ?Z) wz ?r"
    using search_zones_best_start [OF sortZonesByInstances_sorted, of ?sc ?Z] by auto
  then obtain z0 where z0: "z0 \<in> set ?Z" "p \<in> set (lz_zone z0)" "eligible ?sc p (se_winnerScore ?r)"
    and min: "\<And>z q x. z \<in> set ?Z \<Longrightarrow> q \<in> set (lz_zone z) \<Longrightarrow> eligible ?sc q x \<Longrightarrow>
      lz_instances z0 < lz_instances z
      \<or> lz_instances z0 = lz_instances z \<and> \<not> f_less x (se_winnerScore ?r)"
    unfolding best_def p option.case by blast
  obtain name z where z: "(name, z) \<in> set (s_zones s)"
    and z0_eq: "z0 = \<lparr>lz_zone = filter ?m z, lz_instances = int (?n z)\<rparr>"
    using z0(1) unfolding candidate_zones_iff by blast
  have pz: "p \<in> set z" "?m p" using z0(2) by (simp_all add: z0_eq)
  show ?thesis
  proof (rule that [OF z pz c res z0(3)])
    fix name' z' p' x'
    assume 1: "(name', z') \<in> set (s_zones s)" "p' \<in> set z'" "?m p'" "eligible ?sc p' x'"
    then have "\<lparr>lz_zone = filter ?m z', lz_instances = int (?n z')\<rparr> \<in> set ?Z"
      unfolding candidate_zones_iff by blast
    from min [OF this, of p' x'] 1
    show "?n z < ?n z' \<or> ?n z = ?n z' \<and> \<not> f_less x' (se_winnerScore ?r)"
      by (simp add: z0_eq)
  qed
qed

subsection \<open>Task auctions\<close>

lemma fold_fold_concat: "fold (\<lambda>z. fold f z) zs acc = fold f (concat zs) acc"
  by (induction zs arbitrary: acc) auto

lemma filterTaskZones_cells:
  "concat (fst (fold (filterTaskZones_step st pc) zs (acc, e))) =
     concat acc @ filter (\<lambda>p. cell_matches pc (st p)) (zone_ptrs zs)"
proof (induction zs arbitrary: acc e)
  case (Cons nz zs)
  show ?case
  proof (cases "mismatch_of st (snd nz) pc")
    case None
    then show ?thesis using Cons by (simp add: filterTaskZones_step_def filterCells_eq)
  next
    case (Some err)
    then have "filter (\<lambda>p. cell_matches pc (st p)) (snd nz) = []"
      by (auto simp: mismatch_of_def filter_empty_conv split: if_splits)
    then show ?thesis using Cons Some by (simp add: filterTaskZones_step_def filterCells_eq)
  qed
qed simp

lemma filterTaskZones_error:
  "zs \<noteq> [] \<Longrightarrow> snd (fold (filterTaskZones_step st pc) zs (acc, e)) = None \<Longrightarrow>
     fst (fold (filterTaskZones_step st pc) zs (acc, e)) \<noteq> []"
proof (induction zs arbitrary: acc e rule: rev_induct)
  case (snoc nz zs)
  obtain fz ze where 1: "fold (filterTaskZones_step st pc) zs (acc, e) = (fz, ze)" by fastforce
  have "snd (filterTaskZones_step st pc nz (fz, ze)) = None \<Longrightarrow> fst (filterTaskZones_step st pc nz (fz, ze)) \<noteq> []"
    by (cases "mismatch_of st (snd nz) pc")
       (auto simp: filterTaskZones_step_def filterCells_eq zoneError_update_def split: if_splits)
  then show ?case using snoc.prems(2) 1 by simp
qed simp

lemma scheduleTaskAuction_unfold:
  "scheduleTaskAuction s st a w =
     (let fz = fold (filterTaskZones_step st (task_Constraint (ta_Task a))) (s_zones s) ([], None);
          cells = filter (\<lambda>p. cell_matches (task_Constraint (ta_Task a)) (st p)) (zone_ptrs (s_zones s));
          found = fold (consider_cell (task_score st a w)) cells search_start
      in if fst fz = [] then (case snd fz of None \<Rightarrow> (Inr None, st) | Some e \<Rightarrow> (Inl e, st))
         else case se_winnerCell found of
                None \<Rightarrow> (Inl (InsufficientResourcesError (se_problems found)), st)
              | Some p \<Rightarrow>
                  (case ReserveTask (st p) (ta_Task a) of
                     Inl problems \<Rightarrow> (Inl (InsufficientResourcesError problems), st)
                   | Inr c \<Rightarrow> (Inr (Some (TaskAuction_won a (cell_Guid (st p)))), st(p := c))))"
proof -
  have "concat (fst (fold (filterTaskZones_step st (task_Constraint (ta_Task a))) (s_zones s) ([], None)))
      = filter (\<lambda>p. cell_matches (task_Constraint (ta_Task a)) (st p)) (zone_ptrs (s_zones s))"
    by (simp add: filterTaskZones_cells)
  then show ?thesis
    unfolding scheduleTaskAuction_def Let_def case_prod_beta fold_fold_concat length_0_conv
    by (simp only:)
qed

lemma scheduleTaskAuction_Inl: "scheduleTaskAuction s st a w = (Inl e, st') \<Longrightarrow> st' = st"
  by (auto simp: scheduleTaskAuction_unfold Let_def split: option.splits sum.splits if_splits)

lemma scheduleTaskAuction_not_nil:
  "s_zones s \<noteq> [] \<Longrightarrow> scheduleTaskAuction s st a w \<noteq> (Inr None, st')"
  using filterTaskZones_error [of "s_zones s" st "task_Constraint (ta_Task a)" "[]" None]
  by (auto simp: scheduleTaskAuction_unfold Let_def split: option.splits sum.splits if_splits)

lemma scheduleTaskAuction_Inr:
  assumes "scheduleTaskAuction s st a w = (Inr (Some t), st')"
  obtains name z p c x where "(name, z) \<in> set (s_zones s)" "p \<in> set z"
    "cell_matches (task_Constraint (ta_Task a)) (st p)"
    "ReserveTask (st p) (ta_Task a) = Inr c" "st' = st(p := c)"
    "t = TaskAuction_won a (cell_Guid (st p))"
    "eligible (task_score st a w) p x"
    "\<And>name' z' p' x'. (name', z') \<in> set (s_zones s) \<Longrightarrow> p' \<in> set z' \<Longrightarrow>
       cell_matches (task_Constraint (ta_Task a)) (st p') \<Longrightarrow> eligible (task_score st a w) p' x' \<Longrightarrow>
       \<not> f_less x' x"
proof -
  let ?sc = "task_score st a w"
    and ?cells = "filter (\<lambda>p. cell_matches (task_Constraint (ta_Task a)) (st p)) (zone_ptrs (s_zones s))"
  let ?r = "fold (consider_cell ?sc) ?cells search_start"
  obtain p c where p: "se_winnerCell ?r = Some p" and c: "ReserveTask (st p) (ta_Task a) = Inr c"
    and res: "st' = st(p := c)" "t = TaskAuction_won a (cell_Guid (st p))"
    using assms by (auto simp: scheduleTaskAuction_unfold Let_def split: option.splits sum.splits if_splits)
  have "p \<in> set ?cells \<and> eligible ?sc p (se_winnerScore ?r)"
    using fold_consider_winner [of ?sc ?cells search_start] p
    by (auto simp: Let_def eligible_def search_start_def)
  moreover then obtain name z where "(name, z) \<in> set (s_zones s)" "p \<in> set z"
    "cell_matches (task_Constraint (ta_Task a)) (st p)" by auto
  moreover have "\<not> f_less x' (se_winnerScore ?r)"
    if "(name', z') \<in> set (s_zones s)" "p' \<in> set z'"
      "cell_matches (task_Constraint (ta_Task a)) (st p')" "eligible ?sc p' x'" for name' z' p' x'
    using fold_consider_minimal [of p' ?cells ?sc x' search_start] that by (force simp: eligible_def)
  ultimately show ?thesis using that c res by blast
qed

subsection \<open>When an LRP is placed, and what a refusal says\<close>

lemma accumulate_Nil [simp]: "accumulateZonesByInstances st zs g = [] \<longleftrightarrow> zs = []"
  by (simp add: accumulateZonesByInstances_def)

lemma filterZones_matching:
  assumes "p \<in> set (zone_ptrs (s_zones s))" and "cell_matches (lrp_Constraint (la_LRP a)) (st p)"
  shows "snd (filterZones st (accumulateZonesByInstances st (s_zones s) g) a) = None"
proof -
  obtain name z where z: "(name, z) \<in> set (s_zones s)" "p \<in> set z" using assms(1) by auto
  let ?lz = "\<lparr>lz_zone = z, lz_instances = int (zone_instances st g z)\<rparr>"
    and ?Z = "accumulateZonesByInstances st (s_zones s) g"
  have "?lz \<in> set ?Z" using z(1) by (force simp: accumulateZonesByInstances_def)
  moreover have "p \<in> set (lz_zone ?lz)" using z(2) by simp
  ultimately have "\<exists>lz \<in> set ?Z. \<exists>p \<in> set (lz_zone lz). cell_matches (lrp_Constraint (la_LRP a)) (st p)"
    using assms(2) by blast
  moreover have "?Z \<noteq> []" using z by auto
  ultimately show ?thesis using filterZones_snd_None [of ?Z st a] by blast
qed

lemma candidate_zones_ptrs:
  "(\<exists>lz \<in> set (candidate_zones s st a). p \<in> set (lz_zone lz)) \<longleftrightarrow>
     p \<in> set (zone_ptrs (s_zones s)) \<and> cell_matches (lrp_Constraint (la_LRP a)) (st p)"
  unfolding candidate_zones_iff Bex_def by force

lemma scheduleLRPAuction_complete:
  assumes "s_zones s \<noteq> []"
    and "\<And>p x. p \<in> set (zone_ptrs (s_zones s)) \<Longrightarrow> lrp_score s st a p = Inr x \<Longrightarrow> f_less x worst_score"
    and "\<And>p. p \<in> set (zone_ptrs (s_zones s)) \<Longrightarrow>
           r_MemoryMB (lrp_Resource (la_LRP a)) \<le> r_MemoryMB (proxiedLRP (st p) (la_LRP a))"
    and p: "p \<in> set (zone_ptrs (s_zones s))" "cell_matches (lrp_Constraint (la_LRP a)) (st p)"
    and fits: "Resources_fits (cs_AvailableResources (cell_state (st p))) (proxiedLRP (st p) (la_LRP a))"
  shows "\<exists>w st'. scheduleLRPAuction s st a = (Inr w, st')"
proof -
  let ?sc = "lrp_score s st a" and ?Z = "candidate_zones s st a"
  let ?r = "search_zones ?sc (sortZonesByInstances ?Z) search_start"
  obtain x where "?sc p = Inr x"
    using fits by (auto simp: lrp_score_def ScoreForLRP_def ResourceMatch_None_iff [symmetric] Let_def)
  then have el: "eligible ?sc p x" using assms(2) p(1) by (simp add: eligible_def)
  obtain wz where b: "best ?sc (set ?Z) wz ?r"
    using search_zones_best_start [OF sortZonesByInstances_sorted, of ?sc ?Z] by auto
  obtain lz where lz: "lz \<in> set ?Z" "p \<in> set (lz_zone lz)"
    using candidate_zones_ptrs p by blast
  obtain q where q: "se_winnerCell ?r = Some q"
    using b lz el by (cases "se_winnerCell ?r") (auto simp: best_def)
  then obtain lq where lq: "lq \<in> set ?Z" "q \<in> set (lz_zone lq)" and elq: "eligible ?sc q (se_winnerScore ?r)"
    using b by (auto simp: best_def)
  have qin: "q \<in> set (zone_ptrs (s_zones s))" using candidate_zones_ptrs lq by blast
  have "Resources_fits (cs_AvailableResources (cell_state (st q))) (proxiedLRP (st q) (la_LRP a))"
    using elq by (auto simp: eligible_def lrp_score_def intro: ScoreForLRP_Inr_fits)
  then have "Resources_fits (cs_AvailableResources (cell_state (st q))) (lrp_Resource (la_LRP a))"
    using assms(3) [OF qin] by (auto simp: Resources_fits_def proxiedLRP_def)
  then obtain c where "ReserveLRP (st q) (la_LRP a) = Inr c"
    using lrp_res.reserve_Inr_iff by blast
  then show ?thesis
    using q filterZones_matching [where st = st and a = a, OF p] by (simp add: scheduleLRPAuction_unfold)
qed

lemma scheduleLRPAuction_problems:
  assumes p0: "p0 \<in> set (zone_ptrs (s_zones s))" "cell_matches (lrp_Constraint (la_LRP a)) (st p0)"
    and miss: "\<And>p. p \<in> set (zone_ptrs (s_zones s)) \<Longrightarrow> cell_matches (lrp_Constraint (la_LRP a)) (st p) \<Longrightarrow>
           lrp_score s st a p = Inl (missing p)"
  shows "\<exists>ps. scheduleLRPAuction s st a = (Inl (InsufficientResourcesError ps), st)
    \<and> set ps = {x \<in> {''disk'', ''memory'', ''containers''}.
        \<forall>p \<in> set (zone_ptrs (s_zones s)). cell_matches (lrp_Constraint (la_LRP a)) (st p) \<longrightarrow> x \<in> set (missing p)}"
proof -
  let ?sc = "lrp_score s st a" and ?Z = "candidate_zones s st a"
  let ?r = "search_zones ?sc (sortZonesByInstances ?Z) search_start"
  have sc: "?sc p = Inl (missing p)" if "lz \<in> set ?Z" "p \<in> set (lz_zone lz)" for lz p
    using miss candidate_zones_ptrs that by blast
  obtain wz where b: "best ?sc (set ?Z) wz ?r"
    using search_zones_best_start [OF sortZonesByInstances_sorted, of ?sc ?Z] by auto
  have none: "se_winnerCell ?r = None"
  proof (rule ccontr)
    assume "se_winnerCell ?r \<noteq> None"
    then obtain w where w: "se_winnerCell ?r = Some w" by blast
    then obtain z0 where "z0 \<in> set ?Z" "w \<in> set (lz_zone z0)" "eligible ?sc w (se_winnerScore ?r)"
      using b by (auto simp: best_def)
    then show False using sc by (force simp: eligible_def)
  qed
  have "set (se_problems ?r) = {x \<in> set all_problems.
      \<forall>z \<in> set ?Z. \<forall>p \<in> set (lz_zone z). \<forall>err. ?sc p = Inl err \<longrightarrow> x \<in> set err}"
    using search_zones_problems [OF none] by (simp add: search_start_def)
  also have "\<dots> = {x \<in> set all_problems. \<forall>z \<in> set ?Z. \<forall>p \<in> set (lz_zone z). x \<in> set (missing p)}"
    using sc by (metis (mono_tags, lifting) sum.inject(1))
  also have "\<dots> = {x \<in> set all_problems.
      \<forall>p \<in> set (zone_ptrs (s_zones s)). cell_matches (lrp_Constraint (la_LRP a)) (st p) \<longrightarrow> x \<in> set (missing p)}"
    using candidate_zones_ptrs [of s st a] by blast
  finally show ?thesis
    using none filterZones_matching [where st = st and a = a, OF p0] by (simp add: scheduleLRPAuction_unfold all_problems_def)
qed

end
