(* ===== verification/Auction_Conservation.thy ===== *)
theory Auction_Conservation
  imports Auction_Safety
begin

section \<open>Accounting and conservation over a whole schedule\<close>

text \<open>
  Three invariants of the loops of \<open>Schedule\<close>: the accounting of every cell, the ledgers
  together with the work that waits to be committed, and the number of containers in flight.
  The rep's \<open>Perform\<close> enters with one law: the failed work it returns is part of the work it
  was sent.
\<close>

subsection \<open>The loops of Schedule\<close>

definition run_auctions :: "Scheduler \<Rightarrow> cell_store \<Rightarrow> AuctionRequest \<Rightarrow> schedule_state option" where
  "run_auctions s st req =
     (let lrps = go_sort LRPAuction_Less (req_LRPs req);
          t0 = \<lparr>ss_cells = st, ss_inflight = inflight_starts s st, ss_lrps = empty_ledger,
                ss_tasks = empty_ledger\<rparr>
      in map_option (fold (auctionLRP s) (snd (splitLRPS lrps)))
           (auctionTasks s (go_sort TaskAuction_Less (req_Tasks req))
             (fold (auctionLRP s) (fst (splitLRPS lrps)) t0)))"

definition results_of :: "Scheduler \<Rightarrow> LRPAuction ledger \<Rightarrow> TaskAuction ledger \<Rightarrow> AuctionResults" where
  "results_of s l t = markResults (s_now s)
     \<lparr>SuccessfulLRPs = map snd (lg_successful l), SuccessfulTasks = map snd (lg_successful t),
      FailedLRPs = lg_failed l, FailedTasks = lg_failed t\<rparr>"

lemma Schedule_unfold:
  "s_zones s \<noteq> [] \<Longrightarrow>
     Schedule s Perform order st req =
       Option.bind (run_auctions s st req) (\<lambda>t3.
         map_option (\<lambda>(l, t). (results_of s l t, ss_cells t3))
           (absorb_works (commitCells Perform order s (ss_cells t3)) (ss_lrps t3, ss_tasks t3)))"
  by (auto simp: Schedule_def run_auctions_def results_of_def Let_def case_prod_beta split: option.split)

lemma splitLRPS_append: "fst (splitLRPS lrps) @ snd (splitLRPS lrps) = lrps"
  by (simp add: splitLRPS_def Let_def)

lemma set_splitLRPS: "set (fst (splitLRPS lrps)) \<union> set (snd (splitLRPS lrps)) = set lrps"
  using splitLRPS_append [of lrps] by (metis set_append)

text \<open>An invariant of every single auction is an invariant of the loops.\<close>

lemma auctionTasks_inv:
  assumes "auctionTasks s as t = Some t'" and "P t"
    and "\<And>a t t'. a \<in> set as \<Longrightarrow> P t \<Longrightarrow> auctionTask s a t = Some t' \<Longrightarrow> P t'"
  shows "P t'"
  using assms
proof (induction as arbitrary: t)
  case (Cons a as)
  obtain t1 where 1: "auctionTask s a t = Some t1" and rest: "auctionTasks s as t1 = Some t'"
    using Cons.prems(1) by (auto split: option.splits)
  have "P t1" using Cons.prems(2,3) 1 by (meson list.set_intros(1))
  then show ?case using Cons.IH [OF rest] Cons.prems(3) by (meson list.set_intros(2))
qed simp

lemma fold_inv:
  "P t \<Longrightarrow> (\<And>a t. a \<in> set as \<Longrightarrow> P t \<Longrightarrow> P (f a t)) \<Longrightarrow> P (fold f as t)"
  by (induction as arbitrary: t) auto

lemma run_auctions_inv:
  assumes "run_auctions s st req = Some t3"
    and "P \<lparr>ss_cells = st, ss_inflight = inflight_starts s st, ss_lrps = empty_ledger, ss_tasks = empty_ledger\<rparr>"
    and lrp: "\<And>a t. a \<in> set (req_LRPs req) \<Longrightarrow> P t \<Longrightarrow> P (auctionLRP s a t)"
    and task: "\<And>a t t'. a \<in> set (req_Tasks req) \<Longrightarrow> P t \<Longrightarrow> auctionTask s a t = Some t' \<Longrightarrow> P t'"
  shows "P t3"
proof -
  let ?l = "go_sort LRPAuction_Less (req_LRPs req)"
  have sub: "set (fst (splitLRPS ?l)) \<subseteq> set (req_LRPs req)" "set (snd (splitLRPS ?l)) \<subseteq> set (req_LRPs req)"
    using set_splitLRPS [of ?l] by auto
  obtain t2 where t2: "auctionTasks s (go_sort TaskAuction_Less (req_Tasks req)) (fold (auctionLRP s)
      (fst (splitLRPS ?l)) \<lparr>ss_cells = st, ss_inflight = inflight_starts s st, ss_lrps = empty_ledger,
        ss_tasks = empty_ledger\<rparr>) = Some t2"
    and t3: "t3 = fold (auctionLRP s) (snd (splitLRPS ?l)) t2"
    using assms(1) by (auto simp: run_auctions_def Let_def)
  have "P (fold (auctionLRP s) (fst (splitLRPS ?l)) \<lparr>ss_cells = st, ss_inflight = inflight_starts s st,
      ss_lrps = empty_ledger, ss_tasks = empty_ledger\<rparr>)"
    by (rule fold_inv [where P = P, OF assms(2)]) (use lrp sub in blast)
  then have "P t2"
    by (rule auctionTasks_inv [where P = P, OF t2]) (use task in auto)
  then show ?thesis
    unfolding t3 by (rule fold_inv [where P = P]) (use lrp sub in blast)
qed

subsection \<open>Accounting\<close>

definition store_accounted :: "(ptr \<Rightarrow> Resources) \<Rightarrow> ptr list \<Rightarrow> cell_store \<Rightarrow> bool" where
  "store_accounted base ps st \<longleftrightarrow> (\<forall>p \<in> set ps. cell_accounted (base p) (st p))"

lemma auctionLRP_placed:
  obtains "ss_cells (auctionLRP s a t) = ss_cells t"
  | p c where "p \<in> set (zone_ptrs (s_zones s))" "cell_matches (lrp_Constraint (la_LRP a)) (ss_cells t p)"
      "ReserveLRP (ss_cells t p) (la_LRP a) = Inr c"
      "ss_cells (auctionLRP s a t) = (ss_cells t)(p := c)"
proof (cases "exceededInflightContainerCreation s (ss_inflight t)")
  case True
  then show ?thesis using that(1) by (simp add: auctionLRP_def)
next
  case False
  show ?thesis
  proof (cases "scheduleLRPAuction s (ss_cells t) a")
    case (Pair r cells)
    show ?thesis
    proof (cases r)
      case (Inl e)
      then show ?thesis
        using that(1) False Pair scheduleLRPAuction_Inl [of s "ss_cells t" a e cells] by (simp add: auctionLRP_def)
    next
      case (Inr w)
      obtain name z p c where "(name, z) \<in> set (s_zones s)" "p \<in> set z"
        "cell_matches (lrp_Constraint (la_LRP a)) (ss_cells t p)"
        "ReserveLRP (ss_cells t p) (la_LRP a) = Inr c" "cells = (ss_cells t)(p := c)"
        using scheduleLRPAuction_Inr [OF Pair [unfolded Inr]] by metis
      then show ?thesis using that(2) [of p c] False Pair Inr by (force simp: auctionLRP_def)
    qed
  qed
qed

lemma auctionTask_placed:
  assumes "auctionTask s a t = Some t'"
  obtains "ss_cells t' = ss_cells t"
  | p c where "p \<in> set (zone_ptrs (s_zones s))" "cell_matches (task_Constraint (ta_Task a)) (ss_cells t p)"
      "ReserveTask (ss_cells t p) (ta_Task a) = Inr c"
      "ss_cells t' = (ss_cells t)(p := c)"
proof (cases "exceededInflightContainerCreation s (ss_inflight t)")
  case True
  then show ?thesis using that(1) assms by (auto simp: auctionTask_def)
next
  case False
  obtain r cells where r: "scheduleTaskAuction s (ss_cells t) a (s_startingContainerWeight s) = (r, cells)"
    by fastforce
  consider e where "r = Inl e" | "r = Inr None" | w where "r = Inr (Some w)"
    by (metis option.exhaust sum.exhaust)
  then show ?thesis
  proof cases
    case 1
    then show ?thesis
      using that(1) False r assms scheduleTaskAuction_Inl by (fastforce simp: auctionTask_def)
  next
    case 2
    then show ?thesis using False r assms by (simp add: auctionTask_def)
  next
    case (3 w)
    obtain name z p c where "(name, z) \<in> set (s_zones s)" "p \<in> set z"
      "cell_matches (task_Constraint (ta_Task a)) (ss_cells t p)"
      "ReserveTask (ss_cells t p) (ta_Task a) = Inr c" "cells = (ss_cells t)(p := c)"
      using scheduleTaskAuction_Inr [OF r [unfolded 3]] by metis
    then show ?thesis using that(2) [of p c] False r 3 assms by (force simp: auctionTask_def)
  qed
qed

lemma auctionLRP_cells:
  obtains "ss_cells (auctionLRP s a t) = ss_cells t"
  | p c where "p \<in> set (zone_ptrs (s_zones s))" "ReserveLRP (ss_cells t p) (la_LRP a) = Inr c"
      "ss_cells (auctionLRP s a t) = (ss_cells t)(p := c)"
  by (rule auctionLRP_placed [of s a t])

lemma auctionTask_cells:
  assumes "auctionTask s a t = Some t'"
  obtains "ss_cells t' = ss_cells t"
  | p c where "p \<in> set (zone_ptrs (s_zones s))" "ReserveTask (ss_cells t p) (ta_Task a) = Inr c"
      "ss_cells t' = (ss_cells t)(p := c)"
  by (rule auctionTask_placed [OF assms])

lemma store_accounted_update:
  "store_accounted base ps st \<Longrightarrow> cell_accounted (base p) c \<Longrightarrow> store_accounted base ps (st(p := c))"
  by (simp add: store_accounted_def)

lemma store_accounted_cell:
  "store_accounted base ps st \<Longrightarrow> p \<in> set ps \<Longrightarrow> cell_accounted (base p) (st p)"
  by (simp add: store_accounted_def)

lemma auctionLRP_accounted:
  assumes "store_accounted base (zone_ptrs (s_zones s)) (ss_cells t)"
    and "Resource_Valid (lrp_Resource (la_LRP a))"
  shows "store_accounted base (zone_ptrs (s_zones s)) (ss_cells (auctionLRP s a t))"
proof (rule auctionLRP_cells [of s a t])
  fix p c
  assume "p \<in> set (zone_ptrs (s_zones s))" and c: "ReserveLRP (ss_cells t p) (la_LRP a) = Inr c"
    and eq: "ss_cells (auctionLRP s a t) = (ss_cells t)(p := c)"
  then have "cell_accounted (base p) c"
    using lrp_res.reserve_accounted [OF store_accounted_cell [OF assms(1)] assms(2) c] by simp
  then show ?thesis unfolding eq by (rule store_accounted_update [OF assms(1)])
qed (simp add: assms(1))

lemma auctionTask_accounted:
  assumes "store_accounted base (zone_ptrs (s_zones s)) (ss_cells t)"
    and "Resource_Valid (task_Resource (ta_Task a))" and "auctionTask s a t = Some t'"
  shows "store_accounted base (zone_ptrs (s_zones s)) (ss_cells t')"
proof (rule auctionTask_cells [OF assms(3)])
  fix p c
  assume "p \<in> set (zone_ptrs (s_zones s))" and c: "ReserveTask (ss_cells t p) (ta_Task a) = Inr c"
    and eq: "ss_cells t' = (ss_cells t)(p := c)"
  then have "cell_accounted (base p) c"
    using task_res.reserve_accounted [OF store_accounted_cell [OF assms(1)] assms(2) c] by simp
  then show ?thesis unfolding eq by (rule store_accounted_update [OF assms(1)])
qed (simp add: assms(1))

definition valid_request :: "AuctionRequest \<Rightarrow> bool" where
  "valid_request req \<longleftrightarrow>
     list_all (\<lambda>a. Resource_Valid (lrp_Resource (la_LRP a))) (req_LRPs req)
     \<and> list_all (\<lambda>a. Resource_Valid (task_Resource (ta_Task a))) (req_Tasks req)"

lemma run_auctions_accounted:
  assumes "run_auctions s st req = Some t3" and "valid_request req"
    and "store_accounted base (zone_ptrs (s_zones s)) st"
  shows "store_accounted base (zone_ptrs (s_zones s)) (ss_cells t3)"
  by (rule run_auctions_inv [where P = "\<lambda>t. store_accounted base (zone_ptrs (s_zones s)) (ss_cells t)", OF assms(1)])
     (use assms(2,3) auctionLRP_accounted auctionTask_accounted
      in \<open>auto simp: valid_request_def list_all_iff\<close>)

subsection \<open>Where the work of a cell comes from\<close>

text \<open>What an auction never changes of a cell, and what the constraints of requests are matched against.\<close>

definition same_cell :: "Cell \<Rightarrow> Cell \<Rightarrow> bool" where
  "same_cell c0 c \<longleftrightarrow> cell_Guid c = cell_Guid c0 \<and> cell_client c = cell_client c0
     \<and> w_CellID (cell_workToCommit c) = w_CellID (cell_workToCommit c0)
     \<and> cs_RootFSProviders (cell_state c) = cs_RootFSProviders (cell_state c0)
     \<and> cs_VolumeDrivers (cell_state c) = cs_VolumeDrivers (cell_state c0)
     \<and> cs_PlacementTags (cell_state c) = cs_PlacementTags (cell_state c0)
     \<and> cs_OptionalPlacementTags (cell_state c) = cs_OptionalPlacementTags (cell_state c0)"

definition work_from :: "AuctionRequest \<Rightarrow> Cell \<Rightarrow> Work \<Rightarrow> bool" where
  "work_from req c w \<longleftrightarrow>
     list_all (\<lambda>l. l \<in> la_LRP ` set (req_LRPs req) \<and> cell_matches (lrp_Constraint l) c) (w_LRPs w)
   \<and> list_all (\<lambda>t. t \<in> ta_Task ` set (req_Tasks req) \<and> cell_matches (task_Constraint t) c) (w_Tasks w)"

lemma same_cell_matches: "same_cell c0 c \<Longrightarrow> cell_matches pc c = cell_matches pc c0"
  by (simp add: same_cell_def cell_matches_def MatchRootFS_def MatchVolumeDrivers_def MatchPlacementTags_def
      CellState_MatchRootFS_def CellState_MatchVolumeDrivers_def CellState_MatchPlacementTags_def
      split: option.split)

definition traced :: "ptr list \<Rightarrow> AuctionRequest \<Rightarrow> cell_store \<Rightarrow> cell_store \<Rightarrow> bool" where
  "traced ps req st0 st \<longleftrightarrow> (\<forall>p \<in> set ps. same_cell (st0 p) (st p) \<and> work_from req (st0 p) (cell_workToCommit (st p)))"

lemma traced_update:
  "traced ps req st0 st \<Longrightarrow> same_cell (st0 p) c \<Longrightarrow> work_from req (st0 p) (cell_workToCommit c) \<Longrightarrow>
     traced ps req st0 (st(p := c))"
  by (simp add: traced_def)

lemma auctionLRP_traced:
  assumes "traced (zone_ptrs (s_zones s)) req st0 (ss_cells t)" and "a \<in> set (req_LRPs req)"
  shows "traced (zone_ptrs (s_zones s)) req st0 (ss_cells (auctionLRP s a t))"
proof (rule auctionLRP_placed [of s a t])
  fix p c
  assume p: "p \<in> set (zone_ptrs (s_zones s))" and m: "cell_matches (lrp_Constraint (la_LRP a)) (ss_cells t p)"
    and c: "ReserveLRP (ss_cells t p) (la_LRP a) = Inr c"
    and eq: "ss_cells (auctionLRP s a t) = (ss_cells t)(p := c)"
  have old: "same_cell (st0 p) (ss_cells t p)" "work_from req (st0 p) (cell_workToCommit (ss_cells t p))"
    using assms(1) p unfolding traced_def by blast+
  then have "same_cell (st0 p) c" "work_from req (st0 p) (cell_workToCommit c)"
    using c m assms(2) same_cell_matches [OF old(1)]
    by (auto simp: ReserveLRP_def same_cell_def work_from_def CellState_AddLRP_def split: option.splits)
  then show ?thesis unfolding eq by (rule traced_update [OF assms(1)])
qed (simp add: assms(1))

lemma auctionTask_traced:
  assumes "traced (zone_ptrs (s_zones s)) req st0 (ss_cells t)" and "a \<in> set (req_Tasks req)" and "auctionTask s a t = Some t'"
  shows "traced (zone_ptrs (s_zones s)) req st0 (ss_cells t')"
proof (rule auctionTask_placed [OF assms(3)])
  fix p c
  assume p: "p \<in> set (zone_ptrs (s_zones s))" and m: "cell_matches (task_Constraint (ta_Task a)) (ss_cells t p)"
    and c: "ReserveTask (ss_cells t p) (ta_Task a) = Inr c"
    and eq: "ss_cells t' = (ss_cells t)(p := c)"
  have old: "same_cell (st0 p) (ss_cells t p)" "work_from req (st0 p) (cell_workToCommit (ss_cells t p))"
    using assms(1) p unfolding traced_def by blast+
  then have "same_cell (st0 p) c" "work_from req (st0 p) (cell_workToCommit c)"
    using c m assms(2) same_cell_matches [OF old(1)]
    by (auto simp: ReserveTask_def same_cell_def work_from_def CellState_AddTask_def split: option.splits)
  then show ?thesis unfolding eq by (rule traced_update [OF assms(1)])
qed (simp add: assms(1))

lemma run_auctions_traced:
  assumes "run_auctions s st req = Some t3" and "traced (zone_ptrs (s_zones s)) req st st"
  shows "traced (zone_ptrs (s_zones s)) req st (ss_cells t3)"
  by (rule run_auctions_inv [where P = "\<lambda>t. traced (zone_ptrs (s_zones s)) req st (ss_cells t)", OF assms(1)])
     (use assms(2) auctionLRP_traced auctionTask_traced in auto)

subsection \<open>The limit on containers in flight\<close>

definition inflight_inv :: "Scheduler \<Rightarrow> int \<Rightarrow> schedule_state \<Rightarrow> bool" where
  "inflight_inv s n0 t \<longleftrightarrow> is_i64 (ss_inflight t)
     \<and> int (length (lg_successful (ss_lrps t)) + length (lg_successful (ss_tasks t))) \<le> ss_inflight t - n0
     \<and> (ss_inflight t = n0 \<or> ss_inflight t \<le> s_startingContainerCountMaximum s)"

lemma length_update_le: "length (AList.update k v xs) \<le> Suc (length xs)"
  by (induction xs) auto

lemma inflight_next:
  assumes "inflight_inv s n0 t" and "\<not> exceededInflightContainerCreation s (ss_inflight t)"
    and "0 < s_startingContainerCountMaximum s" and "is_i64 (s_startingContainerCountMaximum s)"
  shows "i64 (ss_inflight t + 1) = ss_inflight t + 1" and "is_i64 (ss_inflight t + 1)"
    and "ss_inflight t + 1 \<le> s_startingContainerCountMaximum s"
proof -
  show le: "ss_inflight t + 1 \<le> s_startingContainerCountMaximum s"
    using assms(2,3) by (simp add: exceededInflightContainerCreation_def)
  have i: "is_i64 (ss_inflight t)" using assms(1) by (simp add: inflight_inv_def)
  show i1: "is_i64 (ss_inflight t + 1)"
    using i assms(4) le by (simp add: is_i64_def)
  then show "i64 (ss_inflight t + 1) = ss_inflight t + 1" by (rule i64_id)
qed

lemma auctionLRP_inflight:
  assumes "inflight_inv s n0 t"
    and "0 < s_startingContainerCountMaximum s" and "is_i64 (s_startingContainerCountMaximum s)"
  shows "inflight_inv s n0 (auctionLRP s a t)"
proof (cases "exceededInflightContainerCreation s (ss_inflight t)")
  case True
  then show ?thesis using assms(1) by (simp add: auctionLRP_def inflight_inv_def ledger_fail_def)
next
  case False
  note n = inflight_next [OF assms(1) False assms(2,3)]
  show ?thesis
  proof (cases "scheduleLRPAuction s (ss_cells t) a")
    case (Pair r cells)
    show ?thesis
    proof (cases r)
      case (Inl e)
      then show ?thesis using assms(1) False Pair by (simp add: auctionLRP_def inflight_inv_def ledger_fail_def)
    next
      case (Inr w)
      then show ?thesis
        using assms(1) n length_update_le [of "la_id w" w "lg_successful (ss_lrps t)"] False Pair
        by (simp add: auctionLRP_def inflight_inv_def ledger_win_def)
    qed
  qed
qed

lemma auctionTask_inflight:
  assumes "inflight_inv s n0 t" and "auctionTask s a t = Some t'"
    and "0 < s_startingContainerCountMaximum s" and "is_i64 (s_startingContainerCountMaximum s)"
  shows "inflight_inv s n0 t'"
proof (cases "exceededInflightContainerCreation s (ss_inflight t)")
  case True
  then show ?thesis using assms(1,2) by (auto simp: auctionTask_def inflight_inv_def ledger_fail_def)
next
  case False
  note n = inflight_next [OF assms(1) False assms(3,4)]
  show ?thesis
  proof (cases "scheduleTaskAuction s (ss_cells t) a (s_startingContainerWeight s)")
    case (Pair r cells)
    show ?thesis
    proof (cases r)
      case (Inl e)
      then show ?thesis using assms(1,2) False Pair by (auto simp: auctionTask_def inflight_inv_def ledger_fail_def)
    next
      case (Inr w)
      then show ?thesis
        using assms(1,2) False n Pair length_update_le [of "ta_id (the w)" "the w" "lg_successful (ss_tasks t)"]
        by (cases w) (auto simp: auctionTask_def inflight_inv_def ledger_win_def)
    qed
  qed
qed

lemma is_i64_inflight_starts: "is_i64 (inflight_starts s st)"
proof -
  have "is_i64 n \<Longrightarrow> is_i64 (fold (\<lambda>p n. i64 (n + StartingContainerCount (st p))) ps n)" for ps n
    by (induction ps arbitrary: n) (simp_all add: i64_range)
  moreover have "is_i64 0" by (simp add: is_i64_def)
  ultimately show ?thesis by (simp add: inflight_starts_def)
qed

lemma inflight_start:
  "is_i64 n \<Longrightarrow> inflight_inv s n \<lparr>ss_cells = st, ss_inflight = n, ss_lrps = empty_ledger, ss_tasks = empty_ledger\<rparr>"
  by (simp add: inflight_inv_def empty_ledger_def)

lemma run_auctions_inflight:
  assumes "run_auctions s st req = Some t3"
    and "0 < s_startingContainerCountMaximum s" and "is_i64 (s_startingContainerCountMaximum s)"
  shows "inflight_inv s (inflight_starts s st) t3"
  by (rule run_auctions_inv [where P = "inflight_inv s (inflight_starts s st)", OF assms(1)])
     (use assms(2,3) auctionLRP_inflight auctionTask_inflight is_i64_inflight_starts inflight_start in blast)+

subsection \<open>The ledgers\<close>

text \<open>
  A ledger accounts for the identifiers \<open>D\<close> seen so far: each is successful or has failed, and
  each can be looked up.
\<close>

definition ledger_inv :: "('a \<Rightarrow> string) \<Rightarrow> string multiset \<Rightarrow> 'a ledger \<Rightarrow> bool" where
  "ledger_inv key D lg \<longleftrightarrow>
     distinct (map fst (lg_successful lg))
     \<and> (\<forall>(k, a) \<in> set (lg_successful lg). key a = k)
     \<and> mset (map fst (lg_successful lg)) + mset (map key (lg_failed lg)) = D
     \<and> (\<forall>k \<in># D. \<exists>a. map_of (lg_lookup lg) k = Some a \<and> key a = k)"

lemma ledger_inv_empty: "ledger_inv key {#} empty_ledger"
  by (simp add: ledger_inv_def empty_ledger_def)

lemma mset_remove_distinct:
  "distinct xs \<Longrightarrow> k \<in> set xs \<Longrightarrow> add_mset k (mset (filter (\<lambda>x. x \<noteq> k) xs)) = mset xs"
proof (induction xs)
  case (Cons x xs)
  have "x = k \<Longrightarrow> filter (\<lambda>x. x \<noteq> k) xs = xs" using Cons.prems by (auto simp: filter_id_conv)
  then have "x = k \<Longrightarrow> mset (filter (\<lambda>x. x \<noteq> k) xs) = mset xs" by simp
  with Cons show ?case by (cases "x = k") (auto simp del: mset_filter)
qed simp

lemma ledger_absorb_all_append:
  "ledger_absorb_all (ks @ js) lg =
     (case ledger_absorb_all ks lg of None \<Rightarrow> None | Some lg' \<Rightarrow> ledger_absorb_all js lg')"
  by (induction ks arbitrary: lg) (auto split: option.split)

lemma ledger_inv_keys:
  assumes "ledger_inv key D lg"
  shows "set_mset D = fst ` set (lg_successful lg) \<union> key ` set (lg_failed lg)"
proof -
  have "D = mset (map fst (lg_successful lg) @ map key (lg_failed lg))"
    using assms by (simp add: ledger_inv_def)
  then show ?thesis by (simp only: set_mset_mset set_append set_map)
qed

locale auction_kind =
  fixes key :: "'a \<Rightarrow> string"
    and fail :: "auction_error \<Rightarrow> 'a \<Rightarrow> 'a"
    and won :: "'a \<Rightarrow> string \<Rightarrow> 'a"
    and on_record :: "(AuctionRecord \<Rightarrow> AuctionRecord) \<Rightarrow> 'a \<Rightarrow> 'a"
  assumes key_fail [simp]: "key (fail e a) = key a"
    and key_won [simp]: "key (won a g) = key a"
    and key_on_record [simp]: "key (on_record f a) = key a"
begin

lemma fail_inv:
  assumes "ledger_inv key D lg"
  shows "ledger_inv key (add_mset (key a) D) (ledger_fail (key a) (fail e a) lg)"
  using assms by (auto simp: ledger_inv_def ledger_fail_def)

lemma win_inv:
  assumes "ledger_inv key D lg" and "key a \<notin># D"
  shows "ledger_inv key (add_mset (key a) D) (ledger_win (key a) a (key (won a g)) (won a g) lg)"
    and "lg_successful (ledger_win (key a) a (key (won a g)) (won a g) lg) =
      lg_successful lg @ [(key a, won a g)]"
proof -
  note ledger_inv_keys [OF assms(1)]
  then have "key a \<notin> fst ` set (lg_successful lg)" using assms(2) by blast
  then show eq: "lg_successful (ledger_win (key a) a (key (won a g)) (won a g) lg) =
      lg_successful lg @ [(key a, won a g)]"
    by (simp add: ledger_win_def update_fresh)
  show "ledger_inv key (add_mset (key a) D) (ledger_win (key a) a (key (won a g)) (won a g) lg)"
    using assms \<open>key a \<notin> fst ` set (lg_successful lg)\<close> unfolding ledger_inv_def eq
    by (auto simp: ledger_win_def)
qed

lemma absorb_inv:
  assumes "ledger_inv key D lg" and "k \<in> fst ` set (lg_successful lg)"
  obtains lg' where "ledger_absorb k lg = Some lg'" "ledger_inv key D lg'"
    "lg_successful lg' = AList.delete k (lg_successful lg)"
proof -
  note ledger_inv_keys [OF assms(1)]
  then have kD: "k \<in># D" using assms(2) by blast
  then obtain a where a: "map_of (lg_lookup lg) k = Some a" "key a = k"
    using assms(1) by (auto simp: ledger_inv_def)
  let ?lg = "lg\<lparr>lg_successful := AList.delete k (lg_successful lg), lg_failed := lg_failed lg @ [a]\<rparr>"
  have d: "distinct (map fst (lg_successful lg))"
    and m: "mset (map fst (lg_successful lg)) + mset (map key (lg_failed lg)) = D"
    and l: "\<forall>k \<in># D. \<exists>a. map_of (lg_lookup lg) k = Some a \<and> key a = k"
    and ka: "\<forall>(k, a) \<in> set (lg_successful lg). key a = k"
    using assms(1) by (simp_all add: ledger_inv_def)
  have "add_mset k (mset (map fst (AList.delete k (lg_successful lg)))) = mset (map fst (lg_successful lg))"
    using mset_remove_distinct [OF d, of k] assms(2) by (simp only: delete_keys set_map)
  then have "mset (map fst (AList.delete k (lg_successful lg))) + mset (map key (lg_failed lg @ [a])) = D"
    using m a(2) by auto
  moreover have "distinct (map fst (AList.delete k (lg_successful lg)))"
    using d by (simp only: delete_keys distinct_filter)
  moreover have "\<forall>(k', a') \<in> set (AList.delete k (lg_successful lg)). key a' = k'"
    using ka by (auto simp: set_delete)
  ultimately have "ledger_inv key D ?lg"
    using l unfolding ledger_inv_def by simp
  then show ?thesis using that [of ?lg] a by (simp add: ledger_absorb_def)
qed

lemma absorb_all_inv:
  assumes "ledger_inv key D lg" and "distinct ks" and "set ks \<subseteq> fst ` set (lg_successful lg)"
  shows "\<exists>lg'. ledger_absorb_all ks lg = Some lg' \<and> ledger_inv key D lg'
           \<and> fst ` set (lg_successful lg') = fst ` set (lg_successful lg) - set ks"
  using assms
proof (induction ks arbitrary: lg)
  case (Cons k ks)
  obtain lg1 where 1: "ledger_absorb k lg = Some lg1" "ledger_inv key D lg1"
    "lg_successful lg1 = AList.delete k (lg_successful lg)"
    using absorb_inv [OF Cons.prems(1), of k] Cons.prems(3) by auto
  have keys: "fst ` set (lg_successful lg1) = fst ` set (lg_successful lg) - {k}"
    by (auto simp: 1(3) set_delete image_iff)
  have "set ks \<subseteq> fst ` set (lg_successful lg1)"
    using Cons.prems unfolding keys by auto
  from Cons.IH [OF 1(2) _ this] Cons.prems(2) show ?case
    using 1(1) by (auto simp: keys)
qed simp

lemma results_conserved:
  assumes "ledger_inv key D lg"
  shows "mset (map key (map (on_record f) (map snd (lg_successful lg)) @ map (on_record g) (lg_failed lg))) = D"
proof -
  have "map (key \<circ> snd) (lg_successful lg) = map fst (lg_successful lg)"
    using assms by (auto simp: ledger_inv_def)
  then have "map key (map (on_record f) (map snd (lg_successful lg))) = map fst (lg_successful lg)"
    by simp
  then have "mset (map key (map (on_record f) (map snd (lg_successful lg)))) = mset (map fst (lg_successful lg))"
    by (simp only:)
  moreover have "mset (map key (map (on_record g) (lg_failed lg))) = mset (map key (lg_failed lg))"
    by (simp add: comp_def)
  ultimately show ?thesis using assms by (simp add: ledger_inv_def)
qed

end

interpretation lrp_kind: auction_kind la_id LRPAuction_fail LRPAuction_won on_lrp_record
  by unfold_locales
     (simp_all add: LRPAuction_fail_def LRPAuction_won_def LRPAuction_Copy_def on_lrp_record_def Let_def)

interpretation task_kind: auction_kind ta_id TaskAuction_fail TaskAuction_won on_task_record
  by unfold_locales
     (simp_all add: TaskAuction_fail_def TaskAuction_won_def TaskAuction_Copy_def on_task_record_def Let_def)

subsection \<open>The work that waits to be committed\<close>

definition committed :: "(Work \<Rightarrow> string list) \<Rightarrow> ptr list \<Rightarrow> cell_store \<Rightarrow> string multiset" where
  "committed ids ps st = (\<Sum>p \<leftarrow> ps. mset (ids (cell_workToCommit (st p))))"

abbreviation lrp_ids :: "Work \<Rightarrow> string list" where
  "lrp_ids w \<equiv> map LRP_Identifier (w_LRPs w)"

abbreviation task_ids :: "Work \<Rightarrow> string list" where
  "task_ids w \<equiv> map Task_Identifier (w_Tasks w)"

lemma committed_outside: "p \<notin> set ps \<Longrightarrow> committed ids ps (st(p := c)) = committed ids ps st"
  by (induction ps) (auto simp: committed_def)

lemma committed_update:
  assumes "distinct ps" and "p \<in> set ps"
    and "mset (ids (cell_workToCommit c)) = mset (ids (cell_workToCommit (st p))) + m"
  shows "committed ids ps (st(p := c)) = committed ids ps st + m"
  using assms
proof (induction ps)
  case (Cons q ps)
  show ?case
  proof (cases "q = p")
    case True
    then show ?thesis
      using Cons.prems committed_outside [of p ps ids st c] by (simp add: committed_def)
  next
    case False
    then show ?thesis using Cons by (simp add: committed_def)
  qed
qed simp

text \<open>The law of a rep: what it returns as failed is part of what it was sent.\<close>

definition returns_part :: "(client \<Rightarrow> Work \<Rightarrow> Work option) \<Rightarrow> bool" where
  "returns_part Perform \<longleftrightarrow>
     (\<forall>cl w failed. Perform cl w = Some failed \<longrightarrow>
        mset (lrp_ids failed) \<subseteq># mset (lrp_ids w) \<and> mset (task_ids failed) \<subseteq># mset (task_ids w))"

lemma Commit_part:
  assumes "returns_part Perform"
  shows "mset (lrp_ids (Commit Perform c)) \<subseteq># mset (lrp_ids (cell_workToCommit c))"
    and "mset (task_ids (Commit Perform c)) \<subseteq># mset (task_ids (cell_workToCommit c))"
  using assms by (auto simp: Commit_def returns_part_def empty_work_def split: option.split)

lemma sum_list_mset_mono:
  "(\<And>p. p \<in> set ps \<Longrightarrow> f p \<subseteq># g p) \<Longrightarrow> (\<Sum>p \<leftarrow> ps. f p) \<subseteq># (\<Sum>p \<leftarrow> ps. (g p :: 'a multiset))"
  by (induction ps) (auto intro: subset_mset.add_mono)

lemma mset_concat_map: "mset (concat (map f ps)) = (\<Sum>p \<leftarrow> ps. mset (f p))"
  by (induction ps) auto

lemma sum_list_perm:
  "mset xs = mset ys \<Longrightarrow> (\<Sum>x \<leftarrow> xs. f x) = (\<Sum>x \<leftarrow> ys. (f x :: 'a multiset))"
  by (metis mset_map sum_mset_sum_list)

lemma commitCells_part:
  assumes "returns_part Perform" and "\<And>ps. mset (order ps) = mset ps"
  shows "mset (concat (map lrp_ids (commitCells Perform order s st)))
           \<subseteq># committed lrp_ids (zone_ptrs (s_zones s)) st"
    and "mset (concat (map task_ids (commitCells Perform order s st)))
           \<subseteq># committed task_ids (zone_ptrs (s_zones s)) st"
  unfolding commitCells_def committed_def map_map mset_concat_map comp_def
    sum_list_perm [OF assms(2) [of "zone_ptrs (s_zones s)", symmetric]]
  by (rule sum_list_mset_mono, rule Commit_part [OF assms(1)])+

lemma distinct_sub_mset: "mset xs \<subseteq># mset ys \<Longrightarrow> distinct ys \<Longrightarrow> distinct xs"
  by (metis distinct_append mset_eq_imp_distinct_iff mset_subset_eq_exists_conv subset_mset.add_diff_inverse
      ex_mset mset_append)

subsection \<open>Conservation\<close>

definition conserved ::
  "Scheduler \<Rightarrow> string multiset \<Rightarrow> string multiset \<Rightarrow> schedule_state \<Rightarrow> bool" where
  "conserved s DL DT t \<longleftrightarrow>
     ledger_inv la_id DL (ss_lrps t) \<and> ledger_inv ta_id DT (ss_tasks t)
     \<and> committed lrp_ids (zone_ptrs (s_zones s)) (ss_cells t) = mset (map fst (lg_successful (ss_lrps t)))
     \<and> committed task_ids (zone_ptrs (s_zones s)) (ss_cells t) = mset (map fst (lg_successful (ss_tasks t)))"

lemma lg_successful_fail [simp]: "lg_successful (ledger_fail k a lg) = lg_successful lg"
  by (simp add: ledger_fail_def)

lemma auctionLRP_conserved:
  assumes c: "conserved s DL DT t" and fresh: "la_id a \<notin># DL" and d: "distinct (zone_ptrs (s_zones s))"
  shows "conserved s (add_mset (la_id a) DL) DT (auctionLRP s a t)"
proof (cases "exceededInflightContainerCreation s (ss_inflight t)")
  case True
  then show ?thesis
    using c lrp_kind.fail_inv [of DL "ss_lrps t" a] by (simp add: conserved_def auctionLRP_def)
next
  case False
  obtain r cells where r: "scheduleLRPAuction s (ss_cells t) a = (r, cells)" by fastforce
  show ?thesis
  proof (cases r)
    case (Inl e)
    then have "cells = ss_cells t" using r scheduleLRPAuction_Inl by blast
    then show ?thesis
      using c False r Inl lrp_kind.fail_inv [of DL "ss_lrps t" a e] by (simp add: conserved_def auctionLRP_def)
  next
    case (Inr w)
    then obtain name z p c' where p: "(name, z) \<in> set (s_zones s)" "p \<in> set z"
      and res: "ReserveLRP (ss_cells t p) (la_LRP a) = Inr c'" "cells = (ss_cells t)(p := c')"
      and w: "w = LRPAuction_won a (cell_Guid (ss_cells t p))"
      using scheduleLRPAuction_Inr [OF r [unfolded Inr]] by metis
    have pin: "p \<in> set (zone_ptrs (s_zones s))" using p by force
    have "committed lrp_ids (zone_ptrs (s_zones s)) cells
        = committed lrp_ids (zone_ptrs (s_zones s)) (ss_cells t) + {#la_id a#}"
      unfolding res(2) by (rule committed_update [OF d pin]) (simp add: ReserveLRP_work [OF res(1)])
    moreover have "committed task_ids (zone_ptrs (s_zones s)) cells
        = committed task_ids (zone_ptrs (s_zones s)) (ss_cells t) + {#}"
      unfolding res(2) by (rule committed_update [OF d pin]) (simp add: ReserveLRP_work [OF res(1)])
    moreover have "ledger_inv la_id DL (ss_lrps t)" using c by (simp add: conserved_def)
    note win = lrp_kind.win_inv [OF this fresh, of "cell_Guid (ss_cells t p)", folded w]
    ultimately show ?thesis
      using c False r Inr win by (simp add: conserved_def auctionLRP_def)
  qed
qed

lemma auctionTask_conserved:
  assumes c: "conserved s DL DT t" and fresh: "ta_id a \<notin># DT" and d: "distinct (zone_ptrs (s_zones s))"
    and z: "s_zones s \<noteq> []"
  shows "\<exists>t'. auctionTask s a t = Some t' \<and> conserved s DL (add_mset (ta_id a) DT) t'"
proof (cases "exceededInflightContainerCreation s (ss_inflight t)")
  case True
  then show ?thesis
    using c task_kind.fail_inv [of DT "ss_tasks t" a] by (simp add: conserved_def auctionTask_def)
next
  case False
  obtain r cells where r: "scheduleTaskAuction s (ss_cells t) a (s_startingContainerWeight s) = (r, cells)"
    by fastforce
  consider e where "r = Inl e" | w where "r = Inr (Some w)"
    using scheduleTaskAuction_not_nil [OF z] r by (metis option.exhaust sum.exhaust)
  then show ?thesis
  proof cases
    case (1 e)
    then have "cells = ss_cells t" using r scheduleTaskAuction_Inl by blast
    then show ?thesis
      using c False r 1 task_kind.fail_inv [of DT "ss_tasks t" a e] by (simp add: conserved_def auctionTask_def)
  next
    case (2 w)
    then obtain name z p c' where p: "(name, z) \<in> set (s_zones s)" "p \<in> set z"
      and res: "ReserveTask (ss_cells t p) (ta_Task a) = Inr c'" "cells = (ss_cells t)(p := c')"
      and w: "w = TaskAuction_won a (cell_Guid (ss_cells t p))"
      using scheduleTaskAuction_Inr [OF r [unfolded 2]] by metis
    have pin: "p \<in> set (zone_ptrs (s_zones s))" using p by force
    have "committed task_ids (zone_ptrs (s_zones s)) cells
        = committed task_ids (zone_ptrs (s_zones s)) (ss_cells t) + {#ta_id a#}"
      unfolding res(2) by (rule committed_update [OF d pin]) (simp add: ReserveTask_work [OF res(1)])
    moreover have "committed lrp_ids (zone_ptrs (s_zones s)) cells
        = committed lrp_ids (zone_ptrs (s_zones s)) (ss_cells t) + {#}"
      unfolding res(2) by (rule committed_update [OF d pin]) (simp add: ReserveTask_work [OF res(1)])
    moreover have "ledger_inv ta_id DT (ss_tasks t)" using c by (simp add: conserved_def)
    note win = task_kind.win_inv [OF this fresh, of "cell_Guid (ss_cells t p)", folded w]
    ultimately show ?thesis
      using c False r 2 win by (simp add: conserved_def auctionTask_def)
  qed
qed

lemma fold_auctionLRP_conserved:
  "conserved s DL DT t \<Longrightarrow> distinct (map la_id as) \<Longrightarrow> set (map la_id as) \<inter> set_mset DL = {} \<Longrightarrow>
     distinct (zone_ptrs (s_zones s)) \<Longrightarrow>
     conserved s (DL + mset (map la_id as)) DT (fold (auctionLRP s) as t)"
proof (induction as arbitrary: t DL)
  case (Cons a as)
  have "conserved s (add_mset (la_id a) DL) DT (auctionLRP s a t)"
    by (rule auctionLRP_conserved) (use Cons.prems in auto)
  from Cons.IH [OF this] Cons.prems show ?case by auto
qed simp

lemma auctionTasks_conserved:
  "conserved s DL DT t \<Longrightarrow> distinct (map ta_id as) \<Longrightarrow> set (map ta_id as) \<inter> set_mset DT = {} \<Longrightarrow>
     distinct (zone_ptrs (s_zones s)) \<Longrightarrow> s_zones s \<noteq> [] \<Longrightarrow>
     \<exists>t'. auctionTasks s as t = Some t' \<and> conserved s DL (DT + mset (map ta_id as)) t'"
proof (induction as arbitrary: t DT)
  case (Cons a as)
  obtain t1 where t1: "auctionTask s a t = Some t1" "conserved s DL (add_mset (ta_id a) DT) t1"
    using auctionTask_conserved [OF Cons.prems(1), of a] Cons.prems by auto
  from Cons.IH [OF t1(2)] Cons.prems t1(1) show ?case by auto
qed simp

definition idle_cells :: "ptr list \<Rightarrow> cell_store \<Rightarrow> bool" where
  "idle_cells ps st \<longleftrightarrow>
     list_all (\<lambda>p. w_LRPs (cell_workToCommit (st p)) = [] \<and> w_Tasks (cell_workToCommit (st p)) = []) ps"

lemma idle_committed:
  "idle_cells ps st \<Longrightarrow> committed lrp_ids ps st = {#} \<and> committed task_ids ps st = {#}"
  by (induction ps) (auto simp: idle_cells_def committed_def)

lemma run_auctions_conserved:
  assumes z: "s_zones s \<noteq> []" and d: "distinct (zone_ptrs (s_zones s))"
    and idle: "idle_cells (zone_ptrs (s_zones s)) st"
    and dl: "distinct (map la_id (req_LRPs req))" and dt: "distinct (map ta_id (req_Tasks req))"
  shows "\<exists>t3. run_auctions s st req = Some t3
           \<and> conserved s (mset (map la_id (req_LRPs req))) (mset (map ta_id (req_Tasks req))) t3"
proof -
  let ?l = "go_sort LRPAuction_Less (req_LRPs req)" and ?t = "go_sort TaskAuction_Less (req_Tasks req)"
  let ?init = "\<lparr>ss_cells = st, ss_inflight = inflight_starts s st, ss_lrps = empty_ledger, ss_tasks = empty_ledger\<rparr>"
  have ml: "mset (map la_id ?l) = mset (map la_id (req_LRPs req))"
    and mt: "mset (map ta_id ?t) = mset (map ta_id (req_Tasks req))"
    by (simp_all only: mset_map mset_go_sort)
  have sp: "map la_id (fst (splitLRPS ?l)) @ map la_id (snd (splitLRPS ?l)) = map la_id ?l"
    by (metis map_append splitLRPS_append)
  have d2: "distinct (map la_id (fst (splitLRPS ?l)) @ map la_id (snd (splitLRPS ?l)))"
    unfolding sp using mset_eq_imp_distinct_iff [OF ml] dl by simp
  have dt2: "distinct (map ta_id ?t)" using mset_eq_imp_distinct_iff [OF mt] dt by simp
  have "conserved s {#} {#} ?init"
    using idle_committed [OF idle] by (simp add: conserved_def ledger_inv_empty) (simp add: empty_ledger_def)
  from fold_auctionLRP_conserved [OF this _ _ d, of "fst (splitLRPS ?l)"] d2
  have 1: "conserved s (mset (map la_id (fst (splitLRPS ?l)))) {#} (fold (auctionLRP s) (fst (splitLRPS ?l)) ?init)"
    by simp
  obtain t2 where t2: "auctionTasks s ?t (fold (auctionLRP s) (fst (splitLRPS ?l)) ?init) = Some t2"
    and c2: "conserved s (mset (map la_id (fst (splitLRPS ?l)))) (mset (map ta_id ?t)) t2"
    using auctionTasks_conserved [OF 1 dt2 _ d z] by auto
  have "conserved s (mset (map la_id (fst (splitLRPS ?l))) + mset (map la_id (snd (splitLRPS ?l))))
      (mset (map ta_id ?t)) (fold (auctionLRP s) (snd (splitLRPS ?l)) t2)"
    by (rule fold_auctionLRP_conserved [OF c2 _ _ d]) (use d2 in auto)
  then have "conserved s (mset (map la_id (req_LRPs req))) (mset (map ta_id (req_Tasks req)))
      (fold (auctionLRP s) (snd (splitLRPS ?l)) t2)"
    by (simp only: mset_append [symmetric] sp ml mt)
  then show ?thesis using t2 by (auto simp: run_auctions_def Let_def)
qed

lemma absorb_works_all:
  "ledger_absorb_all (concat (map lrp_ids ws)) l = Some l' \<Longrightarrow>
   ledger_absorb_all (concat (map task_ids ws)) t = Some t' \<Longrightarrow> absorb_works ws (l, t) = Some (l', t')"
  by (induction ws arbitrary: l t) (auto simp: ledger_absorb_all_append split: option.splits)

lemma ledger_absorb_all_shrinks:
  "ledger_absorb_all ks lg = Some lg' \<Longrightarrow> length (lg_successful lg') \<le> length (lg_successful lg)"
proof (induction ks arbitrary: lg)
  case (Cons k ks)
  then obtain lg1 where 1: "ledger_absorb k lg = Some lg1" "ledger_absorb_all ks lg1 = Some lg'"
    by (auto split: option.splits)
  then have "length (lg_successful lg1) \<le> length (lg_successful lg)"
    by (auto simp: ledger_absorb_def length_delete_le split: option.splits)
  then show ?case using Cons.IH [OF 1(2)] by simp
qed simp

lemma absorb_works_shrinks:
  "absorb_works ws (l, t) = Some (l', t') \<Longrightarrow>
     length (lg_successful l') \<le> length (lg_successful l) \<and> length (lg_successful t') \<le> length (lg_successful t)"
proof (induction ws arbitrary: l t)
  case (Cons w ws)
  then obtain l1 t1 where "ledger_absorb_all (lrp_ids w) l = Some l1" "ledger_absorb_all (task_ids w) t = Some t1"
    "absorb_works ws (l1, t1) = Some (l', t')"
    by (auto split: option.splits)
  then show ?case using Cons.IH ledger_absorb_all_shrinks by (meson order.trans)
qed simp

lemma Schedule_conserved:
  assumes z: "s_zones s \<noteq> []" and d: "distinct (zone_ptrs (s_zones s))"
    and idle: "idle_cells (zone_ptrs (s_zones s)) st"
    and dl: "distinct (map la_id (req_LRPs req))" and dt: "distinct (map ta_id (req_Tasks req))"
    and rep: "returns_part Perform" and order: "\<And>ps. mset (order ps) = mset ps"
  shows "\<exists>r st'. Schedule s Perform order st req = Some (r, st')
    \<and> mset (map la_id (SuccessfulLRPs r @ FailedLRPs r)) = mset (map la_id (req_LRPs req))
    \<and> mset (map ta_id (SuccessfulTasks r @ FailedTasks r)) = mset (map ta_id (req_Tasks req))"
proof -
  obtain t3 where t3: "run_auctions s st req = Some t3"
    and c: "conserved s (mset (map la_id (req_LRPs req))) (mset (map ta_id (req_Tasks req))) t3"
    using run_auctions_conserved [OF z d idle dl dt] by blast
  let ?ws = "commitCells Perform order s (ss_cells t3)"
  have invs: "ledger_inv la_id (mset (map la_id (req_LRPs req))) (ss_lrps t3)"
    "ledger_inv ta_id (mset (map ta_id (req_Tasks req))) (ss_tasks t3)"
    using c by (simp_all add: conserved_def)
  have sub: "mset (concat (map lrp_ids ?ws)) \<subseteq># mset (map fst (lg_successful (ss_lrps t3)))"
    "mset (concat (map task_ids ?ws)) \<subseteq># mset (map fst (lg_successful (ss_tasks t3)))"
    using commitCells_part [of Perform order s "ss_cells t3", OF rep order] c by (simp_all only: conserved_def)
  have dist: "distinct (map fst (lg_successful (ss_lrps t3)))" "distinct (map fst (lg_successful (ss_tasks t3)))"
    using invs by (simp_all add: ledger_inv_def)
  have sets: "set (concat (map lrp_ids ?ws)) \<subseteq> fst ` set (lg_successful (ss_lrps t3))"
    "set (concat (map task_ids ?ws)) \<subseteq> fst ` set (lg_successful (ss_tasks t3))"
    using set_mset_mono [OF sub(1)] set_mset_mono [OF sub(2)] by (simp_all only: set_mset_mset set_map)
  obtain l' where l': "ledger_absorb_all (concat (map lrp_ids ?ws)) (ss_lrps t3) = Some l'"
    "ledger_inv la_id (mset (map la_id (req_LRPs req))) l'"
    using lrp_kind.absorb_all_inv [OF invs(1) distinct_sub_mset [OF sub(1) dist(1)] sets(1)] by blast
  obtain t' where t': "ledger_absorb_all (concat (map task_ids ?ws)) (ss_tasks t3) = Some t'"
    "ledger_inv ta_id (mset (map ta_id (req_Tasks req))) t'"
    using task_kind.absorb_all_inv [OF invs(2) distinct_sub_mset [OF sub(2) dist(2)] sets(2)] by blast
  have "Schedule s Perform order st req = Some (results_of s l' t', ss_cells t3)"
    using absorb_works_all [OF l'(1) t'(1)] by (simp add: Schedule_unfold [OF z] t3)
  moreover have "mset (map la_id (SuccessfulLRPs (results_of s l' t') @ FailedLRPs (results_of s l' t')))
      = mset (map la_id (req_LRPs req))"
    unfolding results_of_def markResults_def AuctionResults.simps by (rule lrp_kind.results_conserved [OF l'(2)])
  moreover have "mset (map ta_id (SuccessfulTasks (results_of s l' t') @ FailedTasks (results_of s l' t')))
      = mset (map ta_id (req_Tasks req))"
    unfolding results_of_def markResults_def AuctionResults.simps by (rule task_kind.results_conserved [OF t'(2)])
  ultimately show ?thesis by blast
qed

text \<open>Without zones every request fails, so the conclusion holds there too.\<close>

lemma Schedule_conserved_any:
  assumes "distinct (zone_ptrs (s_zones s))" and "idle_cells (zone_ptrs (s_zones s)) st"
    and "distinct (map la_id (req_LRPs req))" and "distinct (map ta_id (req_Tasks req))"
    and "returns_part Perform" and "\<And>ps. mset (order ps) = mset ps"
  shows "\<exists>r st'. Schedule s Perform order st req = Some (r, st')
    \<and> mset (map la_id (SuccessfulLRPs r @ FailedLRPs r)) = mset (map la_id (req_LRPs req))
    \<and> mset (map ta_id (SuccessfulTasks r @ FailedTasks r)) = mset (map ta_id (req_Tasks req))"
proof (cases "s_zones s = []")
  case True
  then show ?thesis
    by (simp add: Schedule_def markResults_def multiset.map_comp comp_def)
next
  case False
  then show ?thesis by (rule Schedule_conserved [OF _ assms])
qed

lemma built_idle:
  assumes "fetchStateAndBuildZones State clients weight = (zs, st)"
  shows "idle_cells (zone_ptrs zs) st"
  unfolding idle_cells_def list_all_iff
proof
  let ?un = "\<lambda>c::Cell. c\<lparr>cell_Index := 0\<rparr>" and ?acc = "List.map_filter (accepted_cell State) clients"
  fix p assume "p \<in> set (zone_ptrs zs)"
  then have "?un (st p) \<in># mset (map (\<lambda>p. ?un (st p)) (zone_ptrs zs))" by auto
  then obtain c where c: "c \<in> set ?acc" "?un (st p) = ?un c"
    unfolding fetchStateAndBuildZones_facts(2) [OF assms] by auto
  then have "cell_workToCommit (?un (st p)) = cell_workToCommit (?un c)" by (simp only:)
  moreover obtain gc where "accepted_cell State gc = Some c"
    using c(1) by (auto simp: map_filter_def)
  ultimately show "w_LRPs (cell_workToCommit (st p)) = [] \<and> w_Tasks (cell_workToCommit (st p)) = []"
    using accepted_cell_idle [of State gc c] by simp
qed

lemma built_cell:
  assumes "fetchStateAndBuildZones State clients weight = (zs, st)" and "p \<in> set (zone_ptrs zs)"
  obtains guid state where "(guid, cell_client (st p)) \<in> set clients" and "State (cell_client (st p)) = Some state"
    and "\<not> cs_Evacuating state" and "cs_CellID state \<in> {[], guid}" and "cell_state (st p) = state"
    and "cell_Guid (st p) = guid" and "w_CellID (cell_workToCommit (st p)) = guid"
proof -
  let ?un = "\<lambda>c::Cell. c\<lparr>cell_Index := 0\<rparr>" and ?acc = "List.map_filter (accepted_cell State) clients"
  have "?un (st p) \<in># mset (map (\<lambda>p. ?un (st p)) (zone_ptrs zs))" using assms(2) by auto
  then obtain c where c: "c \<in> set ?acc" "?un (st p) = ?un c"
    unfolding fetchStateAndBuildZones_facts(2) [OF assms(1)] by auto
  then obtain gc where gc: "gc \<in> set clients" "accepted_cell State gc = Some c" by (auto simp: map_filter_def)
  have "cell_client (st p) = cell_client c" "cell_state (st p) = cell_state c" "cell_Guid (st p) = cell_Guid c"
      "cell_workToCommit (st p) = cell_workToCommit c"
    using arg_cong [OF c(2), of cell_client] arg_cong [OF c(2), of cell_state] arg_cong [OF c(2), of cell_Guid]
      arg_cong [OF c(2), of cell_workToCommit] by simp_all
  moreover obtain guid cl where "gc = (guid, cl)" by fastforce
  ultimately show thesis
    using gc that by (auto simp: accepted_cell_def NewCell_def split: option.splits if_splits)
qed

lemma absorb_empty:
  assumes "list_all (\<lambda>w. w_LRPs w = [] \<and> w_Tasks w = []) ws"
  shows "absorb_works ws (l, t) = Some (l, t)"
proof -
  have "concat (map lrp_ids ws) = []" "concat (map task_ids ws) = []" using assms by (auto simp: list_all_iff)
  then show ?thesis by (intro absorb_works_all) (simp_all only: ledger_absorb_all.simps)
qed

lemma committed_member: "p \<in> set ps \<Longrightarrow> mset (ids (cell_workToCommit (st p))) \<subseteq># committed ids ps st"
  by (induction ps) (auto simp: committed_def intro: subset_mset.add_increasing subset_mset.add_increasing2)

lemma committed_distinct:
  assumes "conserved s DL DT t" and "p \<in> set (zone_ptrs (s_zones s))"
  shows "distinct (task_ids (cell_workToCommit (ss_cells t p)))"
proof -
  have "mset (task_ids (cell_workToCommit (ss_cells t p))) \<subseteq># mset (map fst (lg_successful (ss_tasks t)))"
    using committed_member [OF assms(2), of task_ids "ss_cells t"] assms(1) by (simp add: conserved_def)
  moreover have "distinct (map fst (lg_successful (ss_tasks t)))"
    using assms(1) by (simp add: conserved_def ledger_inv_def)
  ultimately show ?thesis by (rule distinct_sub_mset)
qed

end
