(* ===== verification/Auction_Properties.thy ===== *)
theory Auction_Properties
  imports Auction_Conservation
begin

section \<open>Properties of the auction\<close>

text \<open>
  The properties of the scheduler, of the zones and of the builder, stated over the definitions
  of the code, with a small deployment on which their hypotheses hold: two zones, three cells
  of 512 MB, and requests for two instances of one process and for one task.
\<close>

subsection \<open>A deployment\<close>

definition dep_resources :: Resources where
  "dep_resources = \<lparr>rs_MemoryMB = 512, rs_DiskMB = 1024, rs_Containers = 8\<rparr>"

definition dep_state :: "string \<Rightarrow> int \<Rightarrow> CellState" where
  "dep_state zone index =
     \<lparr>cs_RepURL = [], cs_CellID = [], cs_CellIndex = index,
      cs_RootFSProviders = [(''preloaded'', FixedSetRootFSProvider [''cflinuxfs4''])],
      cs_AvailableResources = dep_resources, cs_TotalResources = dep_resources,
      cs_LRPs = [], cs_Tasks = [], cs_StartingContainerCount = 0, cs_Zone = zone,
      cs_Evacuating = False, cs_VolumeDrivers = [], cs_PlacementTags = [],
      cs_OptionalPlacementTags = [], cs_ProxyMemoryAllocationMB = 5\<rparr>"

definition dep_clients :: "(string \<times> client) list" where
  "dep_clients = [(''cell-a'', 0), (''cell-b'', 1), (''cell-c'', 2)]"

definition dep_State :: "client \<Rightarrow> CellState option" where
  "dep_State cl = Some (dep_state (if cl = 2 then ''z2'' else ''z1'') (int cl))"

definition dep_cells :: cell_store where
  "dep_cells p = (if p = 0 then NewCell ''cell-a'' 0 (dep_state ''z1'' 0)
                  else if p = 1 then NewCell ''cell-b'' 1 (dep_state ''z1'' 1)
                  else NewCell ''cell-c'' 2 (dep_state ''z2'' 2))"

definition dep_scheduler :: Scheduler where
  "dep_scheduler = \<lparr>s_zones = [(''z1'', [0, 1]), (''z2'', [2])], s_now = 7,
     s_binPackFirstFitWeight = Fin 0, s_startingContainerWeight = Fin 0,
     s_startingContainerCountMaximum = 2\<rparr>"

definition dep_constraint :: PlacementConstraint where
  "dep_constraint = \<lparr>pc_PlacementTags = [], pc_VolumeDrivers = [], pc_RootFs = ''preloaded:cflinuxfs4''\<rparr>"

definition dep_lrp :: "int \<Rightarrow> LRPAuction" where
  "dep_lrp i = NewLRPAuction (NewSchedulingLRP [] (NewActualLRPKey ''app'' i ''cf'')
     (NewResource 128 256 0) dep_constraint) 0"

definition dep_task :: TaskAuction where
  "dep_task = NewTaskAuction (NewSchedulingTask ''job'' ''cf'' (NewResource 64 64 0) dep_constraint) 0"

definition dep_request :: AuctionRequest where
  "dep_request = \<lparr>req_LRPs = [dep_lrp 1, dep_lrp 0], req_Tasks = [dep_task]\<rparr>"

text \<open>A rep that refuses every task it is sent.\<close>

definition dep_Perform :: "client \<Rightarrow> Work \<Rightarrow> Work option" where
  "dep_Perform cl w = Some (w\<lparr>w_LRPs := []\<rparr>)"

lemma dep_returns_part: "returns_part dep_Perform"
  by (simp add: returns_part_def dep_Perform_def)

lemma dep_ptrs: "zone_ptrs (s_zones dep_scheduler) = [0, 1, 2]"
  by (simp add: dep_scheduler_def)

lemma dep_idle: "idle_cells (zone_ptrs (s_zones dep_scheduler)) dep_cells"
  unfolding dep_ptrs by (simp add: idle_cells_def dep_cells_def NewCell_def empty_work_def)

lemma dep_distinct_ids:
  "distinct (map la_id (req_LRPs dep_request))" "distinct (map ta_id (req_Tasks dep_request))"
  by (simp_all add: dep_request_def dep_lrp_def NewLRPAuction_def NewSchedulingLRP_def
      NewActualLRPKey_def LRP_Identifier_inject)

lemma dep_valid: "valid_request dep_request"
  by (simp add: valid_request_def dep_request_def dep_lrp_def dep_task_def NewLRPAuction_def
      NewTaskAuction_def NewSchedulingLRP_def NewSchedulingTask_def NewResource_def Resource_Valid_def)

lemma dep_accounted: "store_accounted (\<lambda>p. dep_resources) (zone_ptrs (s_zones dep_scheduler)) dep_cells"
  unfolding dep_ptrs store_accounted_def
  by (simp add: dep_cells_def NewCell_def cell_accounted_def empty_work_def work_defs dep_state_def
      dep_resources_def Resources_typed_def Resources_nonneg_def is_i32_def is_i64_def)

lemma dep_lrp_placed:
  "case fst (scheduleLRPAuction dep_scheduler dep_cells (dep_lrp 0)) of Inl _ \<Rightarrow> False | Inr _ \<Rightarrow> True"
  by code_simp

lemma dep_task_placed:
  "case fst (scheduleTaskAuction dep_scheduler dep_cells dep_task (Fin 0)) of
     Inr (Some _) \<Rightarrow> True | _ \<Rightarrow> False"
  by code_simp

subsection \<open>The schedule as a whole\<close>

text \<open>
  C11. Every request is answered exactly once. When the identifiers of a request are distinct,
  the cells are idle and distinct, and every rep returns as failed a part of the work it was
  sent, \<open>Schedule\<close> does not panic, and the identifiers of the successful and of the failed LRPs
  are together exactly those of the requested LRPs, and likewise for tasks: nothing is lost,
  invented or reported twice, in whatever order the commits finish.
\<close>

theorem Schedule_answers_every_request:
  assumes "distinct (zone_ptrs (s_zones s))" and "idle_cells (zone_ptrs (s_zones s)) st"
    and "distinct (map la_id (req_LRPs req))" and "distinct (map ta_id (req_Tasks req))"
    and "returns_part Perform" and "\<And>ps. mset (order ps) = mset ps"
  shows "\<exists>r st'. Schedule s Perform order st req = Some (r, st')
    \<and> mset (map la_id (SuccessfulLRPs r @ FailedLRPs r)) = mset (map la_id (req_LRPs req))
    \<and> mset (map ta_id (SuccessfulTasks r @ FailedTasks r)) = mset (map ta_id (req_Tasks req))"
  by (rule Schedule_conserved_any [OF assms])

theorem Schedule_answers_every_request_witness:
  "\<exists>r st'. Schedule dep_scheduler dep_Perform rev dep_cells dep_request = Some (r, st')
    \<and> mset (map la_id (SuccessfulLRPs r @ FailedLRPs r)) = mset (map la_id (req_LRPs dep_request))
    \<and> mset (map ta_id (SuccessfulTasks r @ FailedTasks r)) = mset (map ta_id (req_Tasks dep_request))"
  by (rule Schedule_answers_every_request [OF _ dep_idle dep_distinct_ids dep_returns_part])
     (simp_all add: dep_scheduler_def)

text \<open>
  C5. No cell is overcommitted. If every cell starts out accounted against the resources \<open>base\<close>
  it reported, and the requested amounts are valid, then after \<open>Schedule\<close> the memory, the disk
  and the number of containers of the work sent to each cell are within what the cell reported,
  what is left is not negative, and left and sent add up exactly.
\<close>

theorem Schedule_within_capacity:
  assumes "Schedule s Perform order st req = Some (r, st')" and "valid_request req"
    and "store_accounted base (zone_ptrs (s_zones s)) st" and "p \<in> set (zone_ptrs (s_zones s))"
  shows "cell_accounted (base p) (st' p)
    \<and> work_memory (cell_workToCommit (st' p)) \<le> rs_MemoryMB (base p)
    \<and> work_disk (cell_workToCommit (st' p)) \<le> rs_DiskMB (base p)
    \<and> work_size (cell_workToCommit (st' p)) \<le> rs_Containers (base p)"
proof -
  have "s_zones s \<noteq> []" using assms(4) by auto
  then obtain t3 where "run_auctions s st req = Some t3" "st' = ss_cells t3"
    using assms(1) by (auto simp: Schedule_unfold bind_eq_Some_conv)
  then have "cell_accounted (base p) (st' p)"
    using run_auctions_accounted [OF _ assms(2,3)] store_accounted_cell assms(4) by blast
  then show ?thesis using cell_accounted_bounds by blast
qed

theorem Schedule_within_capacity_witness:
  "\<exists>r st'. Schedule dep_scheduler dep_Perform rev dep_cells dep_request = Some (r, st')
    \<and> work_memory (cell_workToCommit (st' 2)) \<le> 512"
proof -
  obtain r st' where 1: "Schedule dep_scheduler dep_Perform rev dep_cells dep_request = Some (r, st')"
    using Schedule_conserved [of dep_scheduler, OF _ _ dep_idle dep_distinct_ids dep_returns_part, of rev]
    by (auto simp: dep_scheduler_def)
  then show ?thesis
    using Schedule_within_capacity [OF 1 dep_valid dep_accounted, of 2]
    by (auto simp: dep_ptrs dep_resources_def)
qed

text \<open>
  C6. The work sent to a cell was asked for and is suited to it: every LRP and every task that
  \<open>Schedule\<close> sends to a cell is one of the requested ones, and the cell satisfies its root file
  system, volume driver and placement tag constraints; the scheduling leaves the cell's
  identifier, address, providers, drivers and tags as they were reported.
\<close>

theorem Schedule_respects_constraints:
  assumes "Schedule s Perform order st req = Some (r, st')"
    and "idle_cells (zone_ptrs (s_zones s)) st" and "p \<in> set (zone_ptrs (s_zones s))"
  shows "same_cell (st p) (st' p) \<and> work_from req (st p) (cell_workToCommit (st' p))"
proof -
  have "s_zones s \<noteq> []" using assms(3) by auto
  then obtain t3 where "run_auctions s st req = Some t3" "st' = ss_cells t3"
    using assms(1) by (auto simp: Schedule_unfold bind_eq_Some_conv)
  moreover have "traced (zone_ptrs (s_zones s)) req st st"
    using assms(2) by (auto simp: traced_def same_cell_def work_from_def idle_cells_def list_all_iff)
  ultimately show ?thesis using run_auctions_traced assms(3) by (auto simp: traced_def)
qed
theorem Schedule_respects_constraints_witness:
  "\<exists>r st'. Schedule dep_scheduler dep_Perform rev dep_cells dep_request = Some (r, st')
    \<and> work_from dep_request (dep_cells 2) (cell_workToCommit (st' 2))"
proof -
  obtain r st' where 1: "Schedule dep_scheduler dep_Perform rev dep_cells dep_request = Some (r, st')"
    using Schedule_conserved [of dep_scheduler, OF _ _ dep_idle dep_distinct_ids dep_returns_part, of rev]
    by (auto simp: dep_scheduler_def)
  then show ?thesis
    using Schedule_respects_constraints [OF 1 dep_idle, of 2] by (auto simp: dep_ptrs)
qed

text \<open>
  C38. The limit on containers in flight is kept. When a limit is set, the successful LRPs and
  tasks of one schedule together are at most the limit minus the containers that were already
  starting on the cells, and there are none when those already reach the limit.
\<close>

theorem Schedule_inflight_limit:
  assumes "Schedule s Perform order st req = Some (r, st')"
    and "0 < s_startingContainerCountMaximum s" and "is_i64 (s_startingContainerCountMaximum s)"
  shows "int (length (SuccessfulLRPs r) + length (SuccessfulTasks r))
           \<le> max 0 (s_startingContainerCountMaximum s - inflight_starts s st)"
proof (cases "s_zones s = []")
  case True
  then show ?thesis using assms(1) by (auto simp: Schedule_def markResults_def)
next
  case False
  then obtain t3 l t where t3: "run_auctions s st req = Some t3"
    and lt: "absorb_works (commitCells Perform order s (ss_cells t3)) (ss_lrps t3, ss_tasks t3) = Some (l, t)"
    and r: "r = results_of s l t"
    using assms(1) by (auto simp: Schedule_unfold bind_eq_Some_conv)
  have "length (lg_successful l) \<le> length (lg_successful (ss_lrps t3))
      \<and> length (lg_successful t) \<le> length (lg_successful (ss_tasks t3))"
    using absorb_works_shrinks [OF lt] by simp
  then show ?thesis
    using run_auctions_inflight [OF t3 assms(2,3)] by (auto simp: r results_of_def markResults_def inflight_inv_def)
qed

theorem Schedule_inflight_limit_witness:
  "\<exists>r st'. Schedule dep_scheduler dep_Perform rev dep_cells dep_request = Some (r, st')
    \<and> length (SuccessfulLRPs r) + length (SuccessfulTasks r) \<le> 2"
proof -
  obtain r st' where 1: "Schedule dep_scheduler dep_Perform rev dep_cells dep_request = Some (r, st')"
    using Schedule_conserved [of dep_scheduler, OF _ _ dep_idle dep_distinct_ids dep_returns_part, of rev]
    by (auto simp: dep_scheduler_def)
  have "inflight_starts dep_scheduler dep_cells = 0"
    unfolding inflight_starts_def dep_ptrs
    by (simp add: StartingContainerCount_def dep_cells_def NewCell_def dep_state_def i64_def)
  then show ?thesis
    using Schedule_inflight_limit [OF 1] 1 by (auto simp: dep_scheduler_def is_i64_def)
qed

subsection \<open>One auction\<close>

text \<open>
  C12. The winner of an LRP auction is the best admissible cell. If \<open>scheduleLRPAuction\<close> places an
  LRP, the winner is a cell of some zone that satisfies the root file system, volume driver and
  placement tag constraints and has room for the LRP with its proxy, the LRP is reserved there
  and nowhere else, and no other admissible cell is in a zone with fewer instances of the same
  process, nor has a lower score in a zone with equally many.
\<close>

theorem scheduleLRPAuction_picks_best:
  assumes "scheduleLRPAuction s st a = (Inr w, st')"
  shows "\<exists>name z p c x. (name, z) \<in> set (s_zones s) \<and> p \<in> set z
    \<and> cell_matches (lrp_Constraint (la_LRP a)) (st p)
    \<and> Resources_fits (cs_AvailableResources (cell_state (st p))) (proxiedLRP (st p) (la_LRP a))
    \<and> ReserveLRP (st p) (la_LRP a) = Inr c \<and> st' = st(p := c)
    \<and> ar_Winner (la_Record w) = cell_Guid (st p) \<and> la_id w = la_id a
    \<and> eligible (lrp_score s st a) p x
    \<and> (\<forall>name' z' p' x'. (name', z') \<in> set (s_zones s) \<longrightarrow> p' \<in> set z' \<longrightarrow>
         cell_matches (lrp_Constraint (la_LRP a)) (st p') \<longrightarrow> eligible (lrp_score s st a) p' x' \<longrightarrow>
         zone_instances st (key_ProcessGuid (lrp_Key (la_LRP a))) z
           < zone_instances st (key_ProcessGuid (lrp_Key (la_LRP a))) z'
         \<or> zone_instances st (key_ProcessGuid (lrp_Key (la_LRP a))) z
             = zone_instances st (key_ProcessGuid (lrp_Key (la_LRP a))) z'
           \<and> \<not> f_less x' x)"
proof (rule scheduleLRPAuction_Inr [OF assms], goal_cases)
  case (1 name z p c x)
  have "Resources_fits (cs_AvailableResources (cell_state (st p))) (proxiedLRP (st p) (la_LRP a))"
    using 1(7) by (auto simp: eligible_def lrp_score_def intro: ScoreForLRP_Inr_fits)
  moreover have "ar_Winner (la_Record w) = cell_Guid (st p)" "la_id w = la_id a"
    by (simp_all add: 1(6) LRPAuction_won_def LRPAuction_Copy_def Let_def)
  ultimately show ?case using 1 by blast
qed

theorem scheduleLRPAuction_picks_best_witness:
  "\<exists>p c. snd (scheduleLRPAuction dep_scheduler dep_cells (dep_lrp 0)) = dep_cells(p := c)
     \<and> cell_matches dep_constraint (dep_cells p)"
proof -
  have "\<exists>w. fst (scheduleLRPAuction dep_scheduler dep_cells (dep_lrp 0)) = Inr w"
    using dep_lrp_placed by (cases "fst (scheduleLRPAuction dep_scheduler dep_cells (dep_lrp 0))") auto
  then obtain w where "scheduleLRPAuction dep_scheduler dep_cells (dep_lrp 0)
      = (Inr w, snd (scheduleLRPAuction dep_scheduler dep_cells (dep_lrp 0)))"
    by (metis prod.collapse)
  from scheduleLRPAuction_picks_best [OF this] show ?thesis
    by (auto simp: dep_lrp_def NewLRPAuction_def NewSchedulingLRP_def)
qed

text \<open>
  The winner of a task auction satisfies the constraints of the task, has room for it, and no
  other admissible cell has a lower score.
\<close>

theorem scheduleTaskAuction_picks_best:
  assumes "scheduleTaskAuction s st a weight = (Inr (Some w), st')"
  shows "\<exists>name z p c x. (name, z) \<in> set (s_zones s) \<and> p \<in> set z
    \<and> cell_matches (task_Constraint (ta_Task a)) (st p)
    \<and> Resources_fits (cs_AvailableResources (cell_state (st p))) (task_Resource (ta_Task a))
    \<and> ReserveTask (st p) (ta_Task a) = Inr c \<and> st' = st(p := c)
    \<and> ar_Winner (ta_Record w) = cell_Guid (st p) \<and> ta_id w = ta_id a
    \<and> eligible (task_score st a weight) p x
    \<and> (\<forall>name' z' p' x'. (name', z') \<in> set (s_zones s) \<longrightarrow> p' \<in> set z' \<longrightarrow>
         cell_matches (task_Constraint (ta_Task a)) (st p') \<longrightarrow> eligible (task_score st a weight) p' x' \<longrightarrow>
         \<not> f_less x' x)"
proof (rule scheduleTaskAuction_Inr [OF assms], goal_cases)
  case (1 name z p c x)
  have "Resources_fits (cs_AvailableResources (cell_state (st p))) (task_Resource (ta_Task a))"
    using 1(7) by (auto simp: eligible_def task_score_def intro: ScoreForTask_Inr_fits)
  moreover have "ar_Winner (ta_Record w) = cell_Guid (st p)" "ta_id w = ta_id a"
    by (simp_all add: 1(6) TaskAuction_won_def TaskAuction_Copy_def Let_def)
  ultimately show ?case using 1 by blast
qed

theorem scheduleTaskAuction_picks_best_witness:
  "\<exists>p c. snd (scheduleTaskAuction dep_scheduler dep_cells dep_task (Fin 0)) = dep_cells(p := c)
     \<and> cell_matches dep_constraint (dep_cells p)"
proof -
  obtain w where "fst (scheduleTaskAuction dep_scheduler dep_cells dep_task (Fin 0)) = Inr (Some w)"
    using dep_task_placed by (auto split: sum.splits option.splits)
  then have "scheduleTaskAuction dep_scheduler dep_cells dep_task (Fin 0)
      = (Inr (Some w), snd (scheduleTaskAuction dep_scheduler dep_cells dep_task (Fin 0)))"
    by (metis prod.collapse)
  from scheduleTaskAuction_picks_best [OF this] show ?thesis
    by (auto simp: dep_task_def NewTaskAuction_def NewSchedulingTask_def)
qed

text \<open>
  C22. An LRP is placed exactly when there is room. If at least one zone exists, every score is
  below the initial bound of the search, and adding the proxy to an LRP never wraps below it,
  then \<open>scheduleLRPAuction\<close> succeeds if and only if some cell satisfies the constraints and has
  room for the LRP with its proxy.
\<close>

theorem scheduleLRPAuction_succeeds_iff:
  assumes "s_zones s \<noteq> []"
    and "\<And>p x. p \<in> set (zone_ptrs (s_zones s)) \<Longrightarrow> lrp_score s st a p = Inr x \<Longrightarrow> f_less x worst_score"
    and "\<And>p. p \<in> set (zone_ptrs (s_zones s)) \<Longrightarrow>
           r_MemoryMB (lrp_Resource (la_LRP a)) \<le> r_MemoryMB (proxiedLRP (st p) (la_LRP a))"
  shows "(\<exists>w st'. scheduleLRPAuction s st a = (Inr w, st')) \<longleftrightarrow>
    (\<exists>p \<in> set (zone_ptrs (s_zones s)). cell_matches (lrp_Constraint (la_LRP a)) (st p)
       \<and> Resources_fits (cs_AvailableResources (cell_state (st p))) (proxiedLRP (st p) (la_LRP a)))"
  (is "?l \<longleftrightarrow> ?r")
proof
  assume ?l
  then obtain w st' where "scheduleLRPAuction s st a = (Inr w, st')" by blast
  then show ?r
  proof (rule scheduleLRPAuction_Inr, goal_cases)
    case (1 name z p c x)
    have "Resources_fits (cs_AvailableResources (cell_state (st p))) (proxiedLRP (st p) (la_LRP a))"
      using 1(7) by (auto simp: eligible_def lrp_score_def intro: ScoreForLRP_Inr_fits)
    moreover have "p \<in> set (zone_ptrs (s_zones s))" using 1(1,2) by force
    ultimately show ?case using 1(3) by blast
  qed
next
  assume ?r
  then obtain p where p: "p \<in> set (zone_ptrs (s_zones s))" "cell_matches (lrp_Constraint (la_LRP a)) (st p)"
    "Resources_fits (cs_AvailableResources (cell_state (st p))) (proxiedLRP (st p) (la_LRP a))" by blast
  show ?l by (rule scheduleLRPAuction_complete [where st = st and a = a, OF assms p])
qed

theorem scheduleLRPAuction_succeeds_iff_witness:
  "(\<exists>w st'. scheduleLRPAuction dep_scheduler dep_cells (dep_lrp 0) = (Inr w, st'))
   \<and> cell_matches dep_constraint (dep_cells 0)"
proof -
  have m: "cell_matches dep_constraint (dep_cells 0)" by code_simp
  have fits: "Resources_fits (cs_AvailableResources (cell_state (dep_cells 0))) (proxiedLRP (dep_cells 0) (la_LRP (dep_lrp 0)))"
    by code_simp
  have c: "lrp_Constraint (la_LRP (dep_lrp 0)) = dep_constraint"
    by (simp add: dep_lrp_def NewLRPAuction_def NewSchedulingLRP_def)
  have "list_all (\<lambda>p. (case lrp_score dep_scheduler dep_cells (dep_lrp 0) p of Inl _ \<Rightarrow> True | Inr x \<Rightarrow> f_less x worst_score)
      \<and> r_MemoryMB (lrp_Resource (la_LRP (dep_lrp 0))) \<le> r_MemoryMB (proxiedLRP (dep_cells p) (la_LRP (dep_lrp 0)))) [0, 1, 2]"
    by code_simp
  then have all: "\<And>p. p \<in> set (zone_ptrs (s_zones dep_scheduler)) \<Longrightarrow>
      (case lrp_score dep_scheduler dep_cells (dep_lrp 0) p of Inl _ \<Rightarrow> True | Inr x \<Rightarrow> f_less x worst_score)
      \<and> r_MemoryMB (lrp_Resource (la_LRP (dep_lrp 0))) \<le> r_MemoryMB (proxiedLRP (dep_cells p) (la_LRP (dep_lrp 0)))"
    unfolding dep_ptrs list_all_iff by blast
  have "\<exists>w st'. scheduleLRPAuction dep_scheduler dep_cells (dep_lrp 0) = (Inr w, st')"
  proof (subst scheduleLRPAuction_succeeds_iff)
    show "s_zones dep_scheduler \<noteq> []" by (simp add: dep_scheduler_def)
    show "\<exists>p \<in> set (zone_ptrs (s_zones dep_scheduler)). cell_matches (lrp_Constraint (la_LRP (dep_lrp 0))) (dep_cells p)
       \<and> Resources_fits (cs_AvailableResources (cell_state (dep_cells p))) (proxiedLRP (dep_cells p) (la_LRP (dep_lrp 0)))"
      unfolding dep_ptrs c using m fits by simp
  qed (use all in \<open>force split: sum.splits\<close>)+
  with m show ?thesis by blast
qed

text \<open>
  C23. A refused LRP is told what is missing everywhere. If some cell satisfies the constraints of
  the LRP and none of those cells has room, the error names exactly the problems (disk, memory,
  containers) that all of them have.
\<close>

theorem scheduleLRPAuction_names_common_problems:
  assumes "p0 \<in> set (zone_ptrs (s_zones s))" and "cell_matches (lrp_Constraint (la_LRP a)) (st p0)"
    and "\<And>p. p \<in> set (zone_ptrs (s_zones s)) \<Longrightarrow> cell_matches (lrp_Constraint (la_LRP a)) (st p) \<Longrightarrow>
           lrp_score s st a p = Inl (missing p)"
  shows "\<exists>ps. scheduleLRPAuction s st a = (Inl (InsufficientResourcesError ps), st)
    \<and> set ps = {x \<in> {''disk'', ''memory'', ''containers''}.
        \<forall>p \<in> set (zone_ptrs (s_zones s)). cell_matches (lrp_Constraint (la_LRP a)) (st p) \<longrightarrow> x \<in> set (missing p)}"
  by (rule scheduleLRPAuction_problems [OF assms])

definition dep_big_lrp :: LRPAuction where
  "dep_big_lrp = NewLRPAuction (NewSchedulingLRP [] (NewActualLRPKey ''big'' 0 ''cf'')
     (NewResource 4096 256 0) dep_constraint) 0"

theorem scheduleLRPAuction_names_common_problems_witness:
  "\<exists>ps. scheduleLRPAuction dep_scheduler dep_cells dep_big_lrp = (Inl (InsufficientResourcesError ps), dep_cells)
     \<and> set ps = {''memory''}"
proof -
  have c: "lrp_Constraint (la_LRP dep_big_lrp) = dep_constraint"
    by (simp add: dep_big_lrp_def NewLRPAuction_def NewSchedulingLRP_def)
  have m: "cell_matches (lrp_Constraint (la_LRP dep_big_lrp)) (dep_cells 0)" by code_simp
  have "list_all (\<lambda>p. lrp_score dep_scheduler dep_cells dep_big_lrp p = Inl [''memory'']) [0, 1, 2]" by code_simp
  then have sc: "\<And>p. p \<in> set (zone_ptrs (s_zones dep_scheduler)) \<Longrightarrow>
      lrp_score dep_scheduler dep_cells dep_big_lrp p = Inl [''memory'']"
    unfolding dep_ptrs list_all_iff by blast
  have "\<exists>ps. scheduleLRPAuction dep_scheduler dep_cells dep_big_lrp = (Inl (InsufficientResourcesError ps), dep_cells)
    \<and> set ps = {x \<in> {''disk'', ''memory'', ''containers''}.
        \<forall>p \<in> set (zone_ptrs (s_zones dep_scheduler)).
          cell_matches (lrp_Constraint (la_LRP dep_big_lrp)) (dep_cells p) \<longrightarrow> x \<in> set [''memory'']}"
    by (rule scheduleLRPAuction_names_common_problems [where ?p0.0 = 0, OF _ m sc]) (simp_all add: dep_ptrs)
  moreover have "{x \<in> {''disk'', ''memory'', ''containers''}.
        \<forall>p \<in> set (zone_ptrs (s_zones dep_scheduler)).
          cell_matches (lrp_Constraint (la_LRP dep_big_lrp)) (dep_cells p) \<longrightarrow> x \<in> set [''memory'']}
      = {''memory''}"
  proof -
    have "0 \<in> set (zone_ptrs (s_zones dep_scheduler))" by (simp add: dep_ptrs)
    then show ?thesis using m by (intro equalityI subsetI) auto
  qed
  ultimately show ?thesis by (simp only:)
qed

subsection \<open>Zones\<close>

text \<open>
  C39. \<open>filterCells\<close> keeps exactly the cells of the zone that provide the root file system, have
  all the volume drivers, and whose required tags are all desired while every desired tag is
  required or optional there; the error it reports names the first of these three conditions
  that no cell of the zone gets past.
\<close>

theorem filterCells_keeps_matching:
  "fst (filterCells st z pc) =
     filter (\<lambda>p. CellState_MatchRootFS (cell_state (st p)) (pc_RootFs pc)
       \<and> set (pc_VolumeDrivers pc) \<subseteq> set (cs_VolumeDrivers (cell_state (st p)))
       \<and> set (cs_PlacementTags (cell_state (st p))) \<subseteq> set (pc_PlacementTags pc)
       \<and> set (pc_PlacementTags pc) \<subseteq> set (cs_PlacementTags (cell_state (st p)))
           \<union> set (cs_OptionalPlacementTags (cell_state (st p)))) z
   \<and> snd (filterCells st z pc) = mismatch_of st z pc"
  by (simp add: filterCells_eq cell_matches_def MatchRootFS_def MatchVolumeDrivers_def
      MatchPlacementTags_def MatchVolumeDrivers_subset MatchPlacementTags_subset)

text \<open>
  The zones built from the states of the cells hold exactly the cells whose rep answered, is
  not evacuating and gave its own identifier or none: each once, in the zone it reported, with
  no work to commit, at an address of its own. When a bin packing weight is set, the cells of a
  zone are in the order of their cell indices and numbered from zero.
\<close>

theorem fetchStateAndBuildZones_builds:
  assumes "fetchStateAndBuildZones State clients weight = (zs, st)"
  shows "distinct (zone_ptrs zs)
    \<and> mset (map (\<lambda>p. (cell_Guid (st p), cell_client (st p), cell_state (st p))) (zone_ptrs zs))
        = mset (map (\<lambda>c. (cell_Guid c, cell_client c, cell_state c))
            (List.map_filter (accepted_cell State) clients))
    \<and> zones_in_place st zs
    \<and> idle_cells (zone_ptrs zs) st
    \<and> (isBinPackFirstFitWeightProvided weight \<longrightarrow> (\<forall>(name, z) \<in> set zs. zone_normalised st z))"
proof -
  let ?un = "\<lambda>c::Cell. c\<lparr>cell_Index := 0\<rparr>" and ?acc = "List.map_filter (accepted_cell State) clients"
  note f = fetchStateAndBuildZones_facts [OF assms]
  have "image_mset (\<lambda>c. (cell_Guid c, cell_client c, cell_state c)) (mset (map (\<lambda>p. ?un (st p)) (zone_ptrs zs)))
      = image_mset (\<lambda>c. (cell_Guid c, cell_client c, cell_state c)) (mset (map ?un ?acc))"
    by (simp only: f(2))
  then have m: "mset (map (\<lambda>p. (cell_Guid (st p), cell_client (st p), cell_state (st p))) (zone_ptrs zs))
      = mset (map (\<lambda>c. (cell_Guid c, cell_client c, cell_state c)) ?acc)"
    by (simp add: multiset.map_comp comp_def)
  show ?thesis using f(1,3,4) m built_idle [OF assms] by blast
qed

theorem fetchStateAndBuildZones_builds_witness:
  "mset (map (\<lambda>p. cell_Guid (snd (fetchStateAndBuildZones dep_State dep_clients (Fin 1)) p))
     (zone_ptrs (fst (fetchStateAndBuildZones dep_State dep_clients (Fin 1)))))
   = {#''cell-a'', ''cell-b'', ''cell-c''#}"
proof -
  let ?f = "fetchStateAndBuildZones dep_State dep_clients (Fin 1)"
  have "mset (map (\<lambda>p. (cell_Guid (snd ?f p), cell_client (snd ?f p), cell_state (snd ?f p))) (zone_ptrs (fst ?f)))
      = mset (map (\<lambda>c. (cell_Guid c, cell_client c, cell_state c))
            (List.map_filter (accepted_cell dep_State) dep_clients))"
    using fetchStateAndBuildZones_builds [of dep_State dep_clients "Fin 1" "fst ?f" "snd ?f"] by simp
  then have "image_mset fst (mset (map (\<lambda>p. (cell_Guid (snd ?f p), cell_client (snd ?f p), cell_state (snd ?f p)))
        (zone_ptrs (fst ?f))))
      = mset (map cell_Guid (List.map_filter (accepted_cell dep_State) dep_clients))"
    by (simp add: multiset.map_comp comp_def)
  moreover have "map cell_Guid (List.map_filter (accepted_cell dep_State) dep_clients)
      = [''cell-a'', ''cell-b'', ''cell-c'']"
    by (simp add: map_filter_def accepted_cell_def dep_clients_def dep_State_def dep_state_def NewCell_def)
  ultimately show ?thesis by (simp add: multiset.map_comp comp_def)
qed

text \<open>
  The states are fetched at most four times, and the zones returned are those of the first
  attempt that reached a cell, or of the fourth attempt.
\<close>

theorem FetchStateAndBuildZones_attempts:
  "\<exists>i \<le> 3. FetchStateAndBuildZones State clients w = fetchStateAndBuildZones (State i) (clients i) w
     \<and> (\<forall>j < i. fst (fetchStateAndBuildZones (State j) (clients j) w) = [])
     \<and> (fst (fetchStateAndBuildZones (State i) (clients i) w) \<noteq> [] \<or> i = 3)"
  unfolding FetchStateAndBuildZones_def using fetch_attempts_first [of 3 State clients w 0] by auto

theorem FetchStateAndBuildZones_attempts_witness:
  "fst (FetchStateAndBuildZones (\<lambda>_ _. None) (\<lambda>_. dep_clients) (Fin 0)) = []"
proof -
  have "fst (fetchStateAndBuildZones (\<lambda>_. None) dep_clients (Fin 0)) = []"
    by (simp add: fetchStateAndBuildZones_def fetchStates_def fetchState_step_def dep_clients_def
        isBinPackFirstFitWeightProvided_def MinBinPackFirstFitWeight_def Let_def)
  then show ?thesis
    using FetchStateAndBuildZones_attempts [of "\<lambda>_ _. None" "\<lambda>_. dep_clients" "Fin 0"] by auto
qed

subsection \<open>Where the auction departs from its intent\<close>

definition proxy_cell :: Cell where
  "proxy_cell = NewCell ''cell-p'' 0 ((dep_state ''z1'' 0)
     \<lparr>cs_AvailableResources := \<lparr>rs_MemoryMB = 400, rs_DiskMB = 1024, rs_Containers = 8\<rparr>,
      cs_ProxyMemoryAllocationMB := 100\<rparr>)"

definition score_and_reserve :: "SchedulingLRP \<Rightarrow> Cell \<Rightarrow> Cell option" where
  "score_and_reserve lrp c =
     (case ScoreForLRP c lrp (Fin 0) (Fin 0) of
        Inl _ \<Rightarrow> None
      | Inr _ \<Rightarrow> (case ReserveLRP c lrp of Inl _ \<Rightarrow> None | Inr c' \<Rightarrow> Some c'))"

definition proxy_lrp :: "int \<Rightarrow> SchedulingLRP" where
  "proxy_lrp i = NewSchedulingLRP [] (NewActualLRPKey ''app'' i ''cf'') (NewResource 100 10 0) dep_constraint"

text \<open>
  The proxy is demanded but not reserved. On a cell with 400 MB left and a proxy allocation
  of 100 MB, three LRPs of 100 MB each pass the scoring, which asks for 200 MB every time, and
  are all reserved: 600 MB with their proxies. Only the 300 MB of the LRPs are subtracted.
\<close>

theorem ReserveLRP_drops_proxy:
  "\<exists>c1 c2 c3. score_and_reserve (proxy_lrp 0) proxy_cell = Some c1
     \<and> score_and_reserve (proxy_lrp 1) c1 = Some c2 \<and> score_and_reserve (proxy_lrp 2) c2 = Some c3
     \<and> rs_MemoryMB (cs_AvailableResources (cell_state c3)) = 100
     \<and> r_MemoryMB (proxiedLRP proxy_cell (proxy_lrp 0)) + r_MemoryMB (proxiedLRP c1 (proxy_lrp 1))
         + r_MemoryMB (proxiedLRP c2 (proxy_lrp 2))
       > rs_MemoryMB (cs_AvailableResources (cell_state proxy_cell))"
proof -
  have "case score_and_reserve (proxy_lrp 0) proxy_cell of None \<Rightarrow> False | Some c1 \<Rightarrow>
     (case score_and_reserve (proxy_lrp 1) c1 of None \<Rightarrow> False | Some c2 \<Rightarrow>
     (case score_and_reserve (proxy_lrp 2) c2 of None \<Rightarrow> False | Some c3 \<Rightarrow>
       rs_MemoryMB (cs_AvailableResources (cell_state c3)) = 100
     \<and> r_MemoryMB (proxiedLRP proxy_cell (proxy_lrp 0)) + r_MemoryMB (proxiedLRP c1 (proxy_lrp 1))
         + r_MemoryMB (proxiedLRP c2 (proxy_lrp 2))
       > rs_MemoryMB (cs_AvailableResources (cell_state proxy_cell))))"
    by code_simp
  then show ?thesis by (auto split: option.splits)
qed

definition tagged_cell :: Cell where
  "tagged_cell = NewCell ''cell-t'' 0 ((dep_state ''z1'' 0)\<lparr>cs_PlacementTags := [''isolated'']\<rparr>)"

definition other_rootfs_cell :: Cell where
  "other_rootfs_cell = NewCell ''cell-o'' 1 ((dep_state ''z2'' 0)\<lparr>cs_RootFSProviders := []\<rparr>)"

definition two_cells :: cell_store where
  "two_cells p = (if p = 0 then tagged_cell else other_rootfs_cell)"

text \<open>
  The error of an auction that no zone can serve depends on the order of the zones. With one
  zone that only lacks the placement tag and one that lacks the root file system, the reported
  error is the missing root file system in one order and the placement tag in the other, and
  the order is that of a Go map.
\<close>

theorem filterZones_error_depends_on_order:
  "snd (filterZones two_cells
      [\<lparr>lz_zone = [0], lz_instances = 0\<rparr>, \<lparr>lz_zone = [1], lz_instances = 0\<rparr>] (dep_lrp 0))
     = Some ErrorCellMismatch
   \<and> snd (filterZones two_cells
      [\<lparr>lz_zone = [1], lz_instances = 0\<rparr>, \<lparr>lz_zone = [0], lz_instances = 0\<rparr>] (dep_lrp 0))
     = Some (PlacementTagMismatchError [])"
  by code_simp

text \<open>
  Instances of index zero are auctioned before the tasks only if the batch also holds an
  instance of a higher index. The two halves that \<open>splitLRPS\<close> returns always make up the whole
  list; for sorted input the first half is the instances of index at most zero when there is an
  instance with a higher index, and it is empty when there is none.
\<close>

theorem splitLRPS_index_zero:
  "fst (splitLRPS lrps) @ snd (splitLRPS lrps) = lrps
   \<and> fst (splitLRPS (go_sort LRPAuction_Less lrps)) =
       (if list_ex (\<lambda>a. key_Index (lrp_Key (la_LRP a)) > 0) lrps
        then filter (\<lambda>a. key_Index (lrp_Key (la_LRP a)) \<le> 0) (go_sort LRPAuction_Less lrps)
        else [])"
proof -
  let ?i = "\<lambda>a. key_Index (lrp_Key (la_LRP a))"
  have "sorted_wrt (\<lambda>a b. ?i a \<le> ?i b) xs \<Longrightarrow> takeWhile (\<lambda>a. \<not> ?i a > 0) xs = filter (\<lambda>a. ?i a \<le> 0) xs" for xs
    by (induction xs) (auto simp: eq_commute [of "[]"] filter_empty_conv not_less)
  note this [of "go_sort LRPAuction_Less lrps"]
  moreover have "sorted_wrt (\<lambda>a b. ?i a \<le> ?i b) (go_sort LRPAuction_Less lrps)"
    by (rule sorted_wrt_mono_rel [OF _ lrp_order.sorted_go_sort [of lrps]])
       (auto simp: LRPAuction_Less_def split: if_splits)
  moreover have "list_ex (\<lambda>a. ?i a > 0) (go_sort LRPAuction_Less lrps) = list_ex (\<lambda>a. ?i a > 0) lrps"
    by (simp add: list_ex_iff)
  ultimately show ?thesis by (simp add: splitLRPS_append) (simp add: splitLRPS_def Let_def)
qed

end
