(* ===== verification/Auction_Runner.thy ===== *)
theory Auction_Runner
  imports Auction_Properties
begin

section \<open>The batch, the auction runner and the auctioneer's handlers\<close>

text \<open>
  The batch of \<open>auction/auctionrunner/batch.go\<close>, the loop of \<open>auction_runner.go\<close> as a step
  relation in which the requests of the HTTP handlers interleave with the runner, the handlers
  of \<open>auctioneer/handlers\<close> and the delegate of \<open>auctioneer/auctionrunnerdelegate\<close>. The channel
  \<open>HasWork\<close> has a buffer of one; it is an option that holds the trace identifier of the work.
\<close>

subsection \<open>The batch (batch.go)\<close>

record Batch =
  b_lrpAuctions :: "LRPAuction list"
  b_taskAuctions :: "TaskAuction list"
  b_HasWork :: "string option"

definition NewBatch :: Batch where
  "NewBatch = \<lparr>b_lrpAuctions = [], b_taskAuctions = [], b_HasWork = None\<rparr>"

definition claimToHaveWork :: "string \<Rightarrow> Batch \<Rightarrow> Batch" where
  "claimToHaveWork traceID b =
     (case b_HasWork b of None \<Rightarrow> b\<lparr>b_HasWork := Some traceID\<rparr> | Some _ \<Rightarrow> b)"

definition start_auctions :: "int \<Rightarrow> LRPStartRequest \<Rightarrow> LRPAuction list" where
  "start_auctions now start =
     map (\<lambda>index. NewLRPAuction
            (NewSchedulingLRP [] (NewActualLRPKey (lsr_ProcessGuid start) (i32 index) (lsr_Domain start))
               (lsr_Resource start) (lsr_Constraint start)) now)
         (lsr_Indices start)"

definition AddLRPStarts :: "int \<Rightarrow> LRPStartRequest list \<Rightarrow> string \<Rightarrow> Batch \<Rightarrow> Batch" where
  "AddLRPStarts now starts traceID b =
     (let auctions = concat (map (start_auctions now) starts)
      in claimToHaveWork traceID (b\<lparr>b_lrpAuctions := b_lrpAuctions b @ auctions\<rparr>))"

definition AddTasks :: "int \<Rightarrow> TaskStartRequest list \<Rightarrow> string \<Rightarrow> Batch \<Rightarrow> Batch" where
  "AddTasks now tasks traceID b =
     (let auctions = map (\<lambda>t. NewTaskAuction (tsr_Task t) now) tasks
      in claimToHaveWork traceID (b\<lparr>b_taskAuctions := b_taskAuctions b @ auctions\<rparr>))"

definition DedupeAndDrain :: "Batch \<Rightarrow> (LRPAuction list \<times> TaskAuction list) \<times> Batch" where
  "DedupeAndDrain b =
     (let lrpAuctions = b_lrpAuctions b; taskAuctions = b_taskAuctions b;
          b' = b\<lparr>b_lrpAuctions := [], b_taskAuctions := [], b_HasWork := None\<rparr>
      in ((dedup_by la_id [] lrpAuctions, dedup_by ta_id [] taskAuctions), b'))"

subsection \<open>The handlers (auctioneer/handlers)\<close>

datatype response = StatusAccepted | StatusInternalServerError | StatusBadRequest

text \<open>
  The body of a request is \<open>None\<close> when reading it fails; \<open>decode\<close> is the JSON decoder.
\<close>

definition LRPAuctionHandler_Create ::
  "(string \<Rightarrow> LRPStartRequest list option) \<Rightarrow> int \<Rightarrow> string option \<Rightarrow> string \<Rightarrow> Batch \<Rightarrow> response \<times> Batch" where
  "LRPAuctionHandler_Create decode now body traceID b =
     (case body of
        None \<Rightarrow> (StatusInternalServerError, b)
      | Some payload \<Rightarrow>
          (case decode payload of
             None \<Rightarrow> (StatusBadRequest, b)
           | Some starts \<Rightarrow>
               let validStarts = filter (\<lambda>start. LRPStartRequest_Validate start = None) starts
               in (StatusAccepted, AddLRPStarts now validStarts traceID b)))"

definition TaskAuctionHandler_Create ::
  "(string \<Rightarrow> TaskStartRequest list option) \<Rightarrow> int \<Rightarrow> string option \<Rightarrow> string \<Rightarrow> Batch \<Rightarrow> response \<times> Batch" where
  "TaskAuctionHandler_Create decode now body traceID b =
     (case body of
        None \<Rightarrow> (StatusInternalServerError, b)
      | Some payload \<Rightarrow>
          (case decode payload of
             None \<Rightarrow> (StatusBadRequest, b)
           | Some tasks \<Rightarrow>
               let validTasks = filter (\<lambda>t. TaskStartRequest_Validate t = None) tasks
               in (StatusAccepted, AddTasks now validTasks traceID b)))"

subsection \<open>The delegate (auctioneer/auctionrunnerdelegate)\<close>

record CellPresence =
  cp_CellId :: string
  cp_RepAddress :: string
  cp_RepUrl :: string

definition FetchCellReps ::
  "(string \<Rightarrow> string \<Rightarrow> client option) \<Rightarrow> CellPresence list option \<Rightarrow> (string \<times> client) list option" where
  "FetchCellReps CreateClient cells =
     (case cells of
        None \<Rightarrow> None
      | Some cs \<Rightarrow>
          Some (fold (\<lambda>cell cellReps.
                        case CreateClient (cp_RepAddress cell) (cp_RepUrl cell) of
                          None \<Rightarrow> cellReps
                        | Some client \<Rightarrow> AList.update (cp_CellId cell) client cellReps) cs []))"

datatype bbs_call =
    RejectTask string string
  | FailActualLRP ActualLRPKey string

definition AuctionCompleted :: "AuctionResults \<Rightarrow> bbs_call list" where
  "AuctionCompleted results =
     map (\<lambda>task. RejectTask (task_TaskGuid (ta_Task task)) (ar_PlacementError (ta_Record task)))
       (FailedTasks results)
     @ map (\<lambda>lrp. FailActualLRP (lrp_Key (la_LRP lrp)) (ar_PlacementError (la_Record lrp)))
       (FailedLRPs results)"

subsection \<open>The runner (auction\_runner.go)\<close>

text \<open>
  The local variable \<open>hasWork\<close> of the loop is the channel of the batch, or a private channel
  into which work is put back when the reps cannot be fetched.
\<close>

datatype work_channel = BatchChannel | PrivateChannel "string option"

datatype runner_pc =
    Waiting
  | Fetching string
  | Built string zones cell_store
  | Crashed
  | Stopped

record auctionRunner =
  rn_batch :: Batch
  rn_hasWork :: work_channel
  rn_pc :: runner_pc
  rn_rounds :: "(AuctionRequest \<times> AuctionResults) list"
  rn_bbs :: "bbs_call list"

definition new_runner :: auctionRunner where
  "new_runner = \<lparr>rn_batch = NewBatch, rn_hasWork = BatchChannel, rn_pc = Waiting, rn_rounds = [], rn_bbs = []\<rparr>"

fun receive_work :: "auctionRunner \<Rightarrow> (string \<times> auctionRunner) option" where
  "receive_work r =
     (case rn_hasWork r of
        BatchChannel \<Rightarrow>
          (case b_HasWork (rn_batch r) of
             None \<Rightarrow> None
           | Some w \<Rightarrow> Some (w, r\<lparr>rn_batch := (rn_batch r)\<lparr>b_HasWork := None\<rparr>\<rparr>))
      | PrivateChannel None \<Rightarrow> None
      | PrivateChannel (Some w) \<Rightarrow> Some (w, r\<lparr>rn_hasWork := PrivateChannel None\<rparr>))"

record runner_config =
  rc_binPackFirstFitWeight :: float64
  rc_startingContainerWeight :: float64
  rc_startingContainerCountMaximum :: int

definition config_scheduler :: "runner_config \<Rightarrow> zones \<Rightarrow> int \<Rightarrow> Scheduler" where
  "config_scheduler cfg zs now =
     \<lparr>s_zones = zs, s_now = now, s_binPackFirstFitWeight = rc_binPackFirstFitWeight cfg,
      s_startingContainerWeight = rc_startingContainerWeight cfg,
      s_startingContainerCountMaximum = rc_startingContainerCountMaximum cfg\<rparr>"

text \<open>The rest of a round once the zones are known: drain the batch and schedule what it held.\<close>

definition finish_round ::
  "runner_config \<Rightarrow> (client \<Rightarrow> Work \<Rightarrow> Work option) \<Rightarrow> (ptr list \<Rightarrow> ptr list) \<Rightarrow> int
     \<Rightarrow> zones \<Rightarrow> cell_store \<Rightarrow> auctionRunner \<Rightarrow> auctionRunner" where
  "finish_round cfg Perform order now zs st r =
     (let ((lrpAuctions, taskAuctions), b) = DedupeAndDrain (rn_batch r); r1 = r\<lparr>rn_batch := b\<rparr> in
      if length lrpAuctions = 0 \<and> length taskAuctions = 0 then r1\<lparr>rn_pc := Waiting\<rparr>
      else
        let auctionRequest = \<lparr>req_LRPs = lrpAuctions, req_Tasks = taskAuctions\<rparr>
        in case Schedule (config_scheduler cfg zs now) Perform order st auctionRequest of
             None \<Rightarrow> r1\<lparr>rn_pc := Crashed\<rparr>
           | Some (auctionResults, _) \<Rightarrow>
               r1\<lparr>rn_pc := Waiting, rn_rounds := rn_rounds r1 @ [(auctionRequest, auctionResults)],
                  rn_bbs := rn_bbs r1 @ AuctionCompleted auctionResults\<rparr>)"

text \<open>
  A step is a request of the auctioneer's clients or a step of the loop. The answers of the bbs
  and of the reps, the decoder and the clock are arbitrary; \<open>reps\<close> says which functions are
  possible behaviours of the reps' \<open>Perform\<close>.
\<close>

inductive runner_step ::
  "((client \<Rightarrow> Work \<Rightarrow> Work option) \<Rightarrow> bool) \<Rightarrow> runner_config \<Rightarrow> auctionRunner \<Rightarrow> auctionRunner \<Rightarrow> bool"
  for reps cfg where
  request_lrps:
    "runner_step reps cfg r
       (r\<lparr>rn_batch := snd (LRPAuctionHandler_Create decode now body traceID (rn_batch r))\<rparr>)"
| request_tasks:
    "runner_step reps cfg r
       (r\<lparr>rn_batch := snd (TaskAuctionHandler_Create decodeT now body traceID (rn_batch r))\<rparr>)"
| receive:
    "rn_pc r = Waiting \<Longrightarrow> receive_work r = Some (w, r') \<Longrightarrow>
     runner_step reps cfg r (r'\<lparr>rn_pc := Fetching w\<rparr>)"
| fetch_fails:
    "rn_pc r = Fetching w \<Longrightarrow> FetchCellReps CreateClient cells = None \<Longrightarrow>
     runner_step reps cfg r (r\<lparr>rn_hasWork := PrivateChannel (Some w), rn_pc := Waiting\<rparr>)"
| fetch_succeeds:
    "rn_pc r = Fetching w \<Longrightarrow> FetchCellReps CreateClient cells = Some clients \<Longrightarrow>
     (\<And>i. mset (visits i) = mset clients) \<Longrightarrow>
     FetchStateAndBuildZones State visits (rc_binPackFirstFitWeight cfg) = (zs, st) \<Longrightarrow>
     runner_step reps cfg r (r\<lparr>rn_hasWork := BatchChannel, rn_pc := Built w zs st\<rparr>)"
| schedule:
    "rn_pc r = Built w zs st \<Longrightarrow> reps Perform \<Longrightarrow> (\<And>ps. mset (order ps) = mset ps) \<Longrightarrow>
     runner_step reps cfg r (finish_round cfg Perform order now zs st r)"
| stop:
    "rn_pc r = Waiting \<Longrightarrow> runner_step reps cfg r (r\<lparr>rn_pc := Stopped\<rparr>)"

inductive runner_reach ::
  "((client \<Rightarrow> Work \<Rightarrow> Work option) \<Rightarrow> bool) \<Rightarrow> runner_config \<Rightarrow> auctionRunner \<Rightarrow> bool"
  for reps cfg where
  initially: "runner_reach reps cfg new_runner"
| continue: "runner_reach reps cfg r \<Longrightarrow> runner_step reps cfg r r' \<Longrightarrow> runner_reach reps cfg r'"

subsection \<open>Lemmas: the batch\<close>

lemma claimToHaveWork_simps [simp]:
  "b_lrpAuctions (claimToHaveWork t b) = b_lrpAuctions b"
  "b_taskAuctions (claimToHaveWork t b) = b_taskAuctions b"
  "b_HasWork (claimToHaveWork t b) \<noteq> None"
  by (auto simp: claimToHaveWork_def split: option.split)

lemma Create_cases:
  "snd (LRPAuctionHandler_Create decode now body traceID b) = b
   \<or> b_HasWork (snd (LRPAuctionHandler_Create decode now body traceID b)) \<noteq> None"
  "snd (TaskAuctionHandler_Create decodeT now body traceID b) = b
   \<or> b_HasWork (snd (TaskAuctionHandler_Create decodeT now body traceID b)) \<noteq> None"
  by (auto simp: LRPAuctionHandler_Create_def TaskAuctionHandler_Create_def AddLRPStarts_def AddTasks_def
      Let_def split: option.splits)

definition batch_empty :: "Batch \<Rightarrow> bool" where
  "batch_empty b \<longleftrightarrow> b_lrpAuctions b = [] \<and> b_taskAuctions b = []"

definition batch_valid :: "Batch \<Rightarrow> bool" where
  "batch_valid b \<longleftrightarrow>
     list_all (\<lambda>a. Resource_Valid (lrp_Resource (la_LRP a))) (b_lrpAuctions b)
     \<and> list_all (\<lambda>a. Resource_Valid (task_Resource (ta_Task a))) (b_taskAuctions b)"

lemma start_auctions_valid:
  "LRPStartRequest_Validate start = None \<Longrightarrow> a \<in> set (start_auctions now start) \<Longrightarrow>
     Resource_Valid (lrp_Resource (la_LRP a))"
  by (auto simp: start_auctions_def NewLRPAuction_def NewSchedulingLRP_def LRPStartRequest_Validate_def
      split: if_splits)

lemma Create_valid:
  assumes "batch_valid b"
  shows "batch_valid (snd (LRPAuctionHandler_Create decode now body traceID b))"
    and "batch_valid (snd (TaskAuctionHandler_Create decodeT now body traceID b))"
  using assms start_auctions_valid
  by (auto simp: batch_valid_def LRPAuctionHandler_Create_def TaskAuctionHandler_Create_def AddLRPStarts_def
      AddTasks_def NewTaskAuction_def TaskStartRequest_Validate_def list_all_iff Let_def
      split: option.splits if_splits)

lemma batch_valid_take [simp]: "batch_valid (b\<lparr>b_HasWork := h\<rparr>) = batch_valid b"
  by (simp add: batch_valid_def)

lemma DedupeAndDrain_valid:
  "batch_valid b \<Longrightarrow> DedupeAndDrain b = ((l, t), b') \<Longrightarrow>
     valid_request \<lparr>req_LRPs = l, req_Tasks = t\<rparr> \<and> batch_valid b' \<and> batch_empty b'"
  using dedup_by_subset [of la_id "[]" "b_lrpAuctions b"] dedup_by_subset [of ta_id "[]" "b_taskAuctions b"]
  by (auto simp: batch_valid_def DedupeAndDrain_def valid_request_def batch_empty_def list_all_iff Let_def)

subsection \<open>The invariant of the runner\<close>

text \<open>
  Requests in the batch have valid resources; a batch that holds work is announced by a token in
  the channel the loop waits on, or the loop is on its way to drain it; the zones of a round are
  those the builder makes; and the loop has not crashed.
\<close>

definition runner_inv :: "auctionRunner \<Rightarrow> bool" where
  "runner_inv r \<longleftrightarrow>
     batch_valid (rn_batch r)
     \<and> rn_pc r \<noteq> Crashed
     \<and> (case rn_pc r of
          Waiting \<Rightarrow> (rn_hasWork r = BatchChannel \<and> (\<not> batch_empty (rn_batch r) \<longrightarrow> b_HasWork (rn_batch r) \<noteq> None))
             \<or> (\<exists>w. rn_hasWork r = PrivateChannel (Some w))
        | Built w zs st \<Rightarrow> rn_hasWork r = BatchChannel \<and> distinct (zone_ptrs zs) \<and> idle_cells (zone_ptrs zs) st
        | _ \<Rightarrow> True)
     \<and> list_all (\<lambda>(req, res).
          mset (map la_id (SuccessfulLRPs res @ FailedLRPs res)) = mset (map la_id (req_LRPs req))
          \<and> mset (map ta_id (SuccessfulTasks res @ FailedTasks res)) = mset (map ta_id (req_Tasks req)))
         (rn_rounds r)"

lemma runner_inv_init: "runner_inv new_runner"
  by (simp add: runner_inv_def new_runner_def NewBatch_def batch_valid_def batch_empty_def)

lemma built_zones:
  assumes "FetchStateAndBuildZones State visits weight = (zs, st)"
  shows "distinct (zone_ptrs zs) \<and> idle_cells (zone_ptrs zs) st"
proof -
  obtain i where "fetchStateAndBuildZones (State i) (visits i) weight = (zs, st)"
    using fetch_attempts_first [of 3 State visits weight 0] assms
    by (auto simp: FetchStateAndBuildZones_def)
  then show ?thesis using fetchStateAndBuildZones_facts(1) built_idle by blast
qed

lemma finish_round_inv:
  assumes inv: "runner_inv r" and pc: "rn_pc r = Built w zs st" and rep: "returns_part Perform"
    and order: "\<And>ps. mset (order ps) = mset ps"
  shows "runner_inv (finish_round cfg Perform order now zs st r)"
proof -
  obtain l t b' where dr: "DedupeAndDrain (rn_batch r) = ((l, t), b')" by (metis prod.collapse)
  let ?s = "config_scheduler cfg zs now" and ?req = "\<lparr>req_LRPs = l, req_Tasks = t\<rparr>"
  have b': "batch_valid b'" "batch_empty b'"
    using DedupeAndDrain_valid [OF _ dr] inv by (auto simp: runner_inv_def)
  have ids: "distinct (map la_id l)" "distinct (map ta_id t)"
    using dr distinct_dedup_by by (auto simp: DedupeAndDrain_def Let_def)
  have z: "distinct (zone_ptrs zs)" "idle_cells (zone_ptrs zs) st" "rn_hasWork r = BatchChannel"
    using inv pc by (auto simp: runner_inv_def)
  obtain res st' where sch: "Schedule ?s Perform order st ?req = Some (res, st')"
    and m: "mset (map la_id (SuccessfulLRPs res @ FailedLRPs res)) = mset (map la_id (req_LRPs ?req))"
      "mset (map ta_id (SuccessfulTasks res @ FailedTasks res)) = mset (map ta_id (req_Tasks ?req))"
    using Schedule_conserved_any [where s = ?s and req = ?req and st = st, OF _ _ _ _ rep order] z ids
    by (auto simp: config_scheduler_def)
  show ?thesis
  proof (cases "l = [] \<and> t = []")
    case True
    then show ?thesis
      using inv b' z dr by (simp add: finish_round_def runner_inv_def)
  next
    case False
    then have "finish_round cfg Perform order now zs st r =
        r\<lparr>rn_batch := b', rn_pc := Waiting, rn_rounds := rn_rounds r @ [(?req, res)],
          rn_bbs := rn_bbs r @ AuctionCompleted res\<rparr>"
      using dr sch by (auto simp: finish_round_def Let_def)
    then show ?thesis using inv b' z m by (simp add: runner_inv_def)
  qed
qed

lemma request_inv:
  assumes "runner_inv r" and "batch_valid b" and "b = rn_batch r \<or> b_HasWork b \<noteq> None"
  shows "runner_inv (r\<lparr>rn_batch := b\<rparr>)"
  using assms by (auto simp: runner_inv_def split: runner_pc.splits)

lemma receive_inv:
  assumes "runner_inv r" and "receive_work r = Some (w, r')"
  shows "runner_inv (r'\<lparr>rn_pc := Fetching w\<rparr>)"
  using assms by (auto simp: runner_inv_def split: work_channel.splits option.splits)

lemma runner_step_inv:
  assumes "runner_step reps cfg r r'" and "runner_inv r" and "\<And>Perform. reps Perform \<Longrightarrow> returns_part Perform"
  shows "runner_inv r'"
  using assms
proof (induction rule: runner_step.induct)
  case (request_lrps r decode now body traceID)
  then show ?case
    using request_inv Create_valid(1) Create_cases(1) by (metis runner_inv_def)
next
  case (request_tasks r decodeT now body traceID)
  then show ?case
    using request_inv Create_valid(2) Create_cases(2) by (metis runner_inv_def)
next
  case (receive r w r')
  then show ?case using receive_inv by blast
next
  case (fetch_fails r w CreateClient cells)
  then show ?case by (simp add: runner_inv_def)
next
  case (fetch_succeeds r w CreateClient cells clients visits State zs st)
  then show ?case using built_zones by (auto simp: runner_inv_def)
next
  case (schedule r w zs st Perform order now)
  then show ?case using finish_round_inv by blast
next
  case (stop r)
  then show ?case by (simp add: runner_inv_def)
qed

lemma runner_reach_inv:
  "runner_reach reps cfg r \<Longrightarrow> (\<And>Perform. reps Perform \<Longrightarrow> returns_part Perform) \<Longrightarrow> runner_inv r"
  by (induction rule: runner_reach.induct) (auto intro: runner_inv_init runner_step_inv)

subsection \<open>Properties of the batch and the runner\<close>

text \<open>
  C13. The loop of the auctioneer loses nothing and never crashes. As long as the reps return only
  work they were sent, in every reachable state of the runner, under every interleaving with
  requests and with failures to reach the bbs or the reps: the loop has not crashed; every round
  that finished answered exactly the requests it drained; and if the batch holds requests while
  the loop waits, there is a token in the channel it waits on, so the requests will be drained.
\<close>

theorem runner_sound:
  assumes "runner_reach reps cfg r" and "\<And>Perform. reps Perform \<Longrightarrow> returns_part Perform"
  shows "rn_pc r \<noteq> Crashed
    \<and> (rn_pc r = Waiting \<and> \<not> batch_empty (rn_batch r) \<longrightarrow> receive_work r \<noteq> None)
    \<and> (\<forall>(req, res) \<in> set (rn_rounds r).
         mset (map la_id (SuccessfulLRPs res @ FailedLRPs res)) = mset (map la_id (req_LRPs req))
         \<and> mset (map ta_id (SuccessfulTasks res @ FailedTasks res)) = mset (map ta_id (req_Tasks req)))"
  using runner_reach_inv [OF assms]
  by (auto simp: runner_inv_def list_all_iff split: option.splits)

definition dep_config :: runner_config where
  "dep_config = \<lparr>rc_binPackFirstFitWeight = Fin 0, rc_startingContainerWeight = Fin 0,
     rc_startingContainerCountMaximum = 0\<rparr>"

definition dep_busy :: auctionRunner where
  "dep_busy = new_runner\<lparr>rn_batch := snd (TaskAuctionHandler_Create
     (\<lambda>_. Some [\<lparr>tsr_Task = ta_Task dep_task\<rparr>]) 3 (Some []) ''trace'' (rn_batch new_runner))\<rparr>"

theorem runner_sound_witness:
  "runner_reach (\<lambda>P. P = dep_Perform) dep_config dep_busy \<and> \<not> batch_empty (rn_batch dep_busy)
   \<and> receive_work dep_busy \<noteq> None"
proof -
  have reach: "runner_reach (\<lambda>P. P = dep_Perform) dep_config dep_busy"
    unfolding dep_busy_def by (rule runner_reach.continue [OF runner_reach.initially runner_step.request_tasks])
  have "\<not> batch_empty (rn_batch dep_busy)" "rn_pc dep_busy = Waiting"
    by (simp_all add: dep_busy_def new_runner_def TaskAuctionHandler_Create_def AddTasks_def batch_empty_def
        TaskStartRequest_Validate_def dep_task_def NewTaskAuction_def NewSchedulingTask_def NewResource_def
        Resource_Valid_def PlacementConstraint_Valid_def dep_constraint_def Let_def)
  then show ?thesis
    using runner_sound [OF reach] reach dep_returns_part by blast
qed

text \<open>
  Draining a batch removes everything from it, its token included, and hands out every
  identifier that was in it exactly once, with the auction that was added first.
\<close>

theorem DedupeAndDrain_drains:
  "case DedupeAndDrain b of ((lrps, tasks), b') \<Rightarrow>
     b' = NewBatch
     \<and> distinct (map la_id lrps) \<and> la_id ` set lrps = la_id ` set (b_lrpAuctions b)
     \<and> (a \<in> set lrps \<longleftrightarrow> find (\<lambda>x. la_id x = la_id a) (b_lrpAuctions b) = Some a)
     \<and> distinct (map ta_id tasks) \<and> ta_id ` set tasks = ta_id ` set (b_taskAuctions b)
     \<and> (t \<in> set tasks \<longleftrightarrow> find (\<lambda>x. ta_id x = ta_id t) (b_taskAuctions b) = Some t)"
  by (simp add: DedupeAndDrain_def NewBatch_def Let_def distinct_dedup_by dedup_by_keys dedup_by_first)

text \<open>
  The identifier of an LRP, its process guid and index joined by a dot, determines both, also
  when the process guid contains dots; so identifiers of different instances never collide in
  the maps that \<open>Schedule\<close> and \<open>DedupeAndDrain\<close> key by them.
\<close>

theorem LRP_Identifier_unique:
  "LRP_Identifier a = LRP_Identifier b \<longleftrightarrow>
     key_ProcessGuid (lrp_Key a) = key_ProcessGuid (lrp_Key b)
     \<and> key_Index (lrp_Key a) = key_Index (lrp_Key b)"
  by (rule LRP_Identifier_inject)

end
