(* ===== verification/Operation_Queue.thy ===== *)
theory Operation_Queue
  imports Go_Prelude "HOL-Library.Sublist"
begin

section \<open>The keyed operation queue (operationq/queue.go)\<close>

text \<open>
  The rep and the route emitter run their operations through this queue: operations with the
  same key one after the other, in the order they were pushed; when more than \<open>capacity\<close> wait
  for a key, the oldest are dropped. The goroutine \<open>run\<close> serialises pushes and completions, so
  the queue is a state with two operations, and a step relation interleaves them with the
  goroutines that execute operations. \<open>None\<close> is the panic of a \<open>nil\<close> buffer.

  The Go interface \<open>buffer\<close> is the locale \<open>op_buffer\<close>, interpreted on the sliding buffer.
\<close>

subsection \<open>The sliding buffer\<close>

record 'op slidingBuffer =
  sb_buffer :: "'op list"
  sb_capacity :: int

definition newSlidingBuffer :: "int \<Rightarrow> 'op slidingBuffer" where
  "newSlidingBuffer cap = \<lparr>sb_buffer = [], sb_capacity = cap\<rparr>"

definition slidingBuffer_Push :: "'op \<Rightarrow> 'op slidingBuffer \<Rightarrow> bool \<times> 'op slidingBuffer" where
  "slidingBuffer_Push op b =
     (if sb_capacity b = 0 then (False, b)
      else
        let b1 = b\<lparr>sb_buffer := sb_buffer b @ [op]\<rparr>
        in if int (length (sb_buffer b1)) > sb_capacity b1
           then (True, b1\<lparr>sb_buffer := tl (sb_buffer b1)\<rparr>) else (True, b1))"

definition slidingBuffer_Pop :: "'op slidingBuffer \<Rightarrow> ('op \<times> 'op slidingBuffer) option" where
  "slidingBuffer_Pop b =
     (case sb_buffer b of [] \<Rightarrow> None | elem # rest \<Rightarrow> Some (elem, b\<lparr>sb_buffer := rest\<rparr>))"

definition slidingBuffer_Len :: "'op slidingBuffer \<Rightarrow> nat" where
  "slidingBuffer_Len b = length (sb_buffer b)"

subsection \<open>The multi queue\<close>

record 'op multiQueue =
  mq_queues :: "(string \<times> 'op slidingBuffer) list"
  mq_capacity :: int
  mq_running :: "'op list"
  mq_pushed :: "'op list"
  mq_started :: "'op list"

text \<open>
  \<open>mq_running\<close> are the goroutines of \<open>execute\<close>; \<open>mq_pushed\<close> and \<open>mq_started\<close> record the
  operations in the order in which they were pushed and started.
\<close>

definition NewSlidingQueue :: "int \<Rightarrow> 'op multiQueue" where
  "NewSlidingQueue cap =
     \<lparr>mq_queues = [], mq_capacity = cap, mq_running = [], mq_pushed = [], mq_started = []\<rparr>"

definition go_execute :: "'op \<Rightarrow> 'op multiQueue \<Rightarrow> 'op multiQueue" where
  "go_execute op q = q\<lparr>mq_running := mq_running q @ [op], mq_started := mq_started q @ [op]\<rparr>"

definition run_complete :: "string \<Rightarrow> 'op multiQueue \<Rightarrow> 'op multiQueue option" where
  "run_complete queueKey q =
     (case map_of (mq_queues q) queueKey of
        None \<Rightarrow> None
      | Some queue \<Rightarrow>
          if slidingBuffer_Len queue = 0
          then Some (q\<lparr>mq_queues := AList.delete queueKey (mq_queues q)\<rparr>)
          else
            (case slidingBuffer_Pop queue of
               None \<Rightarrow> Some q
             | Some (op, queue') \<Rightarrow>
                 Some (go_execute op (q\<lparr>mq_queues := AList.update queueKey queue' (mq_queues q)\<rparr>))))"

definition run_push :: "('op \<Rightarrow> string) \<Rightarrow> 'op \<Rightarrow> 'op multiQueue \<Rightarrow> 'op multiQueue" where
  "run_push Key op q =
     (let q = q\<lparr>mq_pushed := mq_pushed q @ [op]\<rparr> in
      case map_of (mq_queues q) (Key op) of
        Some queue \<Rightarrow> q\<lparr>mq_queues := AList.update (Key op) (snd (slidingBuffer_Push op queue)) (mq_queues q)\<rparr>
      | None \<Rightarrow>
          go_execute op
            (q\<lparr>mq_queues := AList.update (Key op) (newSlidingBuffer (mq_capacity q)) (mq_queues q)\<rparr>))"

text \<open>An operation finishes and its goroutine hands its key to \<open>run\<close>; \<open>None\<close> is a crashed queue.\<close>

inductive queue_step :: "('op \<Rightarrow> string) \<Rightarrow> 'op multiQueue \<Rightarrow> 'op multiQueue option \<Rightarrow> bool" for Key where
  push: "queue_step Key q (Some (run_push Key op q))"
| complete: "op \<in> set (mq_running q) \<Longrightarrow>
    queue_step Key q (run_complete (Key op) (q\<lparr>mq_running := remove1 op (mq_running q)\<rparr>))"

inductive queue_reach :: "('op \<Rightarrow> string) \<Rightarrow> int \<Rightarrow> 'op multiQueue option \<Rightarrow> bool" for Key cap where
  initially: "queue_reach Key cap (Some (NewSlidingQueue cap))"
| continue: "queue_reach Key cap (Some q) \<Longrightarrow> queue_step Key q q' \<Longrightarrow> queue_reach Key cap q'"

subsection \<open>The contract of a buffer\<close>

locale op_buffer =
  fixes content :: "'b \<Rightarrow> 'op list"
    and bound :: "'b \<Rightarrow> int"
    and push :: "'op \<Rightarrow> 'b \<Rightarrow> bool \<times> 'b"
    and pop :: "'b \<Rightarrow> ('op \<times> 'b) option"
    and len :: "'b \<Rightarrow> nat"
  assumes push_content: "content (snd (push op b)) =
      (if bound b = 0 then content b
       else if int (length (content b)) < bound b then content b @ [op] else tl (content b @ [op]))"
    and push_bound: "bound (snd (push op b)) = bound b"
    and pop_empty: "pop b = None \<longleftrightarrow> content b = []"
    and pop_first: "pop b = Some (op, b') \<Longrightarrow> content b = op # content b' \<and> bound b' = bound b"
    and len_content: "len b = length (content b)"
begin

lemma push_subseq: "subseq (content (snd (push op b))) (content b @ [op])"
proof -
  have tl: "subseq (tl xs) xs" for xs :: "'op list" by (cases xs) auto
  have app: "subseq (content b) (content b @ [op])" by (rule subseq_rev_drop_many) simp
  show ?thesis using tl [of "content b @ [op]"] app by (simp add: push_content)
qed

lemma push_last: "bound b > 0 \<Longrightarrow> int (length (content b)) \<le> bound b \<Longrightarrow>
    content (snd (push op b)) \<noteq> [] \<and> last (content (snd (push op b))) = op"
  by (cases "content b") (auto simp: push_content)

lemma push_within: "int (length (content b)) \<le> max 0 (bound b) \<Longrightarrow>
    int (length (content (snd (push op b)))) \<le> max 0 (bound b)"
  by (auto simp: push_content)

lemma push_room: "int (length (content b)) < bound b \<Longrightarrow> content (snd (push op b)) = content b @ [op]"
  by (simp add: push_content)

lemma pushes_room:
  "int (length (content b) + length ops) \<le> bound b \<Longrightarrow>
     content (fold (\<lambda>op b. snd (push op b)) ops b) = content b @ ops"
proof (induction ops arbitrary: b)
  case (Cons op ops)
  then have "content (snd (push op b)) = content b @ [op]" by (intro push_room) simp
  then show ?case using Cons.IH [of "snd (push op b)"] Cons.prems by (simp add: push_bound)
qed simp

end

interpretation sliding: op_buffer sb_buffer sb_capacity slidingBuffer_Push slidingBuffer_Pop slidingBuffer_Len
  by unfold_locales
     (auto simp: slidingBuffer_Push_def slidingBuffer_Pop_def slidingBuffer_Len_def Let_def split: list.splits)

subsection \<open>The invariant of the queue\<close>

definition waiting :: "string \<Rightarrow> 'op multiQueue \<Rightarrow> 'op list" where
  "waiting k q = (case map_of (mq_queues q) k of None \<Rightarrow> [] | Some b \<Rightarrow> sb_buffer b)"

abbreviation with_key :: "('op \<Rightarrow> string) \<Rightarrow> string \<Rightarrow> 'op list \<Rightarrow> 'op list" where
  "with_key Key k ops \<equiv> filter (\<lambda>op. Key op = k) ops"

text \<open>
  The history of one key: what was started and what waits is a subsequence of what was pushed,
  and unless the capacity is zero it ends with the operation pushed last.
\<close>

definition fifo :: "int \<Rightarrow> 'op list \<Rightarrow> 'op list \<Rightarrow> 'op list \<Rightarrow> bool" where
  "fifo cap started waits pushed \<longleftrightarrow>
     subseq (started @ waits) pushed
     \<and> (0 < cap \<and> pushed \<noteq> [] \<longrightarrow> started @ waits \<noteq> [] \<and> last (started @ waits) = last pushed)"

lemma fifo_start: "fifo cap s [] p \<Longrightarrow> fifo cap (s @ [op]) [] (p @ [op])"
  by (simp add: fifo_def)

lemma fifo_pop: "fifo cap s (op # w) p \<Longrightarrow> fifo cap (s @ [op]) w p"
  by (simp add: fifo_def)

lemma fifo_push:
  assumes "fifo cap s (sb_buffer b) p" and "sb_capacity b = cap"
    and "int (length (sb_buffer b)) \<le> max 0 cap"
  shows "fifo cap s (sb_buffer (snd (slidingBuffer_Push op b))) (p @ [op])"
proof -
  let ?b = "snd (slidingBuffer_Push op b)"
  have "subseq (s @ sb_buffer ?b) (s @ sb_buffer b @ [op])"
    using sliding.push_subseq by (intro list_emb_append_mono) auto
  moreover have "subseq (s @ sb_buffer b @ [op]) (p @ [op])"
    using assms(1) by (simp add: fifo_def append_assoc [symmetric] del: append_assoc)
  moreover have "0 < cap \<Longrightarrow> sb_buffer ?b \<noteq> [] \<and> last (sb_buffer ?b) = op"
    using sliding.push_last [of b op] assms(2,3) by simp
  ultimately show ?thesis
    by (auto simp: fifo_def intro: subseq_order.trans)
qed

definition queue_inv :: "('op \<Rightarrow> string) \<Rightarrow> int \<Rightarrow> 'op multiQueue \<Rightarrow> bool" where
  "queue_inv Key cap q \<longleftrightarrow>
     mq_capacity q = cap
     \<and> distinct (map Key (mq_running q))
     \<and> dom (map_of (mq_queues q)) = Key ` set (mq_running q)
     \<and> (\<forall>k b. map_of (mq_queues q) k = Some b \<longrightarrow>
          sb_capacity b = cap \<and> int (length (sb_buffer b)) \<le> max 0 cap
          \<and> list_all (\<lambda>op. Key op = k) (sb_buffer b))
     \<and> (\<forall>k. fifo cap (with_key Key k (mq_started q)) (waiting k q) (with_key Key k (mq_pushed q)))"

lemma queue_inv_fifo:
  "queue_inv Key cap q \<Longrightarrow> fifo cap (with_key Key k (mq_started q)) (waiting k q) (with_key Key k (mq_pushed q))"
  by (simp add: queue_inv_def)

lemma queue_inv_init: "queue_inv Key cap (NewSlidingQueue cap)"
  by (simp add: queue_inv_def NewSlidingQueue_def waiting_def fifo_def)

lemma running_remove:
  assumes "distinct (map Key xs)" and "op \<in> set xs"
  shows "distinct (map Key (remove1 op xs))" and "Key ` set (remove1 op xs) = Key ` set xs - {Key op}"
proof -
  have d: "distinct xs" "inj_on Key (set xs)" using assms(1) by (auto simp: distinct_map)
  show "distinct (map Key (remove1 op xs))"
    using d by (auto simp: distinct_map inj_on_def dest: notin_set_remove1)
  show "Key ` set (remove1 op xs) = Key ` set xs - {Key op}"
    using assms(2) d by (auto simp: set_remove1_eq inj_on_def)
qed

lemma run_push_inv:
  assumes inv: "queue_inv Key cap q"
  shows "queue_inv Key cap (run_push Key op q)"
proof (cases "map_of (mq_queues q) (Key op)")
  case None
  have fresh: "Key op \<notin> Key ` set (mq_running q)"
    using inv None by (auto simp: queue_inv_def)
  have "fifo cap (with_key Key k (mq_started (run_push Key op q))) (waiting k (run_push Key op q))
      (with_key Key k (mq_pushed (run_push Key op q)))" for k
  proof (cases "k = Key op")
    case True
    then have "fifo cap (with_key Key k (mq_started q)) [] (with_key Key k (mq_pushed q))"
      using queue_inv_fifo [OF inv, of k] None by (simp add: waiting_def)
    from fifo_start [OF this, of op] True None show ?thesis
      by (simp add: run_push_def go_execute_def waiting_def newSlidingBuffer_def)
  next
    case False
    then show ?thesis
      using inv None by (auto simp: queue_inv_def run_push_def go_execute_def waiting_def)
  qed
  then show ?thesis
    using inv None fresh
    by (simp add: queue_inv_def) (auto simp: run_push_def go_execute_def newSlidingBuffer_def)
next
  case (Some b)
  let ?b = "snd (slidingBuffer_Push op b)"
  have b: "sb_capacity b = cap" "int (length (sb_buffer b)) \<le> max 0 cap" "list_all (\<lambda>o'. Key o' = Key op) (sb_buffer b)"
    using inv Some by (auto simp: queue_inv_def)
  have b': "sb_capacity ?b = cap" "int (length (sb_buffer ?b)) \<le> max 0 cap"
    using sliding.push_bound [of op b] sliding.push_within [of b op] b(1,2) by auto
  have "set (sb_buffer ?b) \<subseteq> set (sb_buffer b @ [op])"
    using sliding.push_content [of op b] by (cases "sb_buffer b") (auto split: if_splits)
  then have keys: "list_all (\<lambda>o'. Key o' = Key op) (sb_buffer ?b)"
    using b(3) by (auto simp: list_all_iff)
  have "fifo cap (with_key Key k (mq_started (run_push Key op q))) (waiting k (run_push Key op q))
      (with_key Key k (mq_pushed (run_push Key op q)))" for k
  proof (cases "k = Key op")
    case True
    then have "fifo cap (with_key Key k (mq_started q)) (sb_buffer b) (with_key Key k (mq_pushed q))"
      using queue_inv_fifo [OF inv, of k] Some by (simp add: waiting_def)
    from fifo_push [OF this b(1,2), of op] True Some show ?thesis
      by (simp add: run_push_def waiting_def)
  next
    case False
    then show ?thesis using inv Some by (auto simp: queue_inv_def run_push_def waiting_def)
  qed
  then show ?thesis
    using inv Some b' keys by (simp add: queue_inv_def) (auto simp: run_push_def)
qed

lemma run_complete_inv:
  assumes inv: "queue_inv Key cap q" and op: "op \<in> set (mq_running q)"
  shows "\<exists>q'. run_complete (Key op) (q\<lparr>mq_running := remove1 op (mq_running q)\<rparr>) = Some q' \<and> queue_inv Key cap q'"
proof -
  let ?q = "q\<lparr>mq_running := remove1 op (mq_running q)\<rparr>"
  have "Key op \<in> dom (map_of (mq_queues q))" using inv op by (simp add: queue_inv_def)
  then obtain b where b: "map_of (mq_queues q) (Key op) = Some b" by blast
  have rem: "distinct (map Key (remove1 op (mq_running q)))"
    "Key ` set (remove1 op (mq_running q)) = Key ` set (mq_running q) - {Key op}"
    using running_remove [OF _ op, of Key] inv by (auto simp: queue_inv_def)
  show ?thesis
  proof (cases "sb_buffer b")
    case Nil
    let ?d = "?q\<lparr>mq_queues := AList.delete (Key op) (mq_queues q)\<rparr>"
    have "run_complete (Key op) ?q = Some ?d"
      using b Nil by (simp add: run_complete_def slidingBuffer_Len_def)
    moreover have "waiting k ?d = waiting k q" for k
      using b Nil by (cases "k = Key op") (auto simp: waiting_def)
    then have "queue_inv Key cap ?d"
      using inv rem by (auto simp: queue_inv_def split: if_splits)
    ultimately show ?thesis by blast
  next
    case (Cons x xs)
    let ?b = "b\<lparr>sb_buffer := xs\<rparr>"
    let ?p = "go_execute x (?q\<lparr>mq_queues := AList.update (Key op) ?b (mq_queues q)\<rparr>)"
    have kx: "Key x = Key op" "list_all (\<lambda>o'. Key o' = Key op) xs" "sb_capacity b = cap"
      "int (length xs) \<le> max 0 cap"
      using inv b Cons by (fastforce simp: queue_inv_def)+
    have "run_complete (Key op) ?q = Some ?p"
      using b Cons by (simp add: run_complete_def slidingBuffer_Len_def slidingBuffer_Pop_def)
    moreover have "fifo cap (with_key Key k (mq_started ?p)) (waiting k ?p) (with_key Key k (mq_pushed ?p))" for k
    proof (cases "k = Key op")
      case True
      then have "fifo cap (with_key Key k (mq_started q)) (x # xs) (with_key Key k (mq_pushed q))"
        using queue_inv_fifo [OF inv, of k] b Cons by (simp add: waiting_def)
      from fifo_pop [OF this] True kx show ?thesis by (simp add: go_execute_def waiting_def)
    next
      case False
      then show ?thesis using inv kx by (auto simp: queue_inv_def go_execute_def waiting_def)
    qed
    then have "queue_inv Key cap ?p"
      using inv rem kx op by (simp add: queue_inv_def) (auto simp: go_execute_def)
    ultimately show ?thesis by blast
  qed
qed

lemma queue_reach_inv: "queue_reach Key cap q' \<Longrightarrow> \<exists>q. q' = Some q \<and> queue_inv Key cap q"
proof (induction rule: queue_reach.induct)
  case initially
  then show ?case using queue_inv_init by blast
next
  case (continue q q')
  have inv: "queue_inv Key cap q" using continue.IH by simp
  from continue.hyps(2) show ?case
  proof (cases rule: queue_step.cases)
    case (push op)
    then show ?thesis using run_push_inv [OF inv] by simp
  next
    case (complete op)
    then show ?thesis using run_complete_inv [OF inv] by simp
  qed
qed

subsection \<open>Properties of the queue\<close>

text \<open>
  C14. The queue runs operations as promised. In every reachable state the queue has not crashed;
  no two operations with the same key run at the same time; if operations wait for a key, one
  with that key is running, so they will be started when it completes; at most \<open>capacity\<close> wait
  per key; and for each key the operations started and waiting are, in order, a subsequence of
  those pushed, which for a positive capacity always includes the latest one.
\<close>

theorem queue_serialises:
  assumes "queue_reach Key cap q'"
  shows "\<exists>q. q' = Some q
    \<and> distinct (map Key (mq_running q))
    \<and> (waiting k q \<noteq> [] \<longrightarrow> k \<in> Key ` set (mq_running q))
    \<and> int (length (waiting k q)) \<le> max 0 cap
    \<and> subseq (with_key Key k (mq_started q) @ waiting k q) (with_key Key k (mq_pushed q))
    \<and> (0 < cap \<and> with_key Key k (mq_pushed q) \<noteq> [] \<longrightarrow>
         last (with_key Key k (mq_started q) @ waiting k q) = last (with_key Key k (mq_pushed q)))"
proof -
  obtain q where q: "q' = Some q" "queue_inv Key cap q"
    using queue_reach_inv [OF assms] by blast
  have "waiting k q \<noteq> [] \<Longrightarrow> k \<in> dom (map_of (mq_queues q))"
    by (auto simp: waiting_def split: option.splits)
  moreover have "int (length (waiting k q)) \<le> max 0 cap"
    using q(2) by (auto simp: queue_inv_def waiting_def split: option.splits)
  moreover have "fifo cap (with_key Key k (mq_started q)) (waiting k q) (with_key Key k (mq_pushed q))"
    using q(2) by (simp add: queue_inv_def)
  ultimately show ?thesis using q unfolding queue_inv_def fifo_def by auto
qed

definition ex_ops :: "nat multiQueue" where
  "ex_ops = run_push (\<lambda>_. ''k'') 3 (run_push (\<lambda>_. ''k'') 2 (run_push (\<lambda>_. ''k'') 1 (NewSlidingQueue 1)))"

theorem queue_serialises_witness:
  "queue_reach (\<lambda>_. ''k'') 1 (Some ex_ops) \<and> mq_started ex_ops = [1] \<and> waiting ''k'' ex_ops = [3]
   \<and> last (mq_started ex_ops @ waiting ''k'' ex_ops) = last (mq_pushed ex_ops)"
proof -
  have r: "queue_reach (\<lambda>_. ''k'') 1 (Some ex_ops)"
    unfolding ex_ops_def
    by (rule queue_reach.continue [OF _ queue_step.push])+ (rule queue_reach.initially)
  have v: "mq_started ex_ops = [1]" "waiting ''k'' ex_ops = [3]" "mq_pushed ex_ops = [1, 2, 3]"
    by (simp_all add: ex_ops_def run_push_def NewSlidingQueue_def go_execute_def waiting_def
        slidingBuffer_Push_def newSlidingBuffer_def)
  show ?thesis using queue_serialises [OF r, of "''k''"] r v by simp
qed

text \<open>
  Nothing is dropped below capacity: pushes onto the buffer of a key that stay within its
  capacity are all kept, in order.
\<close>

theorem slidingBuffer_keeps:
  assumes "int (length (sb_buffer b) + length ops) \<le> sb_capacity b"
  shows "sb_buffer (fold (\<lambda>op b. snd (slidingBuffer_Push op b)) ops b) = sb_buffer b @ ops"
  by (rule sliding.pushes_room [OF assms])

theorem slidingBuffer_keeps_witness:
  "sb_buffer (fold (\<lambda>op b. snd (slidingBuffer_Push op b)) [7, 8::nat] (newSlidingBuffer 2)) = [7, 8]"
  using slidingBuffer_keeps [of "newSlidingBuffer 2" "[7, 8]"] by (simp add: newSlidingBuffer_def)

end
