(* ===== verification/Executor_Types.thy ===== *)
theory Executor_Types
  imports Scheduling_Types
begin

section \<open>Containers and resources of the executor (executor/resources.go, client.go, errors.go)\<close>

text \<open>
  The data of the executor: the state of a container and its transitions, what a container is
  run with, the tags, the bookkeeping of a cell's resources, the requests of the client, the
  lifecycle events and the truncation of failure reasons.

  Values that the executor only stores and passes on (actions, check definitions) are their
  serialised form, a string. A Go map that may be \<open>nil\<close> is an option of an association list.
  A write to a \<open>nil\<close> map panics, which is the error \<open>ExecPanic\<close> here.
\<close>

type_synonym message = string
type_synonym str_map = "(string \<times> string) list"
type_synonym Tags = "str_map option"

subsection \<open>Errors\<close>

datatype exec_error =
    ErrContainerGuidNotAvailable
  | ErrInsufficientResourcesAvailable
  | ErrContainerNotFound
  | ErrGuidNotSpecified
  | ErrInvalidTransition
  | ErrMessage string
  | ExecPanic

fun exec_error_Error :: "exec_error \<Rightarrow> string" where
  "exec_error_Error ErrContainerGuidNotAvailable = ''container guid not available''"
| "exec_error_Error ErrInsufficientResourcesAvailable = ''insufficient resources available''"
| "exec_error_Error ErrContainerNotFound = ''container not found''"
| "exec_error_Error ErrGuidNotSpecified = ''container guid not specified''"
| "exec_error_Error ErrInvalidTransition = ''container cannot transition to given state''"
| "exec_error_Error (ErrMessage s) = s"
| "exec_error_Error ExecPanic = ''assignment to entry in nil map''"

subsection \<open>Resources\<close>

record ExecResource =
  er_MemoryMB :: int
  er_DiskMB :: int
  er_MaxPids :: int

definition NewExecResource :: "int \<Rightarrow> int \<Rightarrow> int \<Rightarrow> ExecResource" where
  "NewExecResource memoryMB diskMB maxPids =
     \<lparr>er_MemoryMB = memoryMB, er_DiskMB = diskMB, er_MaxPids = maxPids\<rparr>"

record ExecutorResources =
  ex_MemoryMB :: int
  ex_DiskMB :: int
  ex_Containers :: int

definition NewExecutorResources :: "int \<Rightarrow> int \<Rightarrow> int \<Rightarrow> ExecutorResources" where
  "NewExecutorResources memoryMB diskMB containers =
     \<lparr>ex_MemoryMB = memoryMB, ex_DiskMB = diskMB, ex_Containers = containers\<rparr>"

definition canSubtract :: "ExecutorResources \<Rightarrow> ExecResource \<Rightarrow> bool" where
  "canSubtract r res \<longleftrightarrow>
     ex_MemoryMB r \<ge> er_MemoryMB res \<and> ex_DiskMB r \<ge> er_DiskMB res \<and> ex_Containers r > 0"

definition ExecutorResources_Subtract ::
  "ExecutorResources \<Rightarrow> ExecResource \<Rightarrow> ExecutorResources option" where
  "ExecutorResources_Subtract r res =
     (if \<not> canSubtract r res then None
      else Some (r\<lparr>ex_MemoryMB := i64 (ex_MemoryMB r - er_MemoryMB res),
                   ex_DiskMB := i64 (ex_DiskMB r - er_DiskMB res),
                   ex_Containers := i64 (ex_Containers r - 1)\<rparr>))"

definition ExecutorResources_Add :: "ExecutorResources \<Rightarrow> ExecResource \<Rightarrow> ExecutorResources" where
  "ExecutorResources_Add r res =
     r\<lparr>ex_MemoryMB := i64 (ex_MemoryMB r + er_MemoryMB res),
       ex_DiskMB := i64 (ex_DiskMB r + er_DiskMB res),
       ex_Containers := i64 (ex_Containers r + 1)\<rparr>"

subsection \<open>Tags\<close>

definition tags_get :: "Tags \<Rightarrow> string \<Rightarrow> string" where
  "tags_get t k = (case t of None \<Rightarrow> [] | Some m \<Rightarrow> (case map_of m k of None \<Rightarrow> [] | Some v \<Rightarrow> v))"

definition map_add_all :: "(string \<times> 'v) list \<Rightarrow> (string \<times> 'v) list \<Rightarrow> (string \<times> 'v) list" where
  "map_add_all t other = fold (\<lambda>(k, v). AList.update k v) other t"

fun Tags_Add :: "Tags \<Rightarrow> Tags \<Rightarrow> Tags option" where
  "Tags_Add t None = Some t"
| "Tags_Add None (Some other) = (if other = [] then Some None else None)"
| "Tags_Add (Some t) (Some other) = Some (Some (map_add_all t other))"

definition Tags_Copy :: "Tags \<Rightarrow> Tags" where
  "Tags_Copy t = (case t of None \<Rightarrow> None | Some m \<Rightarrow> Some (map_add_all [] m))"

subsection \<open>What a container runs\<close>

record PortMapping =
  pm_ContainerPort :: int
  pm_HostPort :: int
  pm_ContainerTLSProxyPort :: int
  pm_HostTLSProxyPort :: int

record ProxyPortMapping =
  pp_AppPort :: int
  pp_ProxyPort :: int

record CachedDependency =
  cd_Name :: string
  cd_From :: string
  cd_To :: string
  cd_CacheKey :: string
  cd_LogSource :: string
  cd_ChecksumValue :: string
  cd_ChecksumAlgorithm :: string

record Sidecar =
  sc_Action :: "message option"
  sc_DiskMB :: int
  sc_MemoryMB :: int

text \<open>
  The configuration of a volume is a map to arbitrary JSON values: a string, a map of strings
  that may be \<open>nil\<close>, or any other value in its serialised form.
\<close>

datatype config_value = ConfString string | ConfMap "str_map option" | ConfOther message

type_synonym volume_config = "(string \<times> config_value) list"

record VolumeMount =
  vm_Driver :: string
  vm_VolumeId :: string
  vm_Config :: "volume_config option"
  vm_ContainerPath :: string
  vm_Mode :: int

record EnvironmentVariable =
  ev_Name :: string
  ev_Value :: string

record VolumeMountedFiles =
  vf_Path :: string
  vf_Content :: string

record MetricsConfig =
  mc_Guid :: string
  mc_Index :: int
  mc_Tags :: Tags

record LogConfig =
  lc_Guid :: string
  lc_Index :: int
  lc_SourceName :: string
  lc_Tags :: Tags

record SecurityGroupRule =
  sg_Protocol :: string
  sg_Destinations :: "string list"
  sg_Ports :: "int list option"
  sg_PortRange :: "(int \<times> int) option"
  sg_IcmpInfo :: "(int \<times> int) option"
  sg_Log :: bool

record RunInfo =
  ri_RootFSPath :: string
  ri_CPUWeight :: int
  ri_Ports :: "PortMapping list"
  ri_InternalRoutes :: "string list option"
  ri_LogConfig :: LogConfig
  ri_MetricsConfig :: MetricsConfig
  ri_StartTimeoutMs :: int
  ri_Privileged :: bool
  ri_CachedDependencies :: "CachedDependency list"
  ri_Setup :: "message option"
  ri_Action :: "message option"
  ri_Monitor :: "message option"
  ri_CheckDefinition :: "message option"
  ri_EgressRules :: "SecurityGroupRule list"
  ri_Env :: "EnvironmentVariable list"
  ri_TrustedSystemCertificatesPath :: string
  ri_VolumeMounts :: "VolumeMount list"
  ri_Network :: "str_map option"
  ri_CertificateProperties :: "string list"
  ri_ImageUsername :: string
  ri_ImagePassword :: string
  ri_EnableContainerProxy :: bool
  ri_Sidecars :: "Sidecar list"
  ri_LogRateLimitBytesPerSecond :: int
  ri_VolumeMountedFiles :: "VolumeMountedFiles list"

definition empty_LogConfig :: LogConfig where
  "empty_LogConfig = \<lparr>lc_Guid = [], lc_Index = 0, lc_SourceName = [], lc_Tags = None\<rparr>"

definition empty_MetricsConfig :: MetricsConfig where
  "empty_MetricsConfig = \<lparr>mc_Guid = [], mc_Index = 0, mc_Tags = None\<rparr>"

text \<open>The zero value of the struct: a reserved container has nothing to run yet.\<close>

definition empty_RunInfo :: RunInfo where
  "empty_RunInfo = \<lparr>
     ri_RootFSPath = [], ri_CPUWeight = 0, ri_Ports = [], ri_InternalRoutes = None,
     ri_LogConfig = empty_LogConfig, ri_MetricsConfig = empty_MetricsConfig,
     ri_StartTimeoutMs = 0, ri_Privileged = False, ri_CachedDependencies = [],
     ri_Setup = None, ri_Action = None, ri_Monitor = None, ri_CheckDefinition = None,
     ri_EgressRules = [], ri_Env = [], ri_TrustedSystemCertificatesPath = [],
     ri_VolumeMounts = [], ri_Network = None, ri_CertificateProperties = [],
     ri_ImageUsername = [], ri_ImagePassword = [], ri_EnableContainerProxy = False,
     ri_Sidecars = [], ri_LogRateLimitBytesPerSecond = 0, ri_VolumeMountedFiles = []\<rparr>"

subsection \<open>Containers\<close>

datatype State =
  StateInvalid | StateReserved | StateInitializing | StateCreated | StateRunning | StateCompleted

record ContainerRunResult =
  rr_Failed :: bool
  rr_FailureReason :: string
  rr_Retryable :: bool
  rr_Stopped :: bool

record Container =
  co_Guid :: string
  co_Resource :: ExecResource
  co_RunInfo :: RunInfo
  co_Tags :: Tags
  co_State :: State
  co_Routable :: bool
  co_AllocatedAt :: int
  co_ExternalIP :: string
  co_InternalIP :: string
  co_InternalIPv6 :: string
  co_RunResult :: ContainerRunResult
  co_MemoryLimit :: int
  co_DiskLimit :: int
  co_AdvertisePreferenceForInstanceAddress :: bool

definition NewContainerFromResource :: "string \<Rightarrow> ExecResource \<Rightarrow> Tags \<Rightarrow> Container" where
  "NewContainerFromResource guid resource tags = \<lparr>
     co_Guid = guid, co_Resource = resource, co_RunInfo = empty_RunInfo, co_Tags = tags,
     co_State = StateInvalid, co_Routable = False, co_AllocatedAt = 0,
     co_ExternalIP = [], co_InternalIP = [], co_InternalIPv6 = [],
     co_RunResult = \<lparr>rr_Failed = False, rr_FailureReason = [], rr_Retryable = False,
                     rr_Stopped = False\<rparr>,
     co_MemoryLimit = 0, co_DiskLimit = 0, co_AdvertisePreferenceForInstanceAddress = False\<rparr>"

definition ValidateTransitionTo :: "Container \<Rightarrow> State \<Rightarrow> bool" where
  "ValidateTransitionTo c newState =
     (if newState = StateCompleted then True
      else case co_State c of
          StateReserved \<Rightarrow> newState = StateInitializing
        | StateInitializing \<Rightarrow> newState = StateCreated
        | StateCreated \<Rightarrow> newState = StateRunning
        | _ \<Rightarrow> False)"

subsection \<open>Requests\<close>

record AllocationRequest =
  ar_Guid :: string
  ar_GenerateLogMetrics :: bool
  ar_Resource :: ExecResource
  ar_Tags :: Tags

definition NewAllocationRequest ::
  "string \<Rightarrow> ExecResource \<Rightarrow> bool \<Rightarrow> Tags \<Rightarrow> AllocationRequest" where
  "NewAllocationRequest guid resource generateLogMetrics tags =
     \<lparr>ar_Guid = guid, ar_GenerateLogMetrics = generateLogMetrics, ar_Resource = resource,
      ar_Tags = tags\<rparr>"

definition AllocationRequest_Validate :: "AllocationRequest \<Rightarrow> exec_error option" where
  "AllocationRequest_Validate a = (if ar_Guid a = [] then Some ErrGuidNotSpecified else None)"

record AllocationFailure =
  af_AllocationRequest :: AllocationRequest
  af_ErrorMsg :: string

definition NewAllocationFailure :: "AllocationRequest \<Rightarrow> string \<Rightarrow> AllocationFailure" where
  "NewAllocationFailure req msg = \<lparr>af_AllocationRequest = req, af_ErrorMsg = msg\<rparr>"

record RunRequest =
  rq_Guid :: string
  rq_RunInfo :: RunInfo
  rq_Tags :: Tags

definition NewRunRequest :: "string \<Rightarrow> RunInfo \<Rightarrow> Tags \<Rightarrow> RunRequest" where
  "NewRunRequest guid runInfo tags = \<lparr>rq_Guid = guid, rq_RunInfo = runInfo, rq_Tags = tags\<rparr>"

record UpdateRequest =
  ur_Guid :: string
  ur_InternalRoutes :: "string list option"
  ur_MetricTags :: Tags

definition NewUpdateRequest :: "string \<Rightarrow> string list option \<Rightarrow> Tags \<Rightarrow> UpdateRequest" where
  "NewUpdateRequest guid internalRoutes metricTags =
     \<lparr>ur_Guid = guid, ur_InternalRoutes = internalRoutes, ur_MetricTags = metricTags\<rparr>"

definition NewReservedContainerFromAllocationRequest ::
  "AllocationRequest \<Rightarrow> int \<Rightarrow> Container" where
  "NewReservedContainerFromAllocationRequest req allocatedAt =
     (NewContainerFromResource (ar_Guid req) (ar_Resource req) (ar_Tags req))
       \<lparr>co_State := StateReserved, co_AllocatedAt := allocatedAt\<rparr>"

subsection \<open>Transitions\<close>

definition truncate_delimeter :: string where
  "truncate_delimeter =
     [char_of (10::nat)] @ ''... (truncated)'' @ [char_of (10::nat)]"

text \<open>
  The slice expressions of \<open>truncateString\<close> panic when an index is out of range; for a bound
  of at least 18 bytes, as the one call of the program has, both are in range
  (\<open>truncateString_slices\<close> below).
\<close>

definition truncateString :: "string \<Rightarrow> nat \<Rightarrow> string" where
  "truncateString s n =
     (if length s \<le> n then s
      else let last = length s - n div 2 + length truncate_delimeter div 2
           in take (n div 2 - 1 - length truncate_delimeter div 2) s
              @ truncate_delimeter @ drop last s)"

definition TransitionToInitialize :: "Container \<Rightarrow> RunRequest \<Rightarrow> exec_error + Container" where
  "TransitionToInitialize c req =
     (if \<not> ValidateTransitionTo c StateInitializing then Inl ErrInvalidTransition
      else case Tags_Add (co_Tags c) (rq_Tags req) of
          None \<Rightarrow> Inl ExecPanic
        | Some tags \<Rightarrow>
            Inr (c\<lparr>co_State := StateInitializing, co_RunInfo := rq_RunInfo req, co_Tags := tags\<rparr>))"

definition TransitionToCreate :: "Container \<Rightarrow> exec_error + Container" where
  "TransitionToCreate c =
     (if \<not> ValidateTransitionTo c StateCreated then Inl ErrInvalidTransition
      else Inr (c\<lparr>co_State := StateCreated\<rparr>))"

definition TransitionToComplete :: "Container \<Rightarrow> bool \<Rightarrow> string \<Rightarrow> bool \<Rightarrow> Container" where
  "TransitionToComplete c failed failureReason retryable =
     c\<lparr>co_RunResult := (co_RunResult c)\<lparr>rr_Failed := failed,
                          rr_FailureReason := truncateString failureReason 10000,
                          rr_Retryable := retryable\<rparr>,
       co_State := StateCompleted\<rparr>"

definition Container_Copy :: "Container \<Rightarrow> Container" where
  "Container_Copy c = c\<lparr>co_Tags := Tags_Copy (co_Tags c)\<rparr>"

definition IsCreated :: "Container \<Rightarrow> bool" where
  "IsCreated c \<longleftrightarrow>
     co_State c \<noteq> StateReserved \<and> co_State c \<noteq> StateInitializing \<and> co_State c \<noteq> StateCompleted"

definition HasTags :: "Container \<Rightarrow> Tags \<Rightarrow> bool" where
  "HasTags c tags =
     (case co_Tags c of
        None \<Rightarrow> tags = None
      | Some ct \<Rightarrow>
          (case tags of
             None \<Rightarrow> False
           | Some ts \<Rightarrow> list_all (\<lambda>(key, val). map_of ct key = Some val) ts))"

subsection \<open>Lifecycle events\<close>

datatype exec_event =
    ContainerCompleteEvent Container string
  | ContainerRunningEvent Container string
  | ContainerReservedEvent Container string

fun event_Container :: "exec_event \<Rightarrow> Container" where
  "event_Container (ContainerCompleteEvent c t) = c"
| "event_Container (ContainerRunningEvent c t) = c"
| "event_Container (ContainerReservedEvent c t) = c"

fun event_TraceID :: "exec_event \<Rightarrow> string" where
  "event_TraceID (ContainerCompleteEvent c t) = t"
| "event_TraceID (ContainerRunningEvent c t) = t"
| "event_TraceID (ContainerReservedEvent c t) = t"

fun EventType :: "exec_event \<Rightarrow> string" where
  "EventType (ContainerCompleteEvent c t) = ''container_complete''"
| "EventType (ContainerRunningEvent c t) = ''container_running''"
| "EventType (ContainerReservedEvent c t) = ''container_reserved''"

subsection \<open>Lemmas: tags\<close>

lemma map_of_map_add_all:
  "distinct (map fst other) \<Longrightarrow> map_of (map_add_all t other) = map_of t ++ map_of other"
proof (induction other arbitrary: t)
  case Nil
  show ?case by (simp add: map_add_all_def)
next
  case (Cons e other)
  obtain k v where e: "e = (k, v)" by (cases e)
  have "map_of (map_add_all t (e # other)) = map_of (map_add_all (AList.update k v t) other)"
    by (simp add: e map_add_all_def)
  also have "\<dots> = (map_of t)(k \<mapsto> v) ++ map_of other" using Cons by (simp add: e)
  also have "\<dots> = map_of t ++ map_of (e # other)"
    using Cons.prems by (auto simp: e fun_eq_iff map_add_def dom_map_of_conv_image_fst
        map_of_eq_None_iff image_iff split: option.splits)
  finally show ?case .
qed

lemma distinct_map_add_all: "distinct (map fst t) \<Longrightarrow> distinct (map fst (map_add_all t other))"
  unfolding map_add_all_def
  by (induction other arbitrary: t) (auto simp: distinct_update split: prod.splits)

lemma Tags_Copy_get [simp]: "(\<And>m. t = Some m \<Longrightarrow> distinct (map fst m)) \<Longrightarrow> tags_get (Tags_Copy t) k = tags_get t k"
  by (auto simp: tags_get_def Tags_Copy_def map_of_map_add_all split: option.splits)

subsection \<open>Lemmas: truncation\<close>

lemma length_truncate_delimeter [simp]: "length truncate_delimeter = 17"
  by (simp add: truncate_delimeter_def)

lemma truncateString_slices:
  assumes "18 \<le> n" and "n < length s"
  shows "1 + 8 \<le> n div 2" and "n div 2 - 1 - 8 \<le> length s"
    and "length s - n div 2 + 8 \<le> length s"
  using assms by linarith+

lemma length_truncateString:
  assumes "18 \<le> n"
  shows "length (truncateString s n) \<le> n"
  using assms by (simp add: truncateString_def Let_def)

subsection \<open>Lemmas: resources\<close>

definition resources_typed :: "ExecutorResources \<Rightarrow> bool" where
  "resources_typed r \<longleftrightarrow> is_i64 (ex_MemoryMB r) \<and> is_i64 (ex_DiskMB r) \<and> is_i64 (ex_Containers r)"

definition resource_nonneg :: "ExecResource \<Rightarrow> bool" where
  "resource_nonneg res \<longleftrightarrow> 0 \<le> er_MemoryMB res \<and> 0 \<le> er_DiskMB res"

lemma is_i64_sub: "is_i64 a \<Longrightarrow> 0 \<le> b \<Longrightarrow> b \<le> a \<Longrightarrow> is_i64 (a - b)"
  by (simp add: is_i64_def)

lemma Subtract_Some:
  assumes "ExecutorResources_Subtract r res = Some r'" and "resources_typed r"
    and "resource_nonneg res"
  shows "ex_MemoryMB r' = ex_MemoryMB r - er_MemoryMB res"
    and "ex_DiskMB r' = ex_DiskMB r - er_DiskMB res"
    and "ex_Containers r' = ex_Containers r - 1"
    and "er_MemoryMB res \<le> ex_MemoryMB r" and "er_DiskMB res \<le> ex_DiskMB r" and "0 < ex_Containers r"
    and "resources_typed r'"
  using assms
  by (auto simp: ExecutorResources_Subtract_def canSubtract_def resources_typed_def
      resource_nonneg_def is_i64_sub wrap_simps split: if_splits)

lemma Add_Subtract:
  assumes "ExecutorResources_Subtract r res = Some r'" and "resources_typed r"
    and "resource_nonneg res"
  shows "ExecutorResources_Add r' res = r"
  using assms
  by (auto simp: ExecutorResources_Subtract_def ExecutorResources_Add_def canSubtract_def
      resources_typed_def resource_nonneg_def is_i64_sub wrap_simps split: if_splits)

subsection \<open>Lemmas: transitions\<close>

text \<open>The order in which a container passes through its states.\<close>

fun state_rank :: "State \<Rightarrow> nat" where
  "state_rank StateInvalid = 0"
| "state_rank StateReserved = 1"
| "state_rank StateInitializing = 2"
| "state_rank StateCreated = 3"
| "state_rank StateRunning = 4"
| "state_rank StateCompleted = 5"

lemma state_rank_le [simp]: "state_rank s \<le> 5"
  by (cases s) auto

lemma TransitionToInitialize_Inr:
  "TransitionToInitialize c req = Inr c' \<Longrightarrow>
     co_State c = StateReserved \<and> co_State c' = StateInitializing
     \<and> co_Guid c' = co_Guid c \<and> co_Resource c' = co_Resource c \<and> co_RunResult c' = co_RunResult c
     \<and> co_RunInfo c' = rq_RunInfo req"
  by (auto simp: TransitionToInitialize_def ValidateTransitionTo_def
      split: if_splits option.splits State.splits)

lemma TransitionToComplete_facts [simp]:
  "co_State (TransitionToComplete c f r t) = StateCompleted"
  "co_Guid (TransitionToComplete c f r t) = co_Guid c"
  "co_Resource (TransitionToComplete c f r t) = co_Resource c"
  "co_RunInfo (TransitionToComplete c f r t) = co_RunInfo c"
  "rr_Failed (co_RunResult (TransitionToComplete c f r t)) = f"
  "rr_Retryable (co_RunResult (TransitionToComplete c f r t)) = t"
  "rr_FailureReason (co_RunResult (TransitionToComplete c f r t)) = truncateString r 10000"
  "rr_Stopped (co_RunResult (TransitionToComplete c f r t)) = rr_Stopped (co_RunResult c)"
  by (simp_all add: TransitionToComplete_def)

lemma Container_Copy_facts [simp]:
  "co_State (Container_Copy c) = co_State c"
  "co_Guid (Container_Copy c) = co_Guid c"
  "co_Resource (Container_Copy c) = co_Resource c"
  "co_RunInfo (Container_Copy c) = co_RunInfo c"
  "co_RunResult (Container_Copy c) = co_RunResult c"
  "co_AllocatedAt (Container_Copy c) = co_AllocatedAt c"
  by (simp_all add: Container_Copy_def)

end
