(* ===== verification/Executor_Network.thy ===== *)
theory Executor_Network
  imports Executor_Types
begin

section \<open>Ports and egress rules of a container (containerstore: helpers.go, proxy_config_handler.go)\<close>

text \<open>
  The pure parts of creating a container that concern its network: the conversion of security
  group rules to rules of garden, the choice of the ports of the sidecar proxy, the removal of
  duplicate ports and the list of port mappings that is reported once garden has chosen the
  host ports.

  \<open>net.ParseIP\<close> and \<open>net.ParseCIDR\<close> are parameters; an address is its list of 16 bytes, and
  a parsed CIDR is its first and last address.
\<close>

type_synonym ip = "int list"
type_synonym parse_ip = "string \<Rightarrow> ip option"
type_synonym parse_cidr = "string \<Rightarrow> string + (ip \<times> ip)"

subsection \<open>Strings\<close>

fun split_on :: "char \<Rightarrow> string \<Rightarrow> string list" where
  "split_on c [] = [[]]"
| "split_on c (x # xs) =
     (if x = c then [] # split_on c xs
      else case split_on c xs of [] \<Rightarrow> [[x]] | h # t \<Rightarrow> (x # h) # t)"

definition is_dash_or_slash :: "char \<Rightarrow> bool" where
  "is_dash_or_slash c \<longleftrightarrow> c = CHR ''-'' \<or> c = CHR ''/''"

text \<open>The part before the first \<open>-\<close> or \<open>/\<close>, and the rest from that character on.\<close>

definition cut_at_range :: "string \<Rightarrow> string \<times> string" where
  "cut_at_range d =
     (takeWhile (\<lambda>c. \<not> is_dash_or_slash c) d, dropWhile (\<lambda>c. \<not> is_dash_or_slash c) d)"

subsection \<open>Validation of a security group rule (bbs/models/security_groups.go)\<close>

definition invalid_field :: "string \<Rightarrow> string" where
  "invalid_field f = ''Invalid field: '' @ f"

definition validatePorts :: "SecurityGroupRule \<Rightarrow> string list" where
  "validatePorts rule =
     (case (sg_PortRange rule, sg_Ports rule) of
        (None, None) \<Rightarrow> [''missing required field: ports or port_range'']
      | (Some r, Some ps) \<Rightarrow> [''invalid: ports and port_range provided'']
      | (Some (start, end), None) \<Rightarrow>
          (if start < 1 then [invalid_field ''port_range''] else [])
          @ (if end < 1 then [invalid_field ''port_range''] else [])
          @ (if start > end then [invalid_field ''port_range''] else [])
      | (None, Some ps) \<Rightarrow>
          (if ps = [] then [invalid_field ''ports''] else [])
          @ map (\<lambda>p. invalid_field ''ports'') (filter (\<lambda>p. p < 1) ps))"

fun ip_order_errors :: "ip \<Rightarrow> ip \<Rightarrow> string list" where
  "ip_order_errors (b # bs) (c # cs) =
     (if b < c then []
      else if b = c then ip_order_errors bs cs
      else ''invalid IP'' # ip_order_errors bs cs)"
| "ip_order_errors _ _ = []"

definition validate_destination :: "parse_ip \<Rightarrow> parse_cidr \<Rightarrow> string \<Rightarrow> string list" where
  "validate_destination parseIP parseCIDR d =
     (case cut_at_range d of
        (_, []) \<Rightarrow> (if parseIP d = None then [''invalid IP''] else [])
      | (first, c # second) \<Rightarrow>
          if c = CHR ''/'' then (case parseCIDR d of Inl err \<Rightarrow> [err] | Inr _ \<Rightarrow> [])
          else (case (parseIP first, parseIP second) of
                  (Some firstIP, Some secondIP) \<Rightarrow> ip_order_errors firstIP secondIP
                | _ \<Rightarrow> [''invalid IP'']))"

definition rule_destinations :: "SecurityGroupRule \<Rightarrow> string list" where
  "rule_destinations rule = concat (map (split_on (CHR '','')) (sg_Destinations rule))"

definition validateDestinations :: "parse_ip \<Rightarrow> parse_cidr \<Rightarrow> SecurityGroupRule \<Rightarrow> string list" where
  "validateDestinations parseIP parseCIDR rule =
     (if sg_Destinations rule = [] then [''must have at least 1 destination'']
      else concat (map (validate_destination parseIP parseCIDR) (rule_destinations rule)))"

definition no_ports_errors :: "SecurityGroupRule \<Rightarrow> string list" where
  "no_ports_errors rule =
     (if sg_PortRange rule \<noteq> None then [invalid_field ''port_range''] else [])
     @ (if sg_Ports rule \<noteq> None then [invalid_field ''ports''] else [])"

definition SecurityGroupRule_Validate ::
  "parse_ip \<Rightarrow> parse_cidr \<Rightarrow> SecurityGroupRule \<Rightarrow> string list" where
  "SecurityGroupRule_Validate parseIP parseCIDR rule =
     (if sg_Protocol rule \<in> {''tcp'', ''udp''}
      then validatePorts rule
           @ (if sg_IcmpInfo rule \<noteq> None then [invalid_field ''icmp_info''] else [])
      else if sg_Protocol rule = ''icmp''
      then no_ports_errors rule
           @ (if sg_IcmpInfo rule = None then [invalid_field ''icmp_info''] else [])
      else if sg_Protocol rule = ''icmpv6''
      then no_ports_errors rule
           @ (if sg_IcmpInfo rule = None then [invalid_field ''icmpv6_info''] else [])
      else if sg_Protocol rule = ''all''
      then no_ports_errors rule
           @ (if sg_IcmpInfo rule \<noteq> None then [invalid_field ''icmp_info''] else [])
      else [invalid_field ''protocol''])
     @ (let errs = validateDestinations parseIP parseCIDR rule
        in if errs = [] then []
           else [invalid_field (''destinations [ '' @ join '', '' errs @ '' ]'')])"

subsection \<open>Conversion to the rules of garden\<close>

datatype garden_protocol = ProtocolAll | ProtocolTCP | ProtocolUDP | ProtocolICMP | ProtocolICMPv6

record NetOutRule =
  no_Protocol :: garden_protocol
  no_Networks :: "(ip \<times> ip) list"
  no_Ports :: "(int \<times> int) list"
  no_ICMPs :: "(int \<times> int) option"
  no_Log :: bool

definition ErrIPRangeConversionFailed :: exec_error where
  "ErrIPRangeConversionFailed = ErrMessage ''failed to convert destination to ip range''"

definition toIPRange :: "parse_ip \<Rightarrow> parse_cidr \<Rightarrow> string \<Rightarrow> exec_error + (ip \<times> ip)" where
  "toIPRange parseIP parseCIDR dest =
     (case cut_at_range dest of
        (_, []) \<Rightarrow> (case parseIP dest of
            None \<Rightarrow> Inl ErrIPRangeConversionFailed
          | Some ip \<Rightarrow> Inr (ip, ip))
      | (first, c # second) \<Rightarrow>
          if c = CHR ''/'' then (case parseCIDR dest of
              Inl _ \<Rightarrow> Inl ErrIPRangeConversionFailed
            | Inr r \<Rightarrow> Inr r)
          else (case (parseIP first, parseIP second) of
              (Some firstIP, Some secondIP) \<Rightarrow> Inr (firstIP, secondIP)
            | _ \<Rightarrow> Inl ErrIPRangeConversionFailed))"

fun map_result :: "('a \<Rightarrow> 'e + 'b) \<Rightarrow> 'a list \<Rightarrow> 'e + 'b list" where
  "map_result f [] = Inr []"
| "map_result f (x # xs) =
     (case f x of Inl e \<Rightarrow> Inl e
      | Inr y \<Rightarrow> (case map_result f xs of Inl e \<Rightarrow> Inl e | Inr ys \<Rightarrow> Inr (y # ys)))"

text \<open>
  The protocol and the ICMP control of a rule. An ICMP rule without its info is a nil
  dereference; a protocol the switch does not name keeps the zero value, which is \<open>all\<close>.
\<close>

definition u8 :: "int \<Rightarrow> int" where
  "u8 x = x mod 2 ^ 8"

definition rule_protocol ::
  "SecurityGroupRule \<Rightarrow> exec_error + (garden_protocol \<times> (int \<times> int) option)" where
  "rule_protocol rule =
     (let icmp = (\<lambda>p. case sg_IcmpInfo rule of
            None \<Rightarrow> Inl ExecPanic
          | Some (t, c) \<Rightarrow> Inr (p, Some (u8 t, u8 c)))
      in if sg_Protocol rule = ''tcp'' then Inr (ProtocolTCP, None)
         else if sg_Protocol rule = ''udp'' then Inr (ProtocolUDP, None)
         else if sg_Protocol rule = ''icmp'' then icmp ProtocolICMP
         else if sg_Protocol rule = ''icmpv6'' then icmp ProtocolICMPv6
         else Inr (ProtocolAll, None))"

definition rule_port_ranges :: "SecurityGroupRule \<Rightarrow> (int \<times> int) list" where
  "rule_port_ranges rule =
     (case sg_PortRange rule of
        Some (start, end) \<Rightarrow> [(u16 start, u16 end)]
      | None \<Rightarrow> (case sg_Ports rule of
          None \<Rightarrow> []
        | Some ports \<Rightarrow> map (\<lambda>p. (u16 p, u16 p)) ports))"

definition securityGroupRuleToNetOutRules ::
  "parse_ip \<Rightarrow> parse_cidr \<Rightarrow> SecurityGroupRule \<Rightarrow> exec_error + NetOutRule list" where
  "securityGroupRuleToNetOutRules parseIP parseCIDR rule =
     (case rule_protocol rule of
        Inl e \<Rightarrow> Inl e
      | Inr (protocol, icmp) \<Rightarrow>
          map_result
            (\<lambda>dest. case toIPRange parseIP parseCIDR dest of
                Inl e \<Rightarrow> Inl e
              | Inr r \<Rightarrow> Inr \<lparr>no_Protocol = protocol, no_Networks = [r],
                  no_Ports = rule_port_ranges rule, no_ICMPs = icmp, no_Log = sg_Log rule\<rparr>)
            (rule_destinations rule))"

fun convertEgressToNetOut ::
  "parse_ip \<Rightarrow> parse_cidr \<Rightarrow> SecurityGroupRule list \<Rightarrow> exec_error + NetOutRule list" where
  "convertEgressToNetOut parseIP parseCIDR [] = Inr []"
| "convertEgressToNetOut parseIP parseCIDR (rule # rules) =
     (let errs = SecurityGroupRule_Validate parseIP parseCIDR rule
      in if errs \<noteq> [] then Inl (ErrMessage (join '', '' errs))
         else case securityGroupRuleToNetOutRules parseIP parseCIDR rule of
             Inl e \<Rightarrow> Inl e
           | Inr new \<Rightarrow> (case convertEgressToNetOut parseIP parseCIDR rules of
               Inl e \<Rightarrow> Inl e
             | Inr rest \<Rightarrow> Inr (new @ rest)))"

definition convertEnvVars :: "EnvironmentVariable list \<Rightarrow> string list" where
  "convertEnvVars execEnv = map (\<lambda>e. ev_Name e @ ''='' @ ev_Value e) execEnv"

subsection \<open>Ports\<close>

definition StartProxyPort :: int where "StartProxyPort = 61001"
definition EndProxyPort :: int where "EndProxyPort = 65534"
definition DefaultHTTPPort :: int where "DefaultHTTPPort = 8080"
definition C2CTLSPort :: int where "C2CTLSPort = 61443"

definition dedupPorts :: "PortMapping list \<Rightarrow> PortMapping list" where
  "dedupPorts ports = dedup_by pm_ContainerPort [] ports"

definition proxy_mapping :: "int \<Rightarrow> int \<Rightarrow> ProxyPortMapping" where
  "proxy_mapping appPort proxyPort = \<lparr>pp_AppPort = appPort, pp_ProxyPort = proxyPort\<rparr>"

text \<open>
  The loop of \<open>ProxyPorts\<close>: the candidate ports in ascending order, and the container ports
  that still wait for one.
\<close>

fun assign_proxy_ports ::
  "int list \<Rightarrow> int list \<Rightarrow> int list \<Rightarrow> ProxyPortMapping list \<times> int list" where
  "assign_proxy_ports existing [] apps = ([], [])"
| "assign_proxy_ports existing (port # ports) [] = ([], [])"
| "assign_proxy_ports existing (port # ports) (app # apps) =
     (if port \<in> set existing \<or> port = C2CTLSPort
      then assign_proxy_ports existing ports (app # apps)
      else let (mappings, extra) = assign_proxy_ports existing ports apps
           in if app = DefaultHTTPPort
              then (proxy_mapping app port # proxy_mapping app C2CTLSPort # mappings,
                    port # C2CTLSPort # extra)
              else (proxy_mapping app port # mappings, port # extra))"

definition ErrC2CTLSPortIsReserved :: exec_error where
  "ErrC2CTLSPortIsReserved = ErrMessage ''port 61443 is reserved for container networking''"

definition ProxyPorts :: "Container \<Rightarrow> exec_error + (ProxyPortMapping list \<times> int list)" where
  "ProxyPorts container =
     (let containerPorts = map pm_ContainerPort (ri_Ports (co_RunInfo container))
      in if \<not> ri_EnableContainerProxy (co_RunInfo container) then Inr ([], [])
         else if C2CTLSPort \<in> set containerPorts then Inl ErrC2CTLSPortIsReserved
         else Inr (assign_proxy_ports containerPorts [StartProxyPort..EndProxyPort - 1]
                     (take (length (remdups containerPorts)) containerPorts)))"

record ContainerInfo =
  ci_ExternalIP :: string
  ci_ContainerIP :: string
  ci_ContainerIPv6 :: string
  ci_MappedPorts :: "(int \<times> int) list"

text \<open>\<open>ci_MappedPorts\<close> holds pairs of a container port and its host port; the last pair wins.\<close>

definition host_port :: "ContainerInfo \<Rightarrow> int \<Rightarrow> int" where
  "host_port info port =
     (case map_of (rev (map (\<lambda>(c, h). (u16 c, u16 h)) (ci_MappedPorts info))) port of
        None \<Rightarrow> 0 | Some h \<Rightarrow> h)"

definition proxies_of :: "ProxyPortMapping list \<Rightarrow> int \<Rightarrow> int list" where
  "proxies_of proxyToAppPort app =
     map pp_ProxyPort (filter (\<lambda>m. pp_AppPort m = app) proxyToAppPort)"

definition port_entries :: "ContainerInfo \<Rightarrow> ProxyPortMapping list \<Rightarrow> int \<Rightarrow> PortMapping list" where
  "port_entries info proxyToAppPort appPort =
     (let hostPort = host_port info appPort;
          proxyContainerPorts = proxies_of proxyToAppPort appPort
      in if proxyContainerPorts \<noteq> []
         then map (\<lambda>p. \<lparr>pm_ContainerPort = appPort, pm_HostPort = hostPort,
                      pm_ContainerTLSProxyPort = p,
                      pm_HostTLSProxyPort = host_port info p\<rparr>) proxyContainerPorts
         else [\<lparr>pm_ContainerPort = appPort, pm_HostPort = hostPort,
                pm_ContainerTLSProxyPort = 0, pm_HostTLSProxyPort = 0\<rparr>])"

definition portMappingFromContainerInfo ::
  "ContainerInfo \<Rightarrow> PortMapping list \<Rightarrow> ProxyPortMapping list \<Rightarrow> PortMapping list" where
  "portMappingFromContainerInfo info appPorts proxyToAppPort =
     concat (map (\<lambda>portMapping.
       let appPort = pm_ContainerPort portMapping
       in if appPort \<in> pp_ProxyPort ` set proxyToAppPort then []
          else port_entries info proxyToAppPort appPort)
       appPorts)"

text \<open>The rules for incoming traffic that the container is created with.\<close>

definition port_only :: "int \<Rightarrow> PortMapping" where
  "port_only p = \<lparr>pm_ContainerPort = p, pm_HostPort = 0, pm_ContainerTLSProxyPort = 0,
                  pm_HostTLSProxyPort = 0\<rparr>"

definition net_in_rules :: "bool \<Rightarrow> PortMapping list \<Rightarrow> int list \<Rightarrow> (int \<times> int) list" where
  "net_in_rules enableUnproxiedPortMappings infoPorts extraPorts =
     (let netInPorts = (if enableUnproxiedPortMappings then infoPorts else map port_only extraPorts)
      in map (\<lambda>p. (pm_HostPort p, pm_ContainerPort p))
           (filter (\<lambda>p. pm_ContainerPort p \<noteq> C2CTLSPort) netInPorts))"

subsection \<open>Lemmas: assigning proxy ports\<close>

lemmas port_defs = StartProxyPort_def EndProxyPort_def DefaultHTTPPort_def C2CTLSPort_def

definition free_ports :: "int list \<Rightarrow> int list \<Rightarrow> int list" where
  "free_ports existing ports = filter (\<lambda>p. p \<notin> set existing \<and> p \<noteq> C2CTLSPort) ports"

text \<open>The loop pairs the container ports with the free candidates, in order.\<close>

definition proxy_pairs :: "int \<times> int \<Rightarrow> ProxyPortMapping list" where
  "proxy_pairs = (\<lambda>(app, port). if app = DefaultHTTPPort
     then [proxy_mapping app port, proxy_mapping app C2CTLSPort] else [proxy_mapping app port])"

lemma assign_proxy_ports_eq:
  "assign_proxy_ports existing ports apps =
     (let ms = concat (map proxy_pairs (zip apps (free_ports existing ports)))
      in (ms, map pp_ProxyPort ms))"
  by (induction existing ports apps rule: assign_proxy_ports.induct)
     (auto simp: Let_def free_ports_def proxy_pairs_def proxy_mapping_def split: prod.splits)

lemma proxy_pairs_proxy:
  "map pp_ProxyPort (proxy_pairs (a, f)) = (if a = DefaultHTTPPort then [f, C2CTLSPort] else [f])"
  by (simp add: proxy_pairs_def proxy_mapping_def)

lemma proxy_pairs_ports:
  assumes "distinct apps" and "distinct fs" and "C2CTLSPort \<notin> set fs"
  defines "ms \<equiv> concat (map proxy_pairs (zip apps fs))"
  shows "distinct (map pp_ProxyPort ms)"
    and "pp_ProxyPort ` set ms \<subseteq> set fs \<union> (if DefaultHTTPPort \<in> set apps then {C2CTLSPort} else {})"
proof -
  have "distinct (map pp_ProxyPort (concat (map proxy_pairs (zip apps fs))))
    \<and> pp_ProxyPort ` set (concat (map proxy_pairs (zip apps fs)))
        \<subseteq> set fs \<union> (if DefaultHTTPPort \<in> set apps then {C2CTLSPort} else {})"
    using assms(1-3)
  proof (induction apps fs rule: list_induct2')
    case (4 a apps f fs)
    define M where "M = concat (map proxy_pairs (zip apps fs))"
    have cons: "concat (map proxy_pairs (zip (a # apps) (f # fs))) = proxy_pairs (a, f) @ M"
      by (simp add: M_def)
    have "distinct (map pp_ProxyPort M)"
      and "set (map pp_ProxyPort M)
        \<subseteq> set fs \<union> (if DefaultHTTPPort \<in> set apps then {C2CTLSPort} else {})"
      using 4 by (simp_all add: M_def)
    then show ?case
      using 4(2-) unfolding cons set_map [symmetric] map_append proxy_pairs_proxy
      by (auto split: if_splits)
  qed auto
  then show "distinct (map pp_ProxyPort ms)"
    and "pp_ProxyPort ` set ms \<subseteq> set fs \<union> (if DefaultHTTPPort \<in> set apps then {C2CTLSPort} else {})"
    by (simp_all add: ms_def)
qed

lemma proxy_pairs_apps:
  "length apps \<le> length fs \<Longrightarrow> pp_AppPort ` set (concat (map proxy_pairs (zip apps fs))) = set apps"
  by (induction apps fs rule: list_induct2') (auto simp: proxy_pairs_def proxy_mapping_def)

lemma length_free_ports:
  assumes "distinct ports"
  shows "length ports \<le> length (free_ports existing ports) + length existing + 1"
proof -
  have d: "distinct (free_ports existing ports)" using assms by (simp add: free_ports_def)
  have "set ports \<subseteq> set (free_ports existing ports) \<union> insert C2CTLSPort (set existing)"
    by (auto simp: free_ports_def)
  then have "card (set ports) \<le> card (set (free_ports existing ports) \<union> insert C2CTLSPort (set existing))"
    by (rule card_mono [rotated]) simp
  also have "\<dots> \<le> card (set (free_ports existing ports)) + card (insert C2CTLSPort (set existing))"
    by (rule card_Un_le)
  also have "card (insert C2CTLSPort (set existing)) \<le> length existing + 1"
    using card_length [of existing] by (simp add: card_insert_if)
  finally show ?thesis using assms d by (simp add: distinct_card)
qed

lemma set_portMapping:
  "set (portMappingFromContainerInfo info ports ms) =
     (\<Union>a \<in> pm_ContainerPort ` set ports - pp_ProxyPort ` set ms. set (port_entries info ms a))"
  by (auto simp: portMappingFromContainerInfo_def Let_def split: if_splits)

lemma port_entries_port: "pm_ContainerPort ` set (port_entries info ms a) = {a}"
  by (cases "proxies_of ms a") (auto simp: port_entries_def Let_def image_iff)

lemma port_entries_proxied:
  assumes "a \<in> pp_AppPort ` set ms" and "e \<in> set (port_entries info ms a)"
  shows "pm_HostPort e = host_port info a"
    and "pm_ContainerTLSProxyPort e \<in> set (proxies_of ms a)"
    and "pm_HostTLSProxyPort e = host_port info (pm_ContainerTLSProxyPort e)"
proof -
  have "proxies_of ms a \<noteq> []" using assms(1) by (force simp: proxies_of_def filter_empty_conv)
  with assms(2) show "pm_HostPort e = host_port info a"
    and "pm_ContainerTLSProxyPort e \<in> set (proxies_of ms a)"
    and "pm_HostTLSProxyPort e = host_port info (pm_ContainerTLSProxyPort e)"
    by (auto simp: port_entries_def)
qed

subsection \<open>Lemmas: egress rules\<close>

lemma map_result_Inr: "isl (map_result f xs) \<longleftrightarrow> (\<exists>x \<in> set xs. isl (f x))"
  by (induction xs) (auto split: sum.splits)

lemma validated_destination:
  "validate_destination parseIP parseCIDR d = [] \<Longrightarrow> \<not> isl (toIPRange parseIP parseCIDR d)"
  by (auto simp: validate_destination_def toIPRange_def
      split: prod.splits list.splits option.splits sum.splits if_splits)

lemma validated_protocol:
  "SecurityGroupRule_Validate parseIP parseCIDR r = [] \<Longrightarrow> \<not> isl (rule_protocol r)"
  by (auto simp: SecurityGroupRule_Validate_def rule_protocol_def Let_def split: if_splits option.splits)

lemma validated_destinations:
  "SecurityGroupRule_Validate parseIP parseCIDR r = [] \<Longrightarrow> d \<in> set (rule_destinations r)
   \<Longrightarrow> validate_destination parseIP parseCIDR d = []"
  by (auto simp: SecurityGroupRule_Validate_def validateDestinations_def rule_destinations_def
      split: if_splits)

lemma validated_rule_converts:
  assumes "SecurityGroupRule_Validate parseIP parseCIDR r = []"
  shows "\<not> isl (securityGroupRuleToNetOutRules parseIP parseCIDR r)"
proof -
  from validated_protocol [OF assms] obtain p icmp where p: "rule_protocol r = Inr (p, icmp)"
    by (cases "rule_protocol r") auto
  have "toIPRange parseIP parseCIDR d \<noteq> Inl e" if "d \<in> set (rule_destinations r)" for d e
    using validated_destination [OF validated_destinations [OF assms that]] by auto
  then show ?thesis
    by (auto simp: securityGroupRuleToNetOutRules_def p map_result_Inr split: sum.splits)
qed

subsection \<open>Properties\<close>

text \<open>
  \<open>convertEgressToNetOut\<close> fails exactly when some rule is invalid: for a rule that passes
  \<open>Validate\<close> the conversion neither dereferences a missing ICMP info nor meets a destination it
  cannot parse.
\<close>

theorem convertEgressToNetOut_succeeds_iff:
  "\<not> isl (convertEgressToNetOut parseIP parseCIDR rules)
     = list_all (\<lambda>r. SecurityGroupRule_Validate parseIP parseCIDR r = []) rules"
proof (induction rules)
  case (Cons r rules)
  then show ?case
    using validated_rule_converts [of parseIP parseCIDR r]
    by (auto simp: Let_def isl_def split: sum.splits)
qed simp

text \<open>
  An egress rule may name ports that do not fit 16 bits: the validation bounds them from below
  only, and the conversion truncates, so that a rule for port 65558 opens port 22.
\<close>

theorem egress_port_truncated:
  "convertEgressToNetOut (\<lambda>s. Some addr) parseCIDR
     [\<lparr>sg_Protocol = ''tcp'', sg_Destinations = [''10.0.0.1''], sg_Ports = Some [65558],
       sg_PortRange = None, sg_IcmpInfo = None, sg_Log = False\<rparr>]
   = Inr [\<lparr>no_Protocol = ProtocolTCP, no_Networks = [(addr, addr)], no_Ports = [(22, 22)],
           no_ICMPs = None, no_Log = False\<rparr>]"
  by (simp add: SecurityGroupRule_Validate_def validatePorts_def validateDestinations_def
      rule_destinations_def validate_destination_def cut_at_range_def is_dash_or_slash_def
      securityGroupRuleToNetOutRules_def rule_protocol_def rule_port_ranges_def toIPRange_def u16_def)

text \<open>
  A container with the proxy enabled, whose ports are distinct, number at most 2266 and avoid
  the port reserved for container networking, gets proxy ports that are distinct and none of
  its own, and once garden has mapped the ports, exactly its own ports are reported, every one
  with a proxy port and with the host ports that garden chose for both.
\<close>

theorem proxied_ports_reported:
  assumes "ri_EnableContainerProxy (co_RunInfo c)"
    and "ports = ri_Ports (co_RunInfo c)"
    and "distinct (map pm_ContainerPort ports)"
    and "C2CTLSPort \<notin> pm_ContainerPort ` set ports"
    and "length ports \<le> 2266"
  shows "\<exists>ms extra. ProxyPorts c = Inr (ms, extra)
      \<and> distinct extra \<and> set extra \<inter> pm_ContainerPort ` set ports = {}
      \<and> (let reported = portMappingFromContainerInfo info (ports @ map port_only extra) ms
         in pm_ContainerPort ` set reported = pm_ContainerPort ` set ports
          \<and> list_all (\<lambda>e. pm_ContainerTLSProxyPort e \<in> set extra
               \<and> pm_HostPort e = host_port info (pm_ContainerPort e)
               \<and> pm_HostTLSProxyPort e = host_port info (pm_ContainerTLSProxyPort e)) reported)"
proof -
  let ?ps = "map pm_ContainerPort ports"
  define fs where "fs = free_ports ?ps [StartProxyPort..EndProxyPort - 1]"
  define ms where "ms = concat (map proxy_pairs (zip ?ps fs))"
  have fs: "distinct fs" "C2CTLSPort \<notin> set fs" "set fs \<inter> set ?ps = {}"
    by (auto simp: fs_def free_ports_def)
  have "length [StartProxyPort..EndProxyPort - 1] = 4533"
    unfolding length_upto by (simp add: port_defs)
  then have len: "length ?ps \<le> length fs"
    using length_free_ports [of "[StartProxyPort..EndProxyPort - 1]" ?ps] assms(5)
    by (simp add: fs_def)
  have run: "ProxyPorts c = Inr (ms, map pp_ProxyPort ms)"
    using assms(1-4)
    by (simp add: ProxyPorts_def assign_proxy_ports_eq distinct_remdups_id ms_def fs_def Let_def)
  have apps: "pp_AppPort ` set ms = set ?ps" unfolding ms_def by (rule proxy_pairs_apps [OF len])
  have dist: "distinct (map pp_ProxyPort ms)"
    unfolding ms_def by (rule proxy_pairs_ports) (use assms(3) fs in simp_all)
  have "pp_ProxyPort ` set ms \<subseteq> set fs \<union> {C2CTLSPort}"
    using proxy_pairs_ports(2) [OF assms(3) fs(1,2)] unfolding ms_def [symmetric]
    by (auto split: if_splits)
  then have disj: "pp_ProxyPort ` set ms \<inter> pm_ContainerPort ` set ports = {}"
    using fs(3) assms(4) unfolding set_map [symmetric] by blast
  define reported where
    "reported = portMappingFromContainerInfo info (ports @ map port_only (map pp_ProxyPort ms)) ms"
  have set_reported: "set reported = (\<Union>a \<in> set ?ps. set (port_entries info ms a))"
  proof -
    have "pm_ContainerPort ` set (ports @ map port_only (map pp_ProxyPort ms)) - pp_ProxyPort ` set ms
        = set ?ps"
      using disj by (auto simp: port_only_def image_iff)
    then show ?thesis by (simp only: reported_def set_portMapping)
  qed
  have "pm_ContainerPort ` set reported = set ?ps"
    unfolding set_reported image_UN port_entries_port by simp
  moreover have "pm_ContainerTLSProxyPort e \<in> set (map pp_ProxyPort ms)
      \<and> pm_HostPort e = host_port info (pm_ContainerPort e)
      \<and> pm_HostTLSProxyPort e = host_port info (pm_ContainerTLSProxyPort e)"
    if "e \<in> set reported" for e
  proof -
    from that obtain a where a: "a \<in> set ?ps" and e: "e \<in> set (port_entries info ms a)"
      by (auto simp: set_reported)
    then have "pm_ContainerPort e = a" using port_entries_port [of info ms a] by blast
    with port_entries_proxied [of a ms e info] a e apps show ?thesis
      by (auto simp: proxies_of_def)
  qed
  ultimately show ?thesis
    using run dist disj unfolding reported_def
    by (intro exI [of _ ms] exI [of _ "map pp_ProxyPort ms"]) (auto simp: Let_def list_all_iff)
qed

definition proxied_container :: Container where
  "proxied_container =
     (NewContainerFromResource ''c'' (NewExecResource 1 1 1) None)
       \<lparr>co_RunInfo := empty_RunInfo\<lparr>ri_EnableContainerProxy := True,
          ri_Ports := [port_only 8080, port_only 61001]\<rparr>\<rparr>"

theorem proxied_ports_reported_witness:
  "ri_EnableContainerProxy (co_RunInfo proxied_container)
   \<and> (\<exists>ms extra. ProxyPorts proxied_container = Inr (ms, extra) \<and> distinct extra
        \<and> set extra \<inter> {8080, 61001} = {})"
proof -
  let ?ports = "[port_only 8080, port_only 61001]"
  let ?info = "\<lparr>ci_ExternalIP = [], ci_ContainerIP = [], ci_ContainerIPv6 = [], ci_MappedPorts = []\<rparr>"
  have "ri_EnableContainerProxy (co_RunInfo proxied_container)"
    and "?ports = ri_Ports (co_RunInfo proxied_container)"
    and "distinct (map pm_ContainerPort ?ports)"
    and "C2CTLSPort \<notin> pm_ContainerPort ` set ?ports" and "length ?ports \<le> 2266"
    by (simp_all add: proxied_container_def port_only_def port_defs)
  from this(1) proxied_ports_reported [OF this, of ?info] show ?thesis
    by (auto simp: port_only_def)
qed

end
