(* ===== verification/Executor_Node.thy ===== *)
theory Executor_Node
  imports Executor_Network
begin

section \<open>A container of the store (executor/depot/containerstore/storenode.go)\<close>

text \<open>
  The state machine of one container: \<open>storeNode\<close> with its operations \<open>Initialize\<close>, \<open>Create\<close>,
  \<open>Run\<close>, \<open>Update\<close>, \<open>Stop\<close>, \<open>Destroy\<close>, \<open>Expire\<close> and \<open>Reap\<close>, and the goroutine \<open>run\<close> as the three
  events it reacts to: the process becomes ready, a readiness check reports, the process exits.

  The collaborators (the dependency, volume and credential managers, garden, the transformer
  that builds the steps) are the functions of the record \<open>node_env\<close>; every operation takes its
  own environment, so they may answer differently each time. What the node asks of them is
  recorded in \<open>sn_calls\<close>, in order. Logging, metrics and the app log are left out. The
  operations hold the node's lock, so they are atomic here; \<open>Destroy\<close> is split where it takes
  the flag \<open>destroying\<close>, which a concurrent call sees. \<open>Destroy\<close> waits for the exit of the
  process; the completion that \<open>run\<close> then performs is placed at that wait.
\<close>

subsection \<open>Collaborators\<close>

type_synonym cache_key = "string \<times> string"

record BindMount =
  bm_SrcPath :: string
  bm_DstPath :: string
  bm_Mode :: int
  bm_Origin :: int

record ContainerSpec =
  gs_Handle :: string
  gs_Privileged :: bool
  gs_ImageURI :: string
  gs_ImageUsername :: string
  gs_ImagePassword :: string
  gs_Env :: "string list"
  gs_BindMounts :: "BindMount list"
  gs_MemoryLimit :: int
  gs_DiskByteHard :: int
  gs_DiskInodeHard :: int
  gs_PidMax :: int
  gs_CPUShares :: int
  gs_CPUWeight :: int
  gs_Properties :: str_map
  gs_NetIn :: "(int \<times> int) list"
  gs_NetOut :: "NetOutRule list"

datatype mount_error = SafeError string | MountError string

fun mount_error_Error :: "mount_error \<Rightarrow> string" where
  "mount_error_Error (SafeError s) = s"
| "mount_error_Error (MountError s) = s"

datatype garden_error = ContainerNotFoundError | ErrConcurrentDestroy | GardenError string

record node_config =
  nc_OwnerName :: string
  nc_INodeLimit :: int
  nc_MaxCPUShares :: int
  nc_SetCPUWeight :: bool
  nc_ReservedExpirationTime :: int
  nc_hostTrustedCertificatesPath :: string
  nc_declarativeHealthcheckPath :: string
  nc_enableUnproxiedPortMappings :: bool
  nc_advertisePreferenceForInstanceAddress :: bool
  nc_injectWorkloadIdentity :: bool

record node_env =
  ne_DownloadCachedDependencies ::
    "CachedDependency list \<Rightarrow> BindMount list \<times> cache_key list \<times> string option"
  ne_Mount :: "string \<Rightarrow> string \<Rightarrow> string \<Rightarrow> volume_config option \<Rightarrow> mount_error + string"
  ne_CreateCredDir :: "Container \<Rightarrow> string + (BindMount list \<times> EnvironmentVariable list)"
  ne_CreateFilesDir :: "Container \<Rightarrow> string + BindMount list"
  ne_ParseIP :: parse_ip
  ne_ParseCIDR :: parse_cidr
  ne_ProxyPorts :: "Container \<Rightarrow> exec_error + (ProxyPortMapping list \<times> int list)"
  ne_RootFSSizeFromPath :: "string \<Rightarrow> int"
  ne_jsonMarshaller :: "LogConfig \<Rightarrow> string + string"
  ne_GardenCreate :: "ContainerSpec \<Rightarrow> string option"
  ne_GardenInfo :: "string \<Rightarrow> string + ContainerInfo"
  ne_GardenDestroy :: "string \<Rightarrow> garden_error option"
  ne_ReleaseCachedDependencies :: "cache_key list \<Rightarrow> string option"
  ne_StepsRunner :: "Container \<Rightarrow> string + bool"
  ne_SetProperty :: "string \<Rightarrow> string \<Rightarrow> string \<Rightarrow> string option"

text \<open>The requests to the collaborators that change something.\<close>

datatype node_call =
    Downloaded "cache_key list"
  | Released "cache_key list"
  | Mounted string string string
  | Unmounted string string string
  | CredDirCreated string
  | CredDirRemoved string
  | FilesDirCreated string
  | FilesDirRemoved string
  | GardenCreated ContainerSpec
  | GardenDestroyed string
  | RunnerStarted string "int list" "BindMount list"
  | Interrupted string
  | TagsUpdated Tags
  | PropertySet string string string
  | Emitted exec_event

text \<open>
  The process of a node: none, started but not ready, ready (both with whether there is a
  readiness channel), or exited.
\<close>

datatype node_process = NoProcess | ProcStarting bool | ProcRunning bool | ProcExited

record storeNode =
  sn_info :: Container
  sn_bindMountCacheKeys :: "cache_key list"
  sn_gardenContainer :: "string option"
  sn_generateLogMetrics :: bool
  sn_logStreamer :: "Tags option"
  sn_process :: node_process
  sn_bindMounts :: "BindMount list"
  sn_destroying :: bool
  sn_stopping :: bool
  sn_startTime :: int
  sn_regenerateCerts :: nat
  sn_calls :: "node_call list"

definition newStoreNode :: "Container \<Rightarrow> bool \<Rightarrow> storeNode" where
  "newStoreNode container generateLogMetrics = \<lparr>
     sn_info = container, sn_bindMountCacheKeys = [], sn_gardenContainer = None,
     sn_generateLogMetrics = generateLogMetrics, sn_logStreamer = None, sn_process = NoProcess,
     sn_bindMounts = [], sn_destroying = False, sn_stopping = False, sn_startTime = 0,
     sn_regenerateCerts = 0, sn_calls = []\<rparr>"

definition DownloadCachedDependenciesFailed :: string where
  "DownloadCachedDependenciesFailed = ''failed to download cached artifacts''"
definition ContainerCreationFailedMessage :: string where
  "ContainerCreationFailedMessage = ''failed to create container''"
definition ContainerExpirationMessage :: string where
  "ContainerExpirationMessage = ''expired container''"
definition ContainerMissingMessage :: string where
  "ContainerMissingMessage = ''missing garden container''"
definition VolmanMountFailed :: string where
  "VolmanMountFailed = ''failed to mount volume''"
definition BindMountCleanupFailed :: string where
  "BindMountCleanupFailed = ''failed to cleanup bindmount artifacts''"
definition CredDirFailed :: string where
  "CredDirFailed = ''failed to create credentials directory''"
definition VolumeMountedFileFailed :: string where
  "VolumeMountedFileFailed = ''failed to create volume mounted files''"

definition ask :: "node_call list \<Rightarrow> storeNode \<Rightarrow> storeNode" where
  "ask calls n = n\<lparr>sn_calls := sn_calls n @ calls\<rparr>"

definition Info :: "storeNode \<Rightarrow> Container" where
  "Info n = Container_Copy (sn_info n)"

definition node_complete :: "storeNode \<Rightarrow> string \<Rightarrow> bool \<Rightarrow> string \<Rightarrow> bool \<Rightarrow> storeNode" where
  "node_complete n traceID failed failureReason retryable =
     (let info = TransitionToComplete (sn_info n) failed failureReason retryable
      in ask [Emitted (ContainerCompleteEvent info traceID)] (n\<lparr>sn_info := info\<rparr>))"

definition node_GetFiles :: "storeNode \<Rightarrow> (string \<Rightarrow> 'f) \<Rightarrow> exec_error + 'f" where
  "node_GetFiles n streamOut =
     (case sn_gardenContainer n of
        None \<Rightarrow> Inl ErrContainerNotFound
      | Some gc \<Rightarrow> Inr (streamOut gc))"

definition node_Initialize :: "storeNode \<Rightarrow> RunRequest \<Rightarrow> storeNode \<times> exec_error option" where
  "node_Initialize n req =
     (case TransitionToInitialize (sn_info n) req of
        Inl e \<Rightarrow> (n, Some e)
      | Inr info \<Rightarrow> (n\<lparr>sn_info := info\<rparr>, None))"

subsection \<open>Create\<close>

definition injectWorkloadIdentity ::
  "volume_config option \<Rightarrow> Container \<Rightarrow> volume_config option" where
  "injectWorkloadIdentity config info =
     (let lifecycle = tags_get (co_Tags info) ''lifecycle'';
          enrich = (\<lambda>workloadGuid workloadType.
            if workloadGuid = [] then config
            else Some (AList.update ''_workload_type'' (ConfString workloadType)
                   (AList.update ''_workload_guid'' (ConfString workloadGuid)
                     (map_add_all [] (case config of None \<Rightarrow> [] | Some m \<Rightarrow> m)))))
      in if lifecycle = ''lrp'' then enrich (tags_get (co_Tags info) ''process-guid'') ''lrp''
         else if lifecycle = ''task'' then enrich (co_Guid info) ''task''
         else config)"

fun mountVolumes ::
  "node_config \<Rightarrow> node_env \<Rightarrow> Container \<Rightarrow> VolumeMount list
   \<Rightarrow> node_call list \<times> (mount_error + BindMount list)" where
  "mountVolumes cfg env info [] = ([], Inr [])"
| "mountVolumes cfg env info (volume # volumes) =
     (let config = (if nc_injectWorkloadIdentity cfg
                    then injectWorkloadIdentity (vm_Config volume) info else vm_Config volume)
      in case ne_Mount env (vm_Driver volume) (vm_VolumeId volume) (co_Guid info) config of
          Inl err \<Rightarrow> ([], Inl err)
        | Inr path \<Rightarrow>
            (let (calls, r) = mountVolumes cfg env info volumes
             in (Mounted (vm_Driver volume) (vm_VolumeId volume) (co_Guid info) # calls,
                 case r of
                   Inl err \<Rightarrow> Inl err
                 | Inr mounts \<Rightarrow>
                     Inr (\<lparr>bm_SrcPath = path, bm_DstPath = vm_ContainerPath volume,
                           bm_Mode = vm_Mode volume, bm_Origin = 0\<rparr> # mounts))))"

definition gardenProperties ::
  "node_config \<Rightarrow> node_env \<Rightarrow> Container \<Rightarrow> string + str_map" where
  "gardenProperties cfg env container =
     (let network = (case ri_Network (co_RunInfo container) of
            None \<Rightarrow> []
          | Some props \<Rightarrow>
              fold (\<lambda>(key, val). AList.update (''network.'' @ key) val) props []);
          owned = AList.update ''executor:owner'' (nc_OwnerName cfg) network
      in case ne_jsonMarshaller env (ri_LogConfig (co_RunInfo container)) of
          Inl err \<Rightarrow> Inl err
        | Inr logConfig \<Rightarrow> Inr (AList.update ''log_config'' logConfig owned))"

definition disk_limit :: "node_env \<Rightarrow> Container \<Rightarrow> int" where
  "disk_limit env info =
     (let hard = u64 (u64 (er_DiskMB (co_Resource info)) * 1024 * 1024)
      in if hard \<noteq> 0 then u64 (hard + ne_RootFSSizeFromPath env (ri_RootFSPath (co_RunInfo info)))
         else hard)"

definition container_spec ::
  "node_config \<Rightarrow> node_env \<Rightarrow> BindMount list \<Rightarrow> Container \<Rightarrow> str_map \<Rightarrow> (int \<times> int) list
   \<Rightarrow> NetOutRule list \<Rightarrow> ContainerSpec" where
  "container_spec cfg env mounts info properties netIn netOut = \<lparr>
     gs_Handle = co_Guid info,
     gs_Privileged = ri_Privileged (co_RunInfo info),
     gs_ImageURI = ri_RootFSPath (co_RunInfo info),
     gs_ImageUsername = ri_ImageUsername (co_RunInfo info),
     gs_ImagePassword = ri_ImagePassword (co_RunInfo info),
     gs_Env = convertEnvVars (ri_Env (co_RunInfo info)),
     gs_BindMounts = mounts,
     gs_MemoryLimit = u64 (i64 (er_MemoryMB (co_Resource info) * 1024 * 1024)),
     gs_DiskByteHard = disk_limit env info,
     gs_DiskInodeHard = nc_INodeLimit cfg,
     gs_PidMax = u64 (er_MaxPids (co_Resource info)),
     gs_CPUShares = u64 (nc_MaxCPUShares cfg * ri_CPUWeight (co_RunInfo info) div 100),
     gs_CPUWeight = (if nc_SetCPUWeight cfg then u64 (er_MemoryMB (co_Resource info)) else 0),
     gs_Properties = properties,
     gs_NetIn = netIn,
     gs_NetOut = netOut\<rparr>"

definition with_ports :: "Container \<Rightarrow> PortMapping list \<Rightarrow> Container" where
  "with_ports info ports = info\<lparr>co_RunInfo := (co_RunInfo info)\<lparr>ri_Ports := ports\<rparr>\<rparr>"

definition with_env :: "Container \<Rightarrow> EnvironmentVariable list \<Rightarrow> Container" where
  "with_env info envs =
     info\<lparr>co_RunInfo := (co_RunInfo info)\<lparr>ri_Env := ri_Env (co_RunInfo info) @ envs\<rparr>\<rparr>"

text \<open>The part of \<open>createGardenContainer\<close> up to the specification of the container.\<close>

definition garden_request ::
  "node_config \<Rightarrow> node_env \<Rightarrow> BindMount list \<Rightarrow> Container
   \<Rightarrow> exec_error + (Container \<times> ProxyPortMapping list \<times> ContainerSpec)" where
  "garden_request cfg env mounts info =
     (case convertEgressToNetOut (ne_ParseIP env) (ne_ParseCIDR env) (ri_EgressRules (co_RunInfo info)) of
        Inl e \<Rightarrow> Inl e
      | Inr netOut \<Rightarrow>
          (let deduped = with_ports info (dedupPorts (ri_Ports (co_RunInfo info)))
           in case ne_ProxyPorts env deduped of
               Inl e \<Rightarrow> Inl e
             | Inr (proxyPortMapping, extraPorts) \<Rightarrow>
                 (let withExtra = with_ports deduped
                        (ri_Ports (co_RunInfo deduped) @ map port_only extraPorts);
                      netIn = net_in_rules (nc_enableUnproxiedPortMappings cfg)
                        (ri_Ports (co_RunInfo withExtra)) extraPorts
                  in case gardenProperties cfg env withExtra of
                      Inl e \<Rightarrow> Inl (ErrMessage e)
                    | Inr properties \<Rightarrow>
                        Inr (withExtra, proxyPortMapping,
                             container_spec cfg env mounts withExtra properties netIn netOut))))"

definition destroyContainer :: "node_env \<Rightarrow> storeNode \<Rightarrow> storeNode \<times> exec_error option" where
  "destroyContainer env n =
     (let guid = co_Guid (sn_info n)
      in (ask [GardenDestroyed guid] n,
          case ne_GardenDestroy env guid of
            Some (GardenError e) \<Rightarrow> Some (ErrMessage e)
          | _ \<Rightarrow> None))"

definition createGardenContainer ::
  "node_config \<Rightarrow> node_env \<Rightarrow> storeNode \<Rightarrow> Container \<Rightarrow> storeNode \<times> (exec_error + Container)" where
  "createGardenContainer cfg env n info =
     (case garden_request cfg env (sn_bindMounts n) info of
        Inl e \<Rightarrow> (n, Inl e)
      | Inr (info, proxyPortMapping, spec) \<Rightarrow>
          (case ne_GardenCreate env spec of
             Some e \<Rightarrow> (n, Inl (ErrMessage e))
           | None \<Rightarrow>
               (let n = ask [GardenCreated spec] n
                in case ne_GardenInfo env (gs_Handle spec) of
                    Inl e \<Rightarrow> (fst (destroyContainer env n), Inl (ErrMessage e))
                  | Inr containerInfo \<Rightarrow>
                      (n, Inr ((with_ports info (portMappingFromContainerInfo containerInfo
                                  (ri_Ports (co_RunInfo info)) proxyPortMapping))
                           \<lparr>co_ExternalIP := ci_ExternalIP containerInfo,
                            co_InternalIP := ci_ContainerIP containerInfo,
                            co_InternalIPv6 := ci_ContainerIPv6 containerInfo,
                            co_AdvertisePreferenceForInstanceAddress :=
                              nc_advertisePreferenceForInstanceAddress cfg,
                            co_MemoryLimit := gs_MemoryLimit spec,
                            co_DiskLimit := gs_DiskByteHard spec\<rparr>)))))"

definition fail_create ::
  "storeNode \<Rightarrow> string \<Rightarrow> string \<Rightarrow> exec_error \<Rightarrow> storeNode \<times> exec_error option" where
  "fail_create n traceID reason err = (node_complete n traceID True reason True, Some err)"

text \<open>The last part of the closure \<open>createContainer\<close>: garden and the new state.\<close>

definition create_in_garden ::
  "node_config \<Rightarrow> node_env \<Rightarrow> storeNode \<Rightarrow> string \<Rightarrow> Container \<Rightarrow> cache_key list
   \<Rightarrow> storeNode \<times> exec_error option" where
  "create_in_garden cfg env n traceID info keys =
     (case createGardenContainer cfg env n info of
        (n, Inl err) \<Rightarrow>
          fail_create n traceID
            (ContainerCreationFailedMessage @ '': '' @ exec_error_Error err) err
      | (n, Inr info) \<Rightarrow>
          (let n = n\<lparr>sn_gardenContainer := Some (co_Guid info), sn_info := info,
                     sn_bindMountCacheKeys := keys\<rparr>
           in case TransitionToCreate info of
               Inl e \<Rightarrow> (n, Some e)
             | Inr created \<Rightarrow> (n\<lparr>sn_info := created\<rparr>, None)))"

definition healthcheck_mount :: "node_config \<Rightarrow> BindMount" where
  "healthcheck_mount cfg =
     \<lparr>bm_SrcPath = nc_declarativeHealthcheckPath cfg, bm_DstPath = ''/etc/cf-assets/healthcheck'',
      bm_Mode = 0, bm_Origin = 0\<rparr>"

definition add_mounts :: "BindMount list \<Rightarrow> storeNode \<Rightarrow> storeNode" where
  "add_mounts ms n = n\<lparr>sn_bindMounts := sn_bindMounts n @ ms\<rparr>"

text \<open>The middle part: the credential directory and the mounted files.\<close>

definition create_directories ::
  "node_config \<Rightarrow> node_env \<Rightarrow> storeNode \<Rightarrow> string \<Rightarrow> Container \<Rightarrow> cache_key list
   \<Rightarrow> storeNode \<times> exec_error option" where
  "create_directories cfg env n traceID info keys =
     (case ne_CreateCredDir env (sn_info n) of
        Inl err \<Rightarrow> fail_create n traceID CredDirFailed (ErrMessage err)
      | Inr (credMounts, envs) \<Rightarrow>
          (let n = ask [CredDirCreated (co_Guid info)] n;
               finish = (\<lambda>n. create_in_garden cfg env
                 (add_mounts [healthcheck_mount cfg] (add_mounts credMounts n))
                 traceID (with_env info envs) keys)
           in if ri_VolumeMountedFiles (co_RunInfo info) \<noteq> []
              then case ne_CreateFilesDir env info of
                  Inl err \<Rightarrow> fail_create n traceID VolumeMountedFileFailed (ErrMessage err)
                | Inr files \<Rightarrow>
                    finish (add_mounts files (ask [FilesDirCreated (co_Guid info)] n))
              else finish n))"

definition mount_failure_message :: "mount_error \<Rightarrow> string" where
  "mount_failure_message err =
     (case err of
        SafeError s \<Rightarrow> VolmanMountFailed @ '', errors: '' @ s
      | MountError s \<Rightarrow> VolmanMountFailed)"

text \<open>The first part: the cached dependencies, the trusted certificates and the volumes.\<close>

definition create_mounts ::
  "node_config \<Rightarrow> node_env \<Rightarrow> storeNode \<Rightarrow> string \<Rightarrow> Container \<Rightarrow> storeNode \<times> exec_error option" where
  "create_mounts cfg env n traceID info =
     (case ne_DownloadCachedDependencies env (ri_CachedDependencies (co_RunInfo info)) of
        (mounts, keys, Some err) \<Rightarrow>
          fail_create (ask [Downloaded keys, Released keys] n) traceID
            DownloadCachedDependenciesFailed (ErrMessage err)
      | (mounts, keys, None) \<Rightarrow>
          (let n = ask [Downloaded keys] (n\<lparr>sn_bindMounts := mounts\<rparr>);
               certs = ri_TrustedSystemCertificatesPath (co_RunInfo info);
               (n, info) =
                 (if nc_hostTrustedCertificatesPath cfg \<noteq> [] \<and> certs \<noteq> []
                  then (add_mounts [\<lparr>bm_SrcPath = nc_hostTrustedCertificatesPath cfg,
                          bm_DstPath = certs, bm_Mode = 0, bm_Origin = 0\<rparr>] n,
                        with_env info [\<lparr>ev_Name = ''CF_SYSTEM_CERT_PATH'', ev_Value = certs\<rparr>])
                  else (n, info));
               (calls, r) = mountVolumes cfg env info (ri_VolumeMounts (co_RunInfo info));
               n = ask calls n
           in case r of
               Inl err \<Rightarrow>
                 fail_create n traceID (mount_failure_message err) (ErrMessage (mount_error_Error err))
             | Inr volumeMounts \<Rightarrow>
                 create_directories cfg env (add_mounts volumeMounts n) traceID info keys))"

definition node_Create ::
  "node_config \<Rightarrow> node_env \<Rightarrow> storeNode \<Rightarrow> string \<Rightarrow> int \<Rightarrow> storeNode \<times> exec_error option" where
  "node_Create cfg env n traceID now =
     (let info = Info n
      in if \<not> ValidateTransitionTo info StateCreated then (n, Some ErrInvalidTransition)
         else create_mounts cfg env (n\<lparr>sn_startTime := now\<rparr>) traceID info)"

subsection \<open>Run\<close>

definition node_Run :: "node_env \<Rightarrow> storeNode \<Rightarrow> storeNode \<times> exec_error option" where
  "node_Run env n =
     (if co_State (sn_info n) \<noteq> StateCreated then (n, Some ErrInvalidTransition)
      else let n = n\<lparr>sn_logStreamer := Some (lc_Tags (ri_LogConfig (co_RunInfo (sn_info n))))\<rparr>;
               proxyTLSPorts = map pm_ContainerTLSProxyPort (ri_Ports (co_RunInfo (sn_info n)))
           in case ne_StepsRunner env (sn_info n) of
               Inl err \<Rightarrow> (n, Some (ErrMessage err))
             | Inr readiness \<Rightarrow>
                 (ask [RunnerStarted (co_Guid (sn_info n)) proxyTLSPorts (sn_bindMounts n)]
                    (n\<lparr>sn_process := ProcStarting readiness\<rparr>), None))"

text \<open>
  The error a process exits with: nil, an error with its message, or the exit trace of a group
  with the error of every member.
\<close>

datatype run_error = NoErr | RunErr string | RunTrace "(string \<times> run_error) list"

definition complete_with_message :: "storeNode \<Rightarrow> string \<Rightarrow> string \<Rightarrow> storeNode" where
  "complete_with_message n traceID errorStr =
     (if errorStr \<noteq> [] then node_complete n traceID True errorStr False
      else node_complete n traceID False [] False)"

function complete_with_trace :: "storeNode \<Rightarrow> string \<Rightarrow> (string \<times> run_error) list \<Rightarrow> storeNode" where
  "complete_with_trace n traceID [] = n"
| "complete_with_trace n traceID ((name, RunTrace errorTrace) # events) =
     complete_with_trace n traceID errorTrace"
| "complete_with_trace n traceID ((name, NoErr) # events) = complete_with_trace n traceID events"
| "complete_with_trace n traceID ((name, RunErr err) # events) =
     complete_with_trace
       (complete_with_message n traceID
          (if name \<noteq> ''runner'' then name @ '' exited: '' @ err else err))
       traceID events"
  by pat_completeness auto
termination
  by (relation "measure (\<lambda>(n, traceID, events). size (RunTrace events))")
     (auto simp: prod.size_gen)

fun completeWithError :: "storeNode \<Rightarrow> string \<Rightarrow> run_error \<Rightarrow> storeNode" where
  "completeWithError n traceID (RunTrace exitTrace) = complete_with_trace n traceID exitTrace"
| "completeWithError n traceID (RunErr err) = complete_with_message n traceID err"
| "completeWithError n traceID NoErr = complete_with_message n traceID []"

definition run_ready :: "storeNode \<Rightarrow> string \<Rightarrow> storeNode" where
  "run_ready n traceID =
     (case sn_process n of
        ProcStarting readiness \<Rightarrow>
          (let info = (sn_info n)\<lparr>co_State := StateRunning, co_Routable := \<not> readiness\<rparr>
           in ask [Emitted (ContainerRunningEvent (Container_Copy info) traceID)]
                (n\<lparr>sn_info := info, sn_process := ProcRunning readiness\<rparr>))
      | _ \<Rightarrow> n)"

definition run_readiness :: "storeNode \<Rightarrow> string \<Rightarrow> bool \<Rightarrow> storeNode" where
  "run_readiness n traceID isReady =
     (if sn_process n = ProcRunning True
      then let info = (sn_info n)\<lparr>co_Routable := isReady\<rparr>
           in ask [Emitted (ContainerRunningEvent (Container_Copy info) traceID)] (n\<lparr>sn_info := info\<rparr>)
      else n)"

definition run_exit :: "storeNode \<Rightarrow> string \<Rightarrow> run_error \<Rightarrow> storeNode" where
  "run_exit n traceID err =
     (case sn_process n of
        NoProcess \<Rightarrow> n
      | ProcExited \<Rightarrow> n
      | _ \<Rightarrow> completeWithError (n\<lparr>sn_process := ProcExited\<rparr>) traceID err)"

subsection \<open>Update\<close>

definition update_info :: "UpdateRequest \<Rightarrow> Container \<Rightarrow> Container" where
  "update_info req info =
     (let ri = co_RunInfo info;
          ri = (case ur_InternalRoutes req of
                  None \<Rightarrow> ri | Some routes \<Rightarrow> ri\<lparr>ri_InternalRoutes := Some routes\<rparr>);
          ri = (case ur_MetricTags req of
                  None \<Rightarrow> ri
                | Some tags \<Rightarrow>
                    ri\<lparr>ri_LogConfig := (ri_LogConfig ri)\<lparr>lc_Tags := Some tags\<rparr>,
                       ri_MetricsConfig := (ri_MetricsConfig ri)\<lparr>mc_Tags := Some tags\<rparr>\<rparr>)
      in info\<lparr>co_RunInfo := ri\<rparr>)"

text \<open>The part of \<open>Update\<close> after the certificates: the tags of the streamer and of garden.\<close>

definition update_tags ::
  "node_env \<Rightarrow> storeNode \<Rightarrow> UpdateRequest \<Rightarrow> string \<Rightarrow> storeNode \<times> exec_error option" where
  "update_tags env n req logConfigJSON =
     (if ur_MetricTags req = None then (n, None)
      else let n = (if sn_logStreamer n \<noteq> None
                    then ask [TagsUpdated (ur_MetricTags req)]
                           (n\<lparr>sn_logStreamer := Some (ur_MetricTags req)\<rparr>)
                    else n)
           in case sn_gardenContainer n of
               None \<Rightarrow> (n, None)
             | Some gc \<Rightarrow>
                 (case ne_SetProperty env gc ''log_config'' logConfigJSON of
                    Some err \<Rightarrow> (n, Some (ErrMessage err))
                  | None \<Rightarrow> (ask [PropertySet gc ''log_config'' logConfigJSON] n, None)))"

text \<open>
  The channel \<open>regenerateCertsCh\<close> has room for one message, which the runner of the credential
  manager takes; \<open>None\<close> is a send that blocks, with the lock of the node held.
\<close>

definition node_Update ::
  "node_env \<Rightarrow> storeNode \<Rightarrow> UpdateRequest \<Rightarrow> (storeNode \<times> exec_error option) option" where
  "node_Update env n req =
     (let n = n\<lparr>sn_info := update_info req (sn_info n)\<rparr>;
          marshalled = (if ur_MetricTags req = None then Inr []
            else ne_jsonMarshaller env (ri_LogConfig (co_RunInfo (sn_info n))))
      in case marshalled of
          Inl err \<Rightarrow> Some (n, Some (ErrMessage err))
        | Inr logConfigJSON \<Rightarrow>
            if ur_InternalRoutes req = None then Some (update_tags env n req logConfigJSON)
            else if sn_regenerateCerts n \<ge> 1 then None
            else Some (update_tags env (n\<lparr>sn_regenerateCerts := sn_regenerateCerts n + 1\<rparr>)
                         req logConfigJSON))"

subsection \<open>Stop and Destroy\<close>

definition set_stopped :: "Container \<Rightarrow> Container" where
  "set_stopped info = info\<lparr>co_RunResult := (co_RunResult info)\<lparr>rr_Stopped := True\<rparr>\<rparr>"

definition node_stop :: "storeNode \<Rightarrow> string \<Rightarrow> storeNode" where
  "node_stop n traceID =
     (let n = n\<lparr>sn_info := set_stopped (sn_info n)\<rparr>
      in if sn_process n \<noteq> NoProcess then ask [Interrupted (co_Guid (sn_info n))] n
         else if co_State (sn_info n) \<noteq> StateCompleted
         then node_complete n traceID True ''stopped-before-running'' False
         else n)"

definition node_Stop :: "storeNode \<Rightarrow> string \<Rightarrow> storeNode" where
  "node_Stop n traceID = (if sn_stopping n then n else node_stop n traceID)"

definition umountVolumeMounts :: "Container \<Rightarrow> node_call list" where
  "umountVolumeMounts info =
     map (\<lambda>v. Unmounted (vm_Driver v) (vm_VolumeId v) (co_Guid info)) (ri_VolumeMounts (co_RunInfo info))"

text \<open>The deferred calls of \<open>Destroy\<close>, last one first.\<close>

definition destroy_cleanup :: "Container \<Rightarrow> node_call list" where
  "destroy_cleanup info =
     [FilesDirRemoved (co_Guid info)] @ umountVolumeMounts info @ [CredDirRemoved (co_Guid info)]"

definition Destroy_enter :: "storeNode \<Rightarrow> storeNode option" where
  "Destroy_enter n = (if sn_destroying n then None else Some (n\<lparr>sn_destroying := True\<rparr>))"

definition Destroy_locked ::
  "node_env \<Rightarrow> storeNode \<Rightarrow> string \<Rightarrow> run_error \<Rightarrow> storeNode \<times> exec_error option" where
  "Destroy_locked env n traceID exitErr =
     (let n = run_exit (node_stop n traceID) traceID exitErr;
          info = Info n
      in case destroyContainer env n of
          (n, Some err) \<Rightarrow> ((ask (destroy_cleanup info) n)\<lparr>sn_destroying := False\<rparr>, Some err)
        | (n, None) \<Rightarrow>
            ((ask (Released (sn_bindMountCacheKeys n) # destroy_cleanup info) n)\<lparr>sn_destroying := False\<rparr>,
             case ne_ReleaseCachedDependencies env (sn_bindMountCacheKeys n) of
               Some err \<Rightarrow> Some (ErrMessage BindMountCleanupFailed)
             | None \<Rightarrow> None))"

definition node_Destroy ::
  "node_env \<Rightarrow> storeNode \<Rightarrow> string \<Rightarrow> run_error \<Rightarrow> storeNode \<times> exec_error option" where
  "node_Destroy env n traceID exitErr =
     (case Destroy_enter n of
        None \<Rightarrow> (n, None)
      | Some n \<Rightarrow> Destroy_locked env n traceID exitErr)"

subsection \<open>Expire and Reap\<close>

definition Expire :: "node_config \<Rightarrow> storeNode \<Rightarrow> string \<Rightarrow> int \<Rightarrow> storeNode \<times> bool" where
  "Expire cfg n traceID now =
     (if co_State (sn_info n) \<noteq> StateReserved then (n, False)
      else let lifespan = time_Sub now (co_AllocatedAt (sn_info n))
           in if lifespan \<ge> nc_ReservedExpirationTime cfg
              then (node_complete n traceID True ContainerExpirationMessage False, True)
              else (n, False))"

definition Reap :: "storeNode \<Rightarrow> string \<Rightarrow> storeNode \<times> bool" where
  "Reap n traceID =
     (if IsCreated (sn_info n)
      then (node_complete (ask [CredDirRemoved (co_Guid (sn_info n))] n) traceID True
              ContainerMissingMessage False, True)
      else (n, False))"

subsection \<open>Lemmas: what the helpers keep\<close>

named_theorems node_simps \<open>the fields a helper of the node leaves alone\<close>

lemma ask_fields [node_simps]:
  "sn_info (ask cs n) = sn_info n" "sn_gardenContainer (ask cs n) = sn_gardenContainer n"
  "sn_process (ask cs n) = sn_process n" "sn_regenerateCerts (ask cs n) = sn_regenerateCerts n"
  "sn_bindMountCacheKeys (ask cs n) = sn_bindMountCacheKeys n"
  "sn_destroying (ask cs n) = sn_destroying n" "sn_calls (ask cs n) = sn_calls n @ cs"
  by (simp_all add: ask_def)

lemma add_mounts_fields [node_simps]:
  "sn_info (add_mounts ms n) = sn_info n" "sn_gardenContainer (add_mounts ms n) = sn_gardenContainer n"
  "sn_process (add_mounts ms n) = sn_process n"
  "sn_regenerateCerts (add_mounts ms n) = sn_regenerateCerts n"
  "sn_bindMountCacheKeys (add_mounts ms n) = sn_bindMountCacheKeys n"
  "sn_destroying (add_mounts ms n) = sn_destroying n" "sn_calls (add_mounts ms n) = sn_calls n"
  by (simp_all add: add_mounts_def)

lemma node_complete_fields [node_simps]:
  "sn_info (node_complete n t f r y) = TransitionToComplete (sn_info n) f r y"
  "sn_gardenContainer (node_complete n t f r y) = sn_gardenContainer n"
  "sn_process (node_complete n t f r y) = sn_process n"
  "sn_regenerateCerts (node_complete n t f r y) = sn_regenerateCerts n"
  "sn_bindMountCacheKeys (node_complete n t f r y) = sn_bindMountCacheKeys n"
  "sn_destroying (node_complete n t f r y) = sn_destroying n"
  "sn_calls (node_complete n t f r y) =
     sn_calls n @ [Emitted (ContainerCompleteEvent (TransitionToComplete (sn_info n) f r y) t)]"
  by (simp_all add: node_complete_def Let_def node_simps)

text \<open>What a container keeps through all operations.\<close>

definition same_container :: "Container \<Rightarrow> Container \<Rightarrow> bool" where
  "same_container c d \<longleftrightarrow> co_Guid d = co_Guid c \<and> co_Resource d = co_Resource c"

lemma same_container_simps [node_simps]:
  "same_container c c"
  "same_container c (TransitionToComplete d f r y) = same_container c d"
  "same_container c (Container_Copy d) = same_container c d"
  "same_container c (with_ports d ps) = same_container c d"
  "same_container c (with_env d es) = same_container c d"
  "same_container c (set_stopped d) = same_container c d"
  "same_container c (update_info req d) = same_container c d"
  by (simp_all add: same_container_def with_ports_def with_env_def set_stopped_def update_info_def Let_def)

lemma co_State_simps [node_simps]:
  "co_State (with_ports d ps) = co_State d" "co_State (with_env d es) = co_State d"
  "co_State (set_stopped d) = co_State d" "co_State (update_info req d) = co_State d"
  "co_Guid (with_ports d ps) = co_Guid d" "co_Guid (with_env d es) = co_Guid d"
  "co_Guid (set_stopped d) = co_Guid d" "co_Guid (update_info req d) = co_Guid d"
  "co_Resource (with_ports d ps) = co_Resource d" "co_Resource (with_env d es) = co_Resource d"
  "co_RunResult (with_ports d ps) = co_RunResult d" "co_RunResult (with_env d es) = co_RunResult d"
  "co_RunResult (update_info req d) = co_RunResult d"
  "rr_FailureReason (co_RunResult (set_stopped d)) = rr_FailureReason (co_RunResult d)"
  by (simp_all add: with_ports_def with_env_def set_stopped_def update_info_def Let_def)

subsection \<open>Lemmas: Create\<close>

text \<open>
  How \<open>Create\<close> leaves a node it has been called on in state initializing: with an error, the
  container is completed as a failure to be retried and that is the last thing emitted; without
  one, it exists in garden and is created.
\<close>

definition create_outcome :: "storeNode \<Rightarrow> string \<Rightarrow> storeNode \<times> exec_error option \<Rightarrow> bool" where
  "create_outcome n traceID r \<longleftrightarrow>
     (let n' = fst r; info = sn_info n'
      in same_container (sn_info n) info \<and> sn_process n' = sn_process n
       \<and> sn_regenerateCerts n' = sn_regenerateCerts n \<and> sn_destroying n' = sn_destroying n
       \<and> set (sn_calls n) \<subseteq> set (sn_calls n')
       \<and> (if snd r = None
          then co_State info = StateCreated \<and> co_RunResult info = co_RunResult (sn_info n)
             \<and> sn_gardenContainer n' = Some (co_Guid info)
             \<and> (\<exists>spec. GardenCreated spec \<in> set (sn_calls n') \<and> gs_Handle spec = co_Guid info)
          else (\<exists>reason. info = TransitionToComplete (sn_info n) True reason True)
             \<and> sn_gardenContainer n' = sn_gardenContainer n
             \<and> sn_bindMountCacheKeys n' = sn_bindMountCacheKeys n
             \<and> (\<exists>cs. sn_calls n' = cs @ [Emitted (ContainerCompleteEvent info traceID)])))"

lemma create_outcome_fail:
  "create_outcome n traceID (fail_create n traceID reason err)"
  by (auto simp: create_outcome_def fail_create_def Let_def node_simps)

lemma create_outcome_via:
  assumes "create_outcome m traceID r" and "sn_info m = sn_info n"
    and "sn_gardenContainer m = sn_gardenContainer n" and "sn_process m = sn_process n"
    and "sn_regenerateCerts m = sn_regenerateCerts n" and "sn_destroying m = sn_destroying n"
    and "sn_bindMountCacheKeys m = sn_bindMountCacheKeys n"
    and "set (sn_calls n) \<subseteq> set (sn_calls m)"
  shows "create_outcome n traceID r"
  using assms unfolding create_outcome_def Let_def by auto

lemma garden_request_Inr:
  "garden_request cfg env mounts info = Inr (info', ms, spec) \<Longrightarrow>
     same_container info info' \<and> co_State info' = co_State info \<and> gs_Handle spec = co_Guid info
     \<and> co_RunResult info' = co_RunResult info"
  by (auto simp: garden_request_def Let_def container_spec_def node_simps same_container_def
      split: sum.splits)

text \<open>What the local copy of the container that \<open>Create\<close> works on has in common with the node.\<close>

definition create_copy :: "storeNode \<Rightarrow> Container \<Rightarrow> bool" where
  "create_copy n info \<longleftrightarrow> same_container (sn_info n) info \<and> co_State info = StateInitializing
     \<and> co_RunResult info = co_RunResult (sn_info n)"

lemma create_in_garden_outcome:
  assumes "create_copy n info"
  shows "create_outcome n traceID (create_in_garden cfg env n traceID info keys)"
proof -
  note fail = create_outcome_via [OF create_outcome_fail]
  show ?thesis
  proof (cases "garden_request cfg env (sn_bindMounts n) info")
    case (Inl e)
    then show ?thesis
      by (simp add: create_in_garden_def createGardenContainer_def create_outcome_fail)
  next
    case (Inr x)
    obtain info' ms spec where x: "x = (info', ms, spec)" by (cases x)
    note req = garden_request_Inr [OF Inr [unfolded x]]
    show ?thesis
    proof (cases "ne_GardenCreate env spec")
      case (Some e)
      with Inr x show ?thesis
        by (simp add: create_in_garden_def createGardenContainer_def create_outcome_fail)
    next
      case None
      show ?thesis
      proof (cases "ne_GardenInfo env (gs_Handle spec)")
        case (Inl e)
        with Inr x None show ?thesis
          by (auto simp: create_in_garden_def createGardenContainer_def destroyContainer_def
              Let_def node_simps intro!: fail)
      next
        case (Inr ci)
        with \<open>garden_request _ _ _ _ = _\<close> x None req assms show ?thesis
          by (auto simp: create_in_garden_def createGardenContainer_def create_outcome_def
              create_copy_def TransitionToCreate_def ValidateTransitionTo_def Let_def node_simps
              same_container_def)
      qed
    qed
  qed
qed

lemma create_directories_outcome:
  assumes "create_copy n info"
  shows "create_outcome n traceID (create_directories cfg env n traceID info keys)"
proof -
  note via = create_outcome_via [OF create_outcome_fail] create_outcome_via [OF create_in_garden_outcome]
  show ?thesis using assms
    by (auto simp: create_directories_def Let_def node_simps create_copy_def
        split: sum.splits intro!: via create_outcome_fail)
qed

lemma create_mounts_outcome:
  assumes "create_copy n info"
  shows "create_outcome n traceID (create_mounts cfg env n traceID info)"
proof -
  note via = create_outcome_via [OF create_outcome_fail] create_outcome_via [OF create_directories_outcome]
  show ?thesis using assms
    by (auto simp: create_mounts_def Let_def node_simps create_copy_def
        split: sum.splits prod.splits option.splits intro!: via create_outcome_fail)
qed

lemma node_Create_outcome:
  assumes "co_State (sn_info n) = StateInitializing"
  shows "create_outcome n traceID (node_Create cfg env n traceID now)"
proof -
  have "create_outcome (n\<lparr>sn_startTime := now\<rparr>) traceID
      (create_mounts cfg env (n\<lparr>sn_startTime := now\<rparr>) traceID (Info n))"
    by (rule create_mounts_outcome) (simp add: create_copy_def Info_def assms node_simps)
  then show ?thesis
    by (auto simp: node_Create_def Let_def Info_def ValidateTransitionTo_def assms
        elim: create_outcome_via)
qed

lemma node_Create_invalid:
  assumes "co_State (sn_info n) \<noteq> StateInitializing"
  shows "node_Create cfg env n traceID now = (n, Some ErrInvalidTransition)"
  using assms
  by (auto simp: node_Create_def Let_def Info_def ValidateTransitionTo_def split: State.splits)

subsection \<open>The steps of a node and its invariant\<close>

text \<open>
  One step of a node: an operation of the store, an event of its process, or the runner of the
  credential manager taking a message from \<open>regenerateCertsCh\<close>.
\<close>

inductive node_step :: "node_config \<Rightarrow> storeNode \<Rightarrow> storeNode \<Rightarrow> bool" for cfg where
  initialize: "node_step cfg n (fst (node_Initialize n req))"
| create: "node_step cfg n (fst (node_Create cfg env n traceID now))"
| run: "node_step cfg n (fst (node_Run env n))"
| ready: "node_step cfg n (run_ready n traceID)"
| readiness: "node_step cfg n (run_readiness n traceID isReady)"
| exit: "node_step cfg n (run_exit n traceID err)"
| update: "node_Update env n req = Some (n', e) \<Longrightarrow> node_step cfg n n'"
| certs: "sn_process n \<noteq> NoProcess \<Longrightarrow> node_step cfg n (n\<lparr>sn_regenerateCerts := 0\<rparr>)"
| stop: "node_step cfg n (node_Stop n traceID)"
| destroy_enter: "Destroy_enter n = Some n' \<Longrightarrow> node_step cfg n n'"
| destroy: "sn_destroying n \<Longrightarrow> node_step cfg n (fst (Destroy_locked env n traceID err))"
| expire: "node_step cfg n (fst (Expire cfg n traceID now))"
| reap: "node_step cfg n (fst (Reap n traceID))"

inductive node_reach :: "node_config \<Rightarrow> storeNode \<Rightarrow> bool" for cfg where
  reserved: "node_reach cfg (newStoreNode (NewReservedContainerFromAllocationRequest req now) logs)"
| step: "node_reach cfg n \<Longrightarrow> node_step cfg n n' \<Longrightarrow> node_reach cfg n'"

definition emitted_complete :: "storeNode \<Rightarrow> bool" where
  "emitted_complete n \<longleftrightarrow>
     (\<exists>info t. Emitted (ContainerCompleteEvent info t) \<in> set (sn_calls n)
        \<and> co_Guid info = co_Guid (sn_info n) \<and> co_State info = StateCompleted)"

definition node_inv :: "storeNode \<Rightarrow> bool" where
  "node_inv n \<longleftrightarrow>
     (co_State (sn_info n) = StateCompleted \<longrightarrow> emitted_complete n)
   \<and> (sn_gardenContainer n \<noteq> None \<longrightarrow> sn_gardenContainer n = Some (co_Guid (sn_info n)))
   \<and> (sn_process n \<noteq> NoProcess \<longrightarrow> sn_gardenContainer n \<noteq> None)
   \<and> (co_State (sn_info n) \<in> {StateReserved, StateInitializing} \<longrightarrow>
        sn_gardenContainer n = None \<and> sn_process n = NoProcess)
   \<and> (co_State (sn_info n) = StateCreated \<longrightarrow> sn_gardenContainer n \<noteq> None)
   \<and> (co_State (sn_info n) = StateRunning \<longrightarrow> sn_process n \<noteq> NoProcess)
   \<and> co_State (sn_info n) \<noteq> StateInvalid
   \<and> length (rr_FailureReason (co_RunResult (sn_info n))) \<le> 10000
   \<and> sn_regenerateCerts n \<le> 1"

lemma emitted_complete_mono:
  "emitted_complete n \<Longrightarrow> set (sn_calls n) \<subseteq> set (sn_calls m) \<Longrightarrow> co_Guid (sn_info m) = co_Guid (sn_info n)
   \<Longrightarrow> emitted_complete m"
  unfolding emitted_complete_def by force

lemma emitted_complete_now:
  "Emitted (ContainerCompleteEvent info t) \<in> set (sn_calls n) \<Longrightarrow> co_Guid info = co_Guid (sn_info n)
   \<Longrightarrow> co_State info = StateCompleted \<Longrightarrow> emitted_complete n"
  unfolding emitted_complete_def by force

lemma emitted_after_complete [simp]: "emitted_complete (node_complete n t f r y)"
  by (rule emitted_complete_now [of "TransitionToComplete (sn_info n) f r y" t])
     (simp_all add: node_simps)

lemma node_inv_complete:
  assumes "node_inv n"
  shows "node_inv (node_complete n t f r y)"
  using assms length_truncateString [of 10000 r] by (auto simp: node_inv_def node_simps)

lemma node_inv_ask:
  assumes "node_inv n"
  shows "node_inv (ask cs n)"
proof -
  have "emitted_complete (ask cs n)" if "emitted_complete n"
    using that by (rule emitted_complete_mono) (auto simp: node_simps)
  with assms show ?thesis by (auto simp: node_inv_def node_simps)
qed

lemma node_inv_transfer:
  assumes "node_inv n" and "set (sn_calls n) \<subseteq> set (sn_calls m)"
    and "co_Guid (sn_info m) = co_Guid (sn_info n)" and "co_State (sn_info m) = co_State (sn_info n)"
    and "rr_FailureReason (co_RunResult (sn_info m)) = rr_FailureReason (co_RunResult (sn_info n))"
    and "sn_gardenContainer m = sn_gardenContainer n" and "sn_process m = sn_process n"
    and "sn_regenerateCerts m \<le> 1"
  shows "node_inv m"
  using assms emitted_complete_mono [of n m] by (auto simp: node_inv_def)

lemma node_inv_message: "node_inv n \<Longrightarrow> node_inv (complete_with_message n t s)"
  by (simp add: complete_with_message_def node_inv_complete)

lemma node_inv_trace: "node_inv n \<Longrightarrow> node_inv (complete_with_trace n t evs)"
  by (induction n t evs rule: complete_with_trace.induct) (simp_all add: node_inv_message)

lemma node_inv_completeWithError: "node_inv n \<Longrightarrow> node_inv (completeWithError n t err)"
  by (cases err) (auto intro: node_inv_message node_inv_trace)

lemma node_inv_exit:
  assumes "node_inv n"
  shows "node_inv (run_exit n t err)"
proof (cases "sn_process n = NoProcess \<or> sn_process n = ProcExited")
  case True
  with assms show ?thesis by (auto simp: run_exit_def)
next
  case False
  then have "run_exit n t err = completeWithError (n\<lparr>sn_process := ProcExited\<rparr>) t err"
    by (auto simp: run_exit_def split: node_process.splits)
  moreover have "node_inv (n\<lparr>sn_process := ProcExited\<rparr>)"
    using assms False by (auto simp: node_inv_def emitted_complete_def)
  ultimately show ?thesis by (simp add: node_inv_completeWithError)
qed

lemma node_inv_stop:
  assumes "node_inv n"
  shows "node_inv (node_stop n t)"
proof -
  have "node_inv (n\<lparr>sn_info := set_stopped (sn_info n)\<rparr>)"
    by (rule node_inv_transfer [OF assms]) (use assms in \<open>auto simp: node_simps node_inv_def\<close>)
  then show ?thesis by (simp add: node_stop_def Let_def node_inv_complete node_inv_ask)
qed

lemma node_inv_destroy:
  assumes "node_inv n"
  shows "node_inv (fst (Destroy_locked env n t err))"
proof -
  have flag: "node_inv m \<Longrightarrow> node_inv (m\<lparr>sn_destroying := False\<rparr>)" for m
    by (auto simp: node_inv_def emitted_complete_def)
  from assms have "node_inv (run_exit (node_stop n t) t err)"
    by (intro node_inv_exit node_inv_stop)
  then show ?thesis
    by (auto simp: Destroy_locked_def destroyContainer_def Let_def node_inv_ask
        split: option.splits garden_error.splits intro!: flag)
qed

lemma node_inv_create:
  assumes inv: "node_inv n"
  shows "node_inv (fst (node_Create cfg env n t now))"
proof (cases "co_State (sn_info n) = StateInitializing")
  case True
  note out = node_Create_outcome [OF True, of t cfg env now]
  have "length (truncateString reason 10000) \<le> 10000" for reason by (rule length_truncateString) simp
  moreover have "emitted_complete m"
    if "sn_calls m = cs @ [Emitted (ContainerCompleteEvent (sn_info m) t)]"
      "co_State (sn_info m) = StateCompleted" for m cs
    using that by (intro emitted_complete_now [of "sn_info m" t]) auto
  ultimately show ?thesis
    using out True inv
    unfolding create_outcome_def node_inv_def Let_def same_container_def
    by (cases "snd (node_Create cfg env n t now)") auto
next
  case False
  with inv show ?thesis by (simp add: node_Create_invalid)
qed

lemma node_inv_ready:
  assumes "node_inv n"
  shows "node_inv (run_ready n t)"
  using assms
  by (auto simp: run_ready_def Let_def node_inv_def node_simps split: node_process.splits)

lemma node_inv_readiness:
  assumes "node_inv n"
  shows "node_inv (run_readiness n t b)"
proof (cases "sn_process n = ProcRunning True")
  case True
  then show ?thesis
    using assms
    by (auto simp: run_readiness_def Let_def node_simps intro!: node_inv_transfer [OF assms])
       (auto simp: node_inv_def)
qed (use assms in \<open>simp add: run_readiness_def\<close>)

lemma node_inv_initialize:
  assumes "node_inv n"
  shows "node_inv (fst (node_Initialize n req))"
proof (cases "TransitionToInitialize (sn_info n) req")
  case (Inl e)
  with assms show ?thesis by (simp add: node_Initialize_def)
next
  case (Inr info)
  from TransitionToInitialize_Inr [OF this]
  have "co_State (sn_info n) = StateReserved" and "co_State info = StateInitializing"
    and "co_RunResult info = co_RunResult (sn_info n)" by simp_all
  with assms Inr show ?thesis by (simp add: node_Initialize_def node_inv_def)
qed

lemma update_tags_fields:
  "sn_info (fst (update_tags env n req j)) = sn_info n
   \<and> sn_gardenContainer (fst (update_tags env n req j)) = sn_gardenContainer n
   \<and> sn_process (fst (update_tags env n req j)) = sn_process n
   \<and> sn_regenerateCerts (fst (update_tags env n req j)) = sn_regenerateCerts n
   \<and> set (sn_calls n) \<subseteq> set (sn_calls (fst (update_tags env n req j)))"
  by (auto simp: update_tags_def Let_def node_simps split: option.splits)

lemma node_Update_fields:
  assumes "node_Update env n req = Some (n', e)"
  shows "sn_info n' = update_info req (sn_info n) \<and> sn_gardenContainer n' = sn_gardenContainer n
    \<and> sn_process n' = sn_process n \<and> set (sn_calls n) \<subseteq> set (sn_calls n')
    \<and> (sn_regenerateCerts n' = sn_regenerateCerts n \<or> sn_regenerateCerts n' = 1)"
proof -
  let ?m = "n\<lparr>sn_info := update_info req (sn_info n)\<rparr>"
  let ?m' = "?m\<lparr>sn_regenerateCerts := 1\<rparr>"
  consider "n' = ?m" | j where "n' = fst (update_tags env ?m req j)"
    | j where "n' = fst (update_tags env ?m' req j)"
    using assms
    by (cases "sn_regenerateCerts n = 0")
       (auto simp: node_Update_def Let_def split: sum.splits if_splits dest!: arg_cong [where f = fst])
  then show ?thesis
  proof cases
    case 1
    then show ?thesis by simp
  next
    case 2
    then show ?thesis using update_tags_fields [of env ?m req j] by simp
  next
    case 3
    then show ?thesis using update_tags_fields [of env ?m' req j] by simp
  qed
qed

lemma node_inv_step:
  assumes "node_step cfg n n'" and inv: "node_inv n"
  shows "node_inv n'"
proof -
  have certs: "sn_regenerateCerts n \<le> 1" using inv by (simp add: node_inv_def)
  show ?thesis using assms(1)
  proof cases
  case (initialize req)
  with inv show ?thesis by (simp add: node_inv_initialize)
next
  case (run env)
  with inv show ?thesis
    by (auto simp: node_Run_def Let_def node_simps node_inv_def emitted_complete_def split: sum.splits)
next
  case (update env req e)
  show ?thesis
    by (rule node_inv_transfer [OF inv])
       (use node_Update_fields [OF update] certs in \<open>auto simp: node_simps\<close>)
next
  case certs
  then show ?thesis by (simp add: node_inv_transfer [OF inv])
next
  case (stop t)
  with inv show ?thesis by (simp add: node_Stop_def node_inv_stop)
next
  case destroy_enter
  then have "n' = n\<lparr>sn_destroying := True\<rparr>" by (simp add: Destroy_enter_def split: if_splits)
  then show ?thesis using certs by (simp add: node_inv_transfer [OF inv])
next
  case (expire t now)
  with inv show ?thesis by (simp add: Expire_def Let_def node_inv_complete)
next
  case (reap t)
  with inv show ?thesis by (simp add: Reap_def Let_def node_inv_complete node_inv_ask)
  qed (simp_all add: inv node_inv_create node_inv_ready node_inv_readiness node_inv_exit
      node_inv_destroy)
qed

lemma node_reach_inv: "node_reach cfg n \<Longrightarrow> node_inv n"
proof (induction rule: node_reach.induct)
  case (reserved req now logs)
  show ?case
    by (simp add: newStoreNode_def NewReservedContainerFromAllocationRequest_def
        NewContainerFromResource_def node_inv_def)
qed (rule node_inv_step)

subsection \<open>Lemmas: the order of the states\<close>

abbreviation node_state :: "storeNode \<Rightarrow> State" where
  "node_state n \<equiv> co_State (sn_info n)"

lemma message_state:
  "node_state (complete_with_message n t s) = StateCompleted
   \<and> same_container (sn_info n) (sn_info (complete_with_message n t s))"
  by (simp add: complete_with_message_def node_simps)

lemma trace_state:
  "(node_state (complete_with_trace n t evs) = StateCompleted
    \<or> sn_info (complete_with_trace n t evs) = sn_info n)
   \<and> same_container (sn_info n) (sn_info (complete_with_trace n t evs))"
proof (induction n t evs rule: complete_with_trace.induct)
  case (4 n t name err events)
  let ?m = "complete_with_message n t (if name \<noteq> ''runner'' then name @ '' exited: '' @ err else err)"
  from 4 message_state [of n t "if name \<noteq> ''runner'' then name @ '' exited: '' @ err else err"]
  show ?case unfolding complete_with_trace.simps same_container_def by metis
qed (simp_all add: same_container_simps)

lemma exit_state:
  "(node_state (run_exit n t err) = StateCompleted \<or> node_state (run_exit n t err) = node_state n)
   \<and> same_container (sn_info n) (sn_info (run_exit n t err))"
proof -
  let ?m = "n\<lparr>sn_process := ProcExited\<rparr>"
  have "(node_state (completeWithError ?m t err) = StateCompleted
      \<or> node_state (completeWithError ?m t err) = node_state n)
    \<and> same_container (sn_info n) (sn_info (completeWithError ?m t err))"
    using trace_state [of ?m t] message_state [of ?m t] by (cases err) (auto, metis)
  then show ?thesis by (auto simp: run_exit_def node_simps split: node_process.splits)
qed

lemma stop_state:
  "(node_state (node_stop n t) = StateCompleted \<or> node_state (node_stop n t) = node_state n)
   \<and> same_container (sn_info n) (sn_info (node_stop n t))"
  by (simp add: node_stop_def Let_def node_simps)

lemma Destroy_locked_info:
  "sn_info (fst (Destroy_locked env n t err)) = sn_info (run_exit (node_stop n t) t err)"
  by (simp add: Destroy_locked_def destroyContainer_def Let_def node_simps
      split: option.splits garden_error.splits)

definition forward :: "storeNode \<Rightarrow> storeNode \<Rightarrow> bool" where
  "forward n n' \<longleftrightarrow> same_container (sn_info n) (sn_info n')
     \<and> state_rank (node_state n) \<le> state_rank (node_state n')"

lemma forwardI:
  "same_container (sn_info n) (sn_info n') \<Longrightarrow>
   node_state n' = StateCompleted \<or> node_state n' = node_state n \<Longrightarrow> forward n n'"
  by (auto simp: forward_def)

lemma forward_initialize: "forward n (fst (node_Initialize n req))"
proof (cases "TransitionToInitialize (sn_info n) req")
  case (Inr info)
  from TransitionToInitialize_Inr [OF this] Inr show ?thesis
    by (simp add: node_Initialize_def forward_def same_container_def)
qed (simp add: node_Initialize_def forward_def node_simps)

lemma forward_create: "forward n (fst (node_Create cfg env n t now))"
proof (cases "node_state n = StateInitializing")
  case True
  from node_Create_outcome [OF this, of t cfg env now] True show ?thesis
    by (auto simp: create_outcome_def Let_def forward_def split: if_splits)
qed (simp add: node_Create_invalid forward_def node_simps)

lemma forward_destroy: "forward n (fst (Destroy_locked env n t err))"
proof (rule forwardI)
  have "same_container (sn_info n) (sn_info (run_exit (node_stop n t) t err))"
    using stop_state [of n t] exit_state [of "node_stop n t" t err] by (simp add: same_container_def)
  then show "same_container (sn_info n) (sn_info (fst (Destroy_locked env n t err)))"
    by (simp add: Destroy_locked_info)
  show "node_state (fst (Destroy_locked env n t err)) = StateCompleted
      \<or> node_state (fst (Destroy_locked env n t err)) = node_state n"
    unfolding Destroy_locked_info using stop_state [of n t] exit_state [of "node_stop n t" t err]
    by metis
qed

lemma forward_step:
  assumes "node_step cfg n n'" and "\<And>t. n' \<noteq> run_ready n t"
  shows "forward n n'"
  using assms(1)
proof cases
  case (run env)
  then show ?thesis
    by (auto simp: node_Run_def Let_def node_simps split: sum.splits intro!: forwardI)
next
  case (readiness t b)
  then show ?thesis
    by (auto simp: run_readiness_def Let_def node_simps same_container_def intro!: forwardI)
next
  case (exit t err)
  with exit_state [of n t err] show ?thesis by (intro forwardI) auto
next
  case (update env req e)
  with node_Update_fields [OF update] show ?thesis by (intro forwardI) (auto simp: node_simps)
next
  case (stop t)
  with stop_state [of n t] show ?thesis
    by (intro forwardI) (auto simp: node_Stop_def node_simps)
next
  case destroy_enter
  then show ?thesis by (auto simp: Destroy_enter_def node_simps split: if_splits intro!: forwardI)
next
  case (expire t now)
  then show ?thesis by (auto simp: Expire_def Let_def node_simps intro!: forwardI)
next
  case (reap t)
  then show ?thesis by (auto simp: Reap_def node_simps intro!: forwardI)
next
  case certs
  then show ?thesis by (auto simp: node_simps intro!: forwardI)
qed (use assms(2) in \<open>simp_all add: forward_initialize forward_create forward_destroy\<close>)

lemma step_same_container:
  assumes "node_step cfg n n'"
  shows "same_container (sn_info n) (sn_info n')"
proof (cases "\<exists>t. n' = run_ready n t")
  case True
  then show ?thesis
    by (cases "sn_process n") (auto simp: run_ready_def Let_def node_simps same_container_def)
next
  case False
  with forward_step [OF assms] show ?thesis by (simp add: forward_def)
qed

end
