(* ===== verification/Executor_Lifecycle.thy ===== *)
theory Executor_Lifecycle
  imports Executor_Node
begin

section \<open>Properties of a container's lifecycle\<close>

text \<open>
  What the state machine of \<open>Executor_Node\<close> guarantees: the invariant of every reachable node,
  the order of the states, the outcomes of \<open>Create\<close>, what \<open>Destroy\<close> gives back, and the three
  places where the code does less than it means to. The witnesses run a node whose
  collaborators all succeed (\<open>calm_env\<close>) through its life.
\<close>

subsection \<open>A node to run\<close>

definition life_config :: node_config where
  "life_config = \<lparr>nc_OwnerName = ''executor'', nc_INodeLimit = 1000, nc_MaxCPUShares = 1024,
     nc_SetCPUWeight = False, nc_ReservedExpirationTime = 60, nc_hostTrustedCertificatesPath = [],
     nc_declarativeHealthcheckPath = ''/hc'', nc_enableUnproxiedPortMappings = False,
     nc_advertisePreferenceForInstanceAddress = False, nc_injectWorkloadIdentity = False\<rparr>"

definition calm_env :: node_env where
  "calm_env = \<lparr>
     ne_DownloadCachedDependencies = (\<lambda>deps. ([], map (\<lambda>d. (cd_CacheKey d, cd_To d)) deps, None)),
     ne_Mount = (\<lambda>driver vol guid config. Inr ''/mnt''),
     ne_CreateCredDir = (\<lambda>c. Inr ([], [])), ne_CreateFilesDir = (\<lambda>c. Inr []),
     ne_ParseIP = (\<lambda>s. None), ne_ParseCIDR = (\<lambda>s. Inl ''bad''),
     ne_ProxyPorts = ProxyPorts, ne_RootFSSizeFromPath = (\<lambda>p. 0),
     ne_jsonMarshaller = (\<lambda>l. Inr ''log''), ne_GardenCreate = (\<lambda>spec. None),
     ne_GardenInfo = (\<lambda>h. Inr \<lparr>ci_ExternalIP = ''1'', ci_ContainerIP = ''2'', ci_ContainerIPv6 = [],
                              ci_MappedPorts = []\<rparr>),
     ne_GardenDestroy = (\<lambda>h. None), ne_ReleaseCachedDependencies = (\<lambda>k. None),
     ne_StepsRunner = (\<lambda>c. Inr True), ne_SetProperty = (\<lambda>g k v. None)\<rparr>"

definition life_dependency :: CachedDependency where
  "life_dependency = \<lparr>cd_Name = ''d'', cd_From = ''f'', cd_To = ''t'', cd_CacheKey = ''k'',
     cd_LogSource = [], cd_ChecksumValue = [], cd_ChecksumAlgorithm = []\<rparr>"

definition life_volume :: VolumeMount where
  "life_volume = \<lparr>vm_Driver = ''nfs'', vm_VolumeId = ''v'', vm_Config = None,
     vm_ContainerPath = ''/data'', vm_Mode = 0\<rparr>"

definition life_run :: RunRequest where
  "life_run = \<lparr>rq_Guid = ''c'', rq_RunInfo = empty_RunInfo
     \<lparr>ri_CachedDependencies := [life_dependency], ri_VolumeMounts := [life_volume]\<rparr>,
     rq_Tags = None\<rparr>"

definition life_reserved :: storeNode where
  "life_reserved = newStoreNode (NewReservedContainerFromAllocationRequest
     (NewAllocationRequest ''c'' (NewExecResource 1 1 1) False None) 0) False"

definition life_initialized :: storeNode where
  "life_initialized = fst (node_Initialize life_reserved life_run)"

definition life_created :: storeNode where
  "life_created = fst (node_Create life_config calm_env life_initialized [] 0)"

definition life_started :: storeNode where
  "life_started = fst (node_Run calm_env life_created)"

lemmas life_reach =
  node_reach.reserved [of life_config "NewAllocationRequest ''c'' (NewExecResource 1 1 1) False None" 0
    False, folded life_reserved_def]

lemma life_initialized_reach: "node_reach life_config life_initialized"
  unfolding life_initialized_def by (rule node_reach.step [OF life_reach node_step.initialize])

lemma life_created_reach: "node_reach life_config life_created"
  unfolding life_created_def by (rule node_reach.step [OF life_initialized_reach node_step.create])

lemma life_started_reach: "node_reach life_config life_started"
  unfolding life_started_def by (rule node_reach.step [OF life_created_reach node_step.run])

lemma life_initialized_facts:
  "node_state life_initialized = StateInitializing" "co_Guid (sn_info life_initialized) = ''c''"
  "sn_calls life_initialized = []" "sn_bindMountCacheKeys life_initialized = []"
  "sn_destroying life_initialized = False" "sn_process life_initialized = NoProcess"
  "sn_regenerateCerts life_initialized = 0"
  "co_RunInfo (sn_info life_initialized) = rq_RunInfo life_run"
  by (simp_all add: life_initialized_def node_Initialize_def life_reserved_def newStoreNode_def
      NewReservedContainerFromAllocationRequest_def NewContainerFromResource_def
      NewAllocationRequest_def TransitionToInitialize_def ValidateTransitionTo_def life_run_def)

lemma life_create_succeeds: "snd (node_Create life_config calm_env life_initialized [] 0) = None"
  by code_simp

lemma life_created_facts:
  "node_state life_created = StateCreated" "sn_destroying life_created = False"
  using node_Create_outcome [OF life_initialized_facts(1), of "[]" life_config calm_env 0]
  by (simp_all add: create_outcome_def life_create_succeeds life_created_def life_initialized_facts Let_def)

lemma life_started_facts:
  "sn_process life_started = ProcStarting True" "node_state life_started = StateCreated"
  by (simp_all add: life_started_def node_Run_def Let_def life_created_facts calm_env_def node_simps)

lemmas life_states = life_initialized_facts life_created_facts life_started_facts

subsection \<open>The invariant and the order of the states\<close>



text \<open>
  C27. No step of a node changes its guid or its resources, and every step other than the process
  becoming ready keeps the state or moves it forward in the order reserved, initializing,
  created, running, completed.
\<close>

theorem node_states_forward:
  assumes "node_step cfg n n'"
  shows "co_Guid (sn_info n') = co_Guid (sn_info n) \<and> co_Resource (sn_info n') = co_Resource (sn_info n)
    \<and> (state_rank (node_state n) \<le> state_rank (node_state n') \<or> (\<exists>t. n' = run_ready n t))"
  using step_same_container [OF assms] forward_step [OF assms]
  by (auto simp: forward_def same_container_def)

theorem node_states_forward_witness:
  "node_step life_config life_initialized life_created
   \<and> co_Guid (sn_info life_created) = co_Guid (sn_info life_initialized)"
proof -
  have "node_step life_config life_initialized life_created"
    unfolding life_created_def by (rule node_step.create)
  with node_states_forward [OF this] show ?thesis by simp
qed

text \<open>
  The process becoming ready does not check the state: a reachable node whose container has been
  reaped and announced as completed is put back to running, a transition that
  \<open>ValidateTransitionTo\<close> refuses.
\<close>

theorem run_ready_revives_completed:
  "\<exists>n. node_reach life_config n \<and> node_state n = StateCompleted \<and> emitted_complete n
     \<and> \<not> ValidateTransitionTo (sn_info n) StateRunning
     \<and> node_state (run_ready n traceID) = StateRunning"
proof -
  let ?n = "fst (Reap life_started [])"
  have reach: "node_reach life_config ?n"
    by (rule node_reach.step [OF life_started_reach node_step.reap])
  have reaped: "?n = node_complete (ask [CredDirRemoved (co_Guid (sn_info life_started))] life_started)
      [] True ContainerMissingMessage False"
    by (simp add: Reap_def IsCreated_def life_states)
  have "node_state ?n = StateCompleted" by (simp add: reaped node_simps)
  moreover have "emitted_complete ?n" by (simp add: reaped)
  moreover have "\<not> ValidateTransitionTo (sn_info ?n) StateRunning"
    by (simp add: reaped node_simps ValidateTransitionTo_def)
  moreover have "sn_process ?n = ProcStarting True" by (simp add: reaped node_simps life_states)
  then have "node_state (run_ready ?n traceID) = StateRunning"
    by (simp add: run_ready_def Let_def node_simps)
  ultimately show ?thesis using reach by blast
qed

subsection \<open>Create\<close>

text \<open>
  C29. \<open>Create\<close> on an initializing container ends in one of two ways. Without an error the container
  exists in garden under its guid and is created; with an error, whichever collaborator it came
  from, the container is completed as a failure that may be retried, and the last thing the node
  does is to announce that.
\<close>

theorem Create_created_or_completed:
  assumes "node_state n = StateInitializing"
    and "node_Create cfg env n traceID now = (n', err)"
  shows "if err = None
    then node_state n' = StateCreated \<and> sn_gardenContainer n' = Some (co_Guid (sn_info n))
       \<and> (\<exists>spec. GardenCreated spec \<in> set (sn_calls n') \<and> gs_Handle spec = co_Guid (sn_info n))
    else node_state n' = StateCompleted \<and> sn_gardenContainer n' = sn_gardenContainer n
       \<and> rr_Failed (co_RunResult (sn_info n')) \<and> rr_Retryable (co_RunResult (sn_info n'))
       \<and> sn_calls n' \<noteq> [] \<and> last (sn_calls n') = Emitted (ContainerCompleteEvent (sn_info n') traceID)"
  using node_Create_outcome [OF assms(1), of traceID cfg env now] assms(2)
  by (auto simp: create_outcome_def Let_def same_container_def split: if_splits)

theorem Create_created_or_completed_witness:
  "node_state life_initialized = StateInitializing
   \<and> node_Create life_config calm_env life_initialized [] 0 = (life_created, None)
   \<and> sn_gardenContainer life_created = Some ''c''"
proof -
  have run: "node_Create life_config calm_env life_initialized [] 0 = (life_created, None)"
    by (simp add: life_created_def life_create_succeeds prod_eq_iff)
  with Create_created_or_completed [OF _ run] run life_states show ?thesis by simp
qed

text \<open>
  When a volume of a container cannot be mounted, the cached dependencies that \<open>Create\<close> has
  downloaded before are never released, not even by a \<open>Destroy\<close> that succeeds: the cache keys
  are stored in the node only when the whole creation succeeds.
\<close>

theorem Create_failure_keeps_dependencies:
  assumes "node_state n = StateInitializing" and "sn_bindMountCacheKeys n = []" and "sn_calls n = []"
    and "sn_process n = NoProcess" and "\<not> sn_destroying n"
    and "ne_DownloadCachedDependencies env (ri_CachedDependencies (co_RunInfo (sn_info n)))
           = (mounts, keys, None)"
    and "ri_VolumeMounts (co_RunInfo (sn_info n)) = v # vs"
    and "\<And>config. ne_Mount env (vm_Driver v) (vm_VolumeId v) (co_Guid (sn_info n)) config = Inl e"
    and "ne_GardenDestroy env' (co_Guid (sn_info n)) = None"
    and "ne_ReleaseCachedDependencies env' [] = None"
    and "node_Create cfg env n traceID now = (n1, err)"
    and "node_Destroy env' n1 traceID exitErr = (n2, err2)"
  shows "err2 = None \<and> Downloaded keys \<in> set (sn_calls n2)
    \<and> filter (\<lambda>c. \<exists>ks. c = Released ks) (sn_calls n2) = [Released []]"
proof -
  have vs: "ri_VolumeMounts (co_RunInfo (with_env c es)) = ri_VolumeMounts (co_RunInfo c)" for c es
    by (simp add: with_env_def)
  have v: "ValidateTransitionTo (Info n) StateCreated"
    using assms(1) by (simp add: ValidateTransitionTo_def Info_def)
  have deps: "ne_DownloadCachedDependencies env (ri_CachedDependencies (co_RunInfo (Info n)))
      = (mounts, keys, None)" using assms(6) by (simp add: Info_def)
  have guid: "co_Guid (Info n) = co_Guid (sn_info n)"
    and vols: "ri_VolumeMounts (co_RunInfo (Info n)) = v # vs"
    using assms(7) by (simp_all add: Info_def)
  obtain m where m: "n1 = node_complete m traceID True (mount_failure_message e) True"
      and mi: "sn_info m = sn_info n" "sn_process m = NoProcess" "sn_destroying m = False"
        "sn_bindMountCacheKeys m = []" "sn_calls m = [Downloaded keys]"
    using assms(2,3,4,5,8,11)
    by (fastforce simp: node_Create_def create_mounts_def fail_create_def Let_def v deps vs guid vols
        node_simps split: if_splits)
  then show ?thesis
    using assms(9,10,12)
    by (auto simp: node_Destroy_def Destroy_enter_def Destroy_locked_def node_stop_def run_exit_def
        destroyContainer_def destroy_cleanup_def umountVolumeMounts_def Info_def set_stopped_def
        Let_def node_simps filter_empty_conv)
qed

definition broken_mount_env :: node_env where
  "broken_mount_env = calm_env\<lparr>ne_Mount := (\<lambda>driver vol guid config. Inl (MountError ''down''))\<rparr>"

theorem Create_failure_keeps_dependencies_witness:
  "(let n1 = fst (node_Create life_config broken_mount_env life_initialized [] 0);
        n2 = fst (node_Destroy calm_env n1 [] NoErr)
    in Downloaded [(''k'', ''t'')] \<in> set (sn_calls n2)
     \<and> filter (\<lambda>c. \<exists>ks. c = Released ks) (sn_calls n2) = [Released []])"
proof -
  let ?r = "node_Create life_config broken_mount_env life_initialized [] 0"
  let ?d = "node_Destroy calm_env (fst ?r) [] NoErr"
  have "ne_DownloadCachedDependencies broken_mount_env
      (ri_CachedDependencies (co_RunInfo (sn_info life_initialized))) = ([], [(''k'', ''t'')], None)"
    and "ri_VolumeMounts (co_RunInfo (sn_info life_initialized)) = [life_volume]"
    by (simp_all add: life_states life_run_def life_dependency_def broken_mount_env_def calm_env_def)
  then show ?thesis
    using Create_failure_keeps_dependencies [of life_initialized broken_mount_env "[]" "[(''k'', ''t'')]"
        life_volume "[]" "MountError ''down''" calm_env life_config "[]" 0 "fst ?r" "snd ?r" NoErr
        "fst ?d" "snd ?d"]
    by (simp add: life_states broken_mount_env_def calm_env_def Let_def)
qed

subsection \<open>Destroy\<close>

lemma message_keeps:
  "co_RunInfo (sn_info (complete_with_message n t s)) = co_RunInfo (sn_info n)
   \<and> sn_bindMountCacheKeys (complete_with_message n t s) = sn_bindMountCacheKeys n"
  by (simp add: complete_with_message_def node_simps)

lemma trace_keeps:
  "co_RunInfo (sn_info (complete_with_trace n t evs)) = co_RunInfo (sn_info n)
   \<and> sn_bindMountCacheKeys (complete_with_trace n t evs) = sn_bindMountCacheKeys n"
  by (induction n t evs rule: complete_with_trace.induct) (simp_all add: message_keeps)

lemma exit_keeps:
  "co_RunInfo (sn_info (run_exit n t err)) = co_RunInfo (sn_info n)
   \<and> sn_bindMountCacheKeys (run_exit n t err) = sn_bindMountCacheKeys n"
  by (cases err) (auto simp: run_exit_def trace_keeps message_keeps split: node_process.splits)

lemma stop_keeps:
  "co_RunInfo (sn_info (node_stop n t)) = co_RunInfo (sn_info n)
   \<and> sn_bindMountCacheKeys (node_stop n t) = sn_bindMountCacheKeys n"
  by (simp add: node_stop_def Let_def node_simps set_stopped_def)

text \<open>
  \<open>Destroy\<close> gives back what a container holds, even when garden fails to destroy it: it unmounts
  every volume and removes the credential and file directories; and unless garden fails it
  releases exactly the cached dependencies that the node has stored.
\<close>

theorem Destroy_gives_back:
  assumes "\<not> sn_destroying n" and "node_Destroy env n traceID exitErr = (n', err)"
  shows "GardenDestroyed (co_Guid (sn_info n)) \<in> set (sn_calls n')
    \<and> set (umountVolumeMounts (sn_info n)) \<subseteq> set (sn_calls n')
    \<and> CredDirRemoved (co_Guid (sn_info n)) \<in> set (sn_calls n')
    \<and> FilesDirRemoved (co_Guid (sn_info n)) \<in> set (sn_calls n')
    \<and> (Released (sn_bindMountCacheKeys n) \<in> set (sn_calls n') \<or>
         (\<exists>e. ne_GardenDestroy env (co_Guid (sn_info n)) = Some (GardenError e) \<and> err = Some (ErrMessage e)))
    \<and> \<not> sn_destroying n'"
proof -
  let ?n = "n\<lparr>sn_destroying := True\<rparr>"
  define m where "m = run_exit (node_stop ?n traceID) traceID exitErr"
  have guid: "co_Guid (sn_info m) = co_Guid (sn_info n)"
    using stop_state [of ?n traceID] exit_state [of "node_stop ?n traceID" traceID exitErr]
    by (simp add: m_def same_container_def)
  have keep: "co_RunInfo (sn_info m) = co_RunInfo (sn_info n)"
      "sn_bindMountCacheKeys m = sn_bindMountCacheKeys n"
    using stop_keeps [of ?n traceID] exit_keeps [of "node_stop ?n traceID" traceID exitErr]
    by (simp_all add: m_def)
  have "node_Destroy env n traceID exitErr = Destroy_locked env ?n traceID exitErr"
    using assms(1) by (simp add: node_Destroy_def Destroy_enter_def)
  then have "Destroy_locked env ?n traceID exitErr = (n', err)" using assms(2) by simp
  then show ?thesis
    unfolding Destroy_locked_def Let_def m_def [symmetric]
    by (auto simp: destroyContainer_def Let_def node_simps destroy_cleanup_def umountVolumeMounts_def
        Info_def guid keep split: option.splits garden_error.splits)
qed

theorem Destroy_gives_back_witness:
  "\<not> sn_destroying life_created
   \<and> Unmounted ''nfs'' ''v'' ''c'' \<in> set (sn_calls (fst (node_Destroy calm_env life_initialized [] NoErr)))"
proof -
  let ?d = "node_Destroy calm_env life_initialized [] NoErr"
  have "set (umountVolumeMounts (sn_info life_initialized)) \<subseteq> set (sn_calls (fst ?d))"
    using Destroy_gives_back [of life_initialized calm_env "[]" NoErr "fst ?d" "snd ?d"] life_states by simp
  then show ?thesis
    by (simp add: umountVolumeMounts_def life_states life_run_def life_volume_def)
qed

subsection \<open>Update\<close>

text \<open>
  An update with internal routes puts a message into a channel of capacity one that only the
  process of the container empties. A second such update before that blocks, with the lock of
  the node held; on a container that has not been run, nothing empties the channel.
\<close>

theorem Update_blocks_when_full:
  assumes "ur_InternalRoutes req = Some routes" and "ur_InternalRoutes req' = Some routes'"
    and "ur_MetricTags req' = None"
    and "node_Update env n req = Some (n', None)"
  shows "node_Update env' n' req' = None"
proof -
  let ?m = "n\<lparr>sn_info := update_info req (sn_info n)\<rparr>"
  from assms(1,4) obtain j where
    j: "update_tags env (?m\<lparr>sn_regenerateCerts := sn_regenerateCerts n + 1\<rparr>) req j = (n', None)"
    by (auto simp: node_Update_def Let_def split: sum.splits if_splits)
  then have "sn_regenerateCerts n' = sn_regenerateCerts n + 1"
    using update_tags_fields [of env "?m\<lparr>sn_regenerateCerts := sn_regenerateCerts n + 1\<rparr>" req j] by simp
  with assms(2,3) show ?thesis by (simp add: node_Update_def Let_def)
qed

theorem Update_blocks_when_full_witness:
  "(let req = NewUpdateRequest ''c'' (Some [''a.internal'']) None
    in case node_Update calm_env life_initialized req of
         Some (n', None) \<Rightarrow> node_Update calm_env n' req = None
       | _ \<Rightarrow> False)"
proof -
  let ?req = "NewUpdateRequest ''c'' (Some [''a.internal'']) None"
  obtain n' where n': "node_Update calm_env life_initialized ?req = Some (n', None)"
    by (simp add: node_Update_def NewUpdateRequest_def update_tags_def life_states Let_def)
  then show ?thesis
    using Update_blocks_when_full [OF _ _ _ n', of "[''a.internal'']" ?req "[''a.internal'']" calm_env]
    by (simp add: NewUpdateRequest_def)
qed

end
