(* ===== verification/Executor_Store.thy ===== *)
theory Executor_Store
  imports Executor_Lifecycle
begin

section \<open>The container store and the client of the executor (containerstore, depot.go)\<close>

text \<open>
  The map of nodes with its bookkeeping of resources (\<open>nodemap.go\<close>), the store
  (\<open>containerstore.go\<close>), the sweeps (\<open>containerreaper.go\<close>, \<open>registrypruner.go\<close>) and the client the
  rep calls (\<open>depot.go\<close>). The client's work pools run submitted work later: \<open>RunContainer\<close> puts
  its worker into \<open>cl_pending\<close>, and a step of the client takes it out. \<open>DeleteContainer\<close> waits for
  its worker, so it is one step. \<open>garden.BulkMetrics\<close> and the free disk space are arguments.
\<close>

subsection \<open>The map of nodes\<close>

record nodeMap =
  nm_nodes :: "(string \<times> storeNode) list"
  nm_remainingResources :: ExecutorResources

definition newNodeMap :: "ExecutorResources \<Rightarrow> nodeMap" where
  "newNodeMap totalCapacity = \<lparr>nm_nodes = [], nm_remainingResources = totalCapacity\<rparr>"

definition nodeMap_Contains :: "nodeMap \<Rightarrow> string \<Rightarrow> bool" where
  "nodeMap_Contains m guid \<longleftrightarrow> map_of (nm_nodes m) guid \<noteq> None"

definition nodeMap_Add :: "nodeMap \<Rightarrow> storeNode \<Rightarrow> exec_error + nodeMap" where
  "nodeMap_Add m node =
     (let info = Info node
      in if nodeMap_Contains m (co_Guid info) then Inl ErrContainerGuidNotAvailable
         else case ExecutorResources_Subtract (nm_remainingResources m) (co_Resource info) of
             None \<Rightarrow> Inl ErrInsufficientResourcesAvailable
           | Some remaining \<Rightarrow>
               Inr (m\<lparr>nm_nodes := AList.update (co_Guid info) node (nm_nodes m),
                      nm_remainingResources := remaining\<rparr>))"

definition nodeMap_Remove :: "nodeMap \<Rightarrow> string \<Rightarrow> nodeMap" where
  "nodeMap_Remove m guid =
     (case map_of (nm_nodes m) guid of
        None \<Rightarrow> m
      | Some node \<Rightarrow>
          m\<lparr>nm_remainingResources :=
              ExecutorResources_Add (nm_remainingResources m) (co_Resource (Info node)),
            nm_nodes := AList.delete (co_Guid (Info node)) (nm_nodes m)\<rparr>)"

definition nodeMap_Get :: "nodeMap \<Rightarrow> string \<Rightarrow> exec_error + storeNode" where
  "nodeMap_Get m guid =
     (case map_of (nm_nodes m) guid of None \<Rightarrow> Inl ErrContainerNotFound | Some n \<Rightarrow> Inr n)"

definition nodeMap_List :: "nodeMap \<Rightarrow> storeNode list" where
  "nodeMap_List m = map snd (nm_nodes m)"

text \<open>An operation on the node that the map holds under a guid.\<close>

definition put_node :: "string \<Rightarrow> storeNode \<Rightarrow> nodeMap \<Rightarrow> nodeMap" where
  "put_node guid n m = m\<lparr>nm_nodes := AList.update guid n (nm_nodes m)\<rparr>"

definition CompleteExpired :: "node_config \<Rightarrow> nodeMap \<Rightarrow> string \<Rightarrow> int \<Rightarrow> nodeMap" where
  "CompleteExpired cfg m traceID now =
     m\<lparr>nm_nodes := map (\<lambda>(g, n). (g, fst (Expire cfg n traceID now))) (nm_nodes m)\<rparr>"

definition CompleteMissing :: "nodeMap \<Rightarrow> string \<Rightarrow> string list \<Rightarrow> string list \<Rightarrow> nodeMap" where
  "CompleteMissing m traceID snapshotGuids existingHandles =
     m\<lparr>nm_nodes := map (\<lambda>(g, n).
         (g, if g \<in> set snapshotGuids \<and> g \<notin> set existingHandles then fst (Reap n traceID) else n))
       (nm_nodes m)\<rparr>"

definition containerGuids :: "nodeMap \<Rightarrow> string list" where
  "containerGuids m = map fst (nm_nodes m)"

subsection \<open>The store\<close>

record containerStore =
  cs_config :: node_config
  cs_containers :: nodeMap
  cs_emitted :: "exec_event list"

definition Reserve ::
  "containerStore \<Rightarrow> string \<Rightarrow> AllocationRequest \<Rightarrow> int \<Rightarrow> containerStore \<times> (exec_error + Container)" where
  "Reserve cs traceID req now =
     (let container = NewReservedContainerFromAllocationRequest req now
      in case nodeMap_Add (cs_containers cs) (newStoreNode container (ar_GenerateLogMetrics req)) of
          Inl e \<Rightarrow> (cs, Inl e)
        | Inr m \<Rightarrow>
            (cs\<lparr>cs_containers := m,
                cs_emitted := cs_emitted cs @ [ContainerReservedEvent container traceID]\<rparr>,
             Inr container))"

text \<open>
  The operations that look up a node and call its method have one shape: the error of the
  lookup, or the node's new state and its error.
\<close>

definition on_node ::
  "containerStore \<Rightarrow> string \<Rightarrow> (storeNode \<Rightarrow> storeNode \<times> exec_error option)
   \<Rightarrow> containerStore \<times> exec_error option" where
  "on_node cs guid f =
     (case nodeMap_Get (cs_containers cs) guid of
        Inl e \<Rightarrow> (cs, Some e)
      | Inr node \<Rightarrow>
          (let (node', err) = f node
           in (cs\<lparr>cs_containers := put_node guid node' (cs_containers cs)\<rparr>, err)))"

definition store_Initialize :: "containerStore \<Rightarrow> RunRequest \<Rightarrow> containerStore \<times> exec_error option" where
  "store_Initialize cs req = on_node cs (rq_Guid req) (\<lambda>n. node_Initialize n req)"

definition store_Create ::
  "node_env \<Rightarrow> containerStore \<Rightarrow> string \<Rightarrow> string \<Rightarrow> int \<Rightarrow> containerStore \<times> exec_error option" where
  "store_Create env cs traceID guid now =
     on_node cs guid (\<lambda>n. node_Create (cs_config cs) env n traceID now)"

definition store_Run :: "node_env \<Rightarrow> containerStore \<Rightarrow> string \<Rightarrow> containerStore \<times> exec_error option" where
  "store_Run env cs guid = on_node cs guid (node_Run env)"

definition store_Update ::
  "node_env \<Rightarrow> containerStore \<Rightarrow> UpdateRequest \<Rightarrow> (containerStore \<times> exec_error option) option" where
  "store_Update env cs req =
     (case nodeMap_Get (cs_containers cs) (ur_Guid req) of
        Inl e \<Rightarrow> Some (cs, Some e)
      | Inr node \<Rightarrow>
          (case node_Update env node req of
             None \<Rightarrow> None
           | Some (node', err) \<Rightarrow>
               Some (cs\<lparr>cs_containers := put_node (ur_Guid req) node' (cs_containers cs)\<rparr>, err)))"

definition store_Stop :: "containerStore \<Rightarrow> string \<Rightarrow> string \<Rightarrow> containerStore \<times> exec_error option" where
  "store_Stop cs traceID guid = on_node cs guid (\<lambda>n. (node_Stop n traceID, None))"

definition store_Destroy ::
  "node_env \<Rightarrow> containerStore \<Rightarrow> string \<Rightarrow> string \<Rightarrow> run_error \<Rightarrow> containerStore \<times> exec_error option" where
  "store_Destroy env cs traceID guid exitErr =
     (case on_node cs guid (\<lambda>n. node_Destroy env n traceID exitErr) of
        (cs, Some e) \<Rightarrow> (cs, Some e)
      | (cs, None) \<Rightarrow> (cs\<lparr>cs_containers := nodeMap_Remove (cs_containers cs) guid\<rparr>, None))"

definition store_Get :: "containerStore \<Rightarrow> string \<Rightarrow> exec_error + Container" where
  "store_Get cs guid =
     (case nodeMap_Get (cs_containers cs) guid of Inl e \<Rightarrow> Inl e | Inr n \<Rightarrow> Inr (Info n))"

definition store_List :: "containerStore \<Rightarrow> Container list" where
  "store_List cs = map Info (nodeMap_List (cs_containers cs))"

definition store_GetFiles :: "containerStore \<Rightarrow> string \<Rightarrow> (string \<Rightarrow> 'f) \<Rightarrow> exec_error + 'f" where
  "store_GetFiles cs guid streamOut =
     (case nodeMap_Get (cs_containers cs) guid of
        Inl e \<Rightarrow> Inl e
      | Inr n \<Rightarrow> node_GetFiles n streamOut)"

subsection \<open>Metrics\<close>

record garden_metrics =
  gm_MemoryTotalUsageTowardLimit :: int
  gm_DiskTotalBytesUsed :: int
  gm_CPUUsage :: int
  gm_Age :: int
  gm_CPUEntitlement :: int
  gm_NetworkStat :: "(int \<times> int) option"

record ContainerMetrics =
  cm_MemoryUsageInBytes :: int
  cm_DiskUsageInBytes :: int
  cm_MemoryLimitInBytes :: int
  cm_DiskLimitInBytes :: int
  cm_TimeSpentInCPU :: int
  cm_AbsoluteCPUEntitlementInNanoseconds :: int
  cm_ContainerAgeInNanoseconds :: int
  cm_RxInBytes :: "int option"
  cm_TxInBytes :: "int option"

definition container_metrics :: "(string \<Rightarrow> int) \<Rightarrow> Container \<Rightarrow> garden_metrics \<Rightarrow> ContainerMetrics" where
  "container_metrics rootFSSizer info gm =
     (let rootFSSize = rootFSSizer (ri_RootFSPath (co_RunInfo info))
      in \<lparr>cm_MemoryUsageInBytes = gm_MemoryTotalUsageTowardLimit gm,
          cm_DiskUsageInBytes = u64 (gm_DiskTotalBytesUsed gm - rootFSSize),
          cm_MemoryLimitInBytes = co_MemoryLimit info,
          cm_DiskLimitInBytes = u64 (co_DiskLimit info - rootFSSize),
          cm_TimeSpentInCPU = i64 (gm_CPUUsage gm),
          cm_AbsoluteCPUEntitlementInNanoseconds = gm_CPUEntitlement gm,
          cm_ContainerAgeInNanoseconds = u64 (gm_Age gm),
          cm_RxInBytes = map_option fst (gm_NetworkStat gm),
          cm_TxInBytes = map_option snd (gm_NetworkStat gm)\<rparr>)"

text \<open>
  \<open>BulkMetrics\<close> answers an error, or for a handle nothing, an error of its own or metrics; the
  latter two are told apart by the sum type.
\<close>

definition store_Metrics ::
  "(string list \<Rightarrow> string + (string \<times> (string + garden_metrics)) list) \<Rightarrow> (string \<Rightarrow> int)
   \<Rightarrow> containerStore \<Rightarrow> string + (string \<times> ContainerMetrics) list" where
  "store_Metrics bulkMetrics rootFSSizer cs =
     (let infos = filter (\<lambda>i. co_State i = StateRunning \<or> co_State i = StateCreated) (store_List cs)
      in case bulkMetrics (map co_Guid infos) of
          Inl e \<Rightarrow> Inl e
        | Inr entries \<Rightarrow>
            Inr (List.map_filter (\<lambda>i.
              case map_of entries (co_Guid i) of
                Some (Inr gm) \<Rightarrow> Some (co_Guid i, container_metrics rootFSSizer i gm)
              | _ \<Rightarrow> None) infos))"

subsection \<open>The client\<close>

record exec_client =
  cl_totalCapacity :: ExecutorResources
  cl_store :: containerStore
  cl_pending :: "(string \<times> string) list"
  cl_healthy :: bool

definition NewClient :: "ExecutorResources \<Rightarrow> node_config \<Rightarrow> exec_client" where
  "NewClient totalCapacity cfg =
     \<lparr>cl_totalCapacity = totalCapacity,
      cl_store = \<lparr>cs_config = cfg, cs_containers = newNodeMap totalCapacity, cs_emitted = []\<rparr>,
      cl_pending = [], cl_healthy = True\<rparr>"

definition allocate_one ::
  "string \<Rightarrow> int \<Rightarrow> AllocationRequest \<Rightarrow> containerStore \<times> AllocationFailure list
   \<Rightarrow> containerStore \<times> AllocationFailure list" where
  "allocate_one traceID now req = (\<lambda>(cs, failures).
     case AllocationRequest_Validate req of
       Some err \<Rightarrow> (cs, failures @ [NewAllocationFailure req (exec_error_Error err)])
     | None \<Rightarrow>
         (case Reserve cs traceID req now of
            (cs', Inl err) \<Rightarrow> (cs', failures @ [NewAllocationFailure req (exec_error_Error err)])
          | (cs', Inr _) \<Rightarrow> (cs', failures)))"

definition AllocateContainers ::
  "exec_client \<Rightarrow> string \<Rightarrow> int \<Rightarrow> AllocationRequest list \<Rightarrow> exec_client \<times> AllocationFailure list" where
  "AllocateContainers c traceID now requests =
     (let (cs, failures) = fold (allocate_one traceID now) requests (cl_store c, [])
      in (c\<lparr>cl_store := cs\<rparr>, failures))"

definition GetContainer :: "exec_client \<Rightarrow> string \<Rightarrow> exec_error + Container" where
  "GetContainer c guid = store_Get (cl_store c) guid"

definition RunContainer :: "exec_client \<Rightarrow> string \<Rightarrow> RunRequest \<Rightarrow> exec_client \<times> exec_error option" where
  "RunContainer c traceID request =
     (case store_Initialize (cl_store c) request of
        (cs, Some e) \<Rightarrow> (c\<lparr>cl_store := cs\<rparr>, Some e)
      | (cs, None) \<Rightarrow>
          (c\<lparr>cl_store := cs, cl_pending := cl_pending c @ [(traceID, rq_Guid request)]\<rparr>, None))"

definition runContainerWorker ::
  "node_env \<Rightarrow> containerStore \<Rightarrow> string \<Rightarrow> string \<Rightarrow> int \<Rightarrow> containerStore" where
  "runContainerWorker env cs traceID guid now =
     (case store_Create env cs traceID guid now of
        (cs, Some e) \<Rightarrow> cs
      | (cs, None) \<Rightarrow> fst (store_Run env cs guid))"

definition ListContainers :: "exec_client \<Rightarrow> Container list" where
  "ListContainers c = store_List (cl_store c)"

definition GetBulkMetrics ::
  "(string list \<Rightarrow> string + (string \<times> (string + garden_metrics)) list) \<Rightarrow> (string \<Rightarrow> int)
   \<Rightarrow> exec_client \<Rightarrow> (string \<times> MetricsConfig \<times> ContainerMetrics) list \<times> string option" where
  "GetBulkMetrics bulkMetrics rootFSSizer c =
     (case store_Metrics bulkMetrics rootFSSizer (cl_store c) of
        Inl e \<Rightarrow> ([], Some e)
      | Inr cmetrics \<Rightarrow>
          (List.map_filter (\<lambda>i.
             map_option (\<lambda>m. (co_Guid i, ri_MetricsConfig (co_RunInfo i), m)) (map_of cmetrics (co_Guid i)))
             (store_List (cl_store c)), None))"

definition UpdateContainer ::
  "node_env \<Rightarrow> exec_client \<Rightarrow> UpdateRequest \<Rightarrow> (exec_client \<times> exec_error option) option" where
  "UpdateContainer env c req =
     map_option (\<lambda>(cs, e). (c\<lparr>cl_store := cs\<rparr>, e)) (store_Update env (cl_store c) req)"

definition StopContainer :: "exec_client \<Rightarrow> string \<Rightarrow> string \<Rightarrow> exec_client \<times> exec_error option" where
  "StopContainer c traceID guid =
     (let (cs, e) = store_Stop (cl_store c) traceID guid in (c\<lparr>cl_store := cs\<rparr>, e))"

definition DeleteContainer ::
  "node_env \<Rightarrow> exec_client \<Rightarrow> string \<Rightarrow> string \<Rightarrow> run_error \<Rightarrow> exec_client \<times> exec_error option" where
  "DeleteContainer env c traceID guid exitErr =
     (let (cs, e) = store_Destroy env (cl_store c) traceID guid exitErr
      in (c\<lparr>cl_store := cs\<rparr>, e))"

definition RemainingResources :: "int option \<Rightarrow> exec_client \<Rightarrow> ExecutorResources" where
  "RemainingResources liveDiskMB c =
     (let remaining = nm_remainingResources (cs_containers (cl_store c))
      in case liveDiskMB of
          None \<Rightarrow> remaining
        | Some liveMB \<Rightarrow>
            if liveMB < ex_DiskMB remaining then remaining\<lparr>ex_DiskMB := liveMB\<rparr> else remaining)"

definition AllocatedResources :: "exec_client \<Rightarrow> ExecutorResources" where
  "AllocatedResources c =
     (let remaining = nm_remainingResources (cs_containers (cl_store c))
      in \<lparr>ex_MemoryMB = i64 (ex_MemoryMB (cl_totalCapacity c) - ex_MemoryMB remaining),
          ex_DiskMB = i64 (ex_DiskMB (cl_totalCapacity c) - ex_DiskMB remaining),
          ex_Containers = i64 (ex_Containers (cl_totalCapacity c) - ex_Containers remaining)\<rparr>)"

definition SetHealthy :: "exec_client \<Rightarrow> bool \<Rightarrow> exec_client" where
  "SetHealthy c healthy = c\<lparr>cl_healthy := healthy\<rparr>"

subsection \<open>The sweeps\<close>

definition fetchGardenContainerHandles :: "string + string list \<Rightarrow> string + string list" where
  "fetchGardenContainerHandles gardenContainers =
     (case gardenContainers of Inl e \<Rightarrow> Inl e | Inr handles \<Rightarrow> Inr (remdups handles))"

text \<open>The handles that \<open>reapExtraGardenContainers\<close> asks garden to destroy.\<close>

definition reapExtraGardenContainers :: "string + string list \<Rightarrow> nodeMap \<Rightarrow> string + string list" where
  "reapExtraGardenContainers gardenContainers m =
     (case fetchGardenContainerHandles gardenContainers of
        Inl e \<Rightarrow> Inl e
      | Inr handles \<Rightarrow> Inr (filter (\<lambda>key. \<not> nodeMap_Contains m key) handles))"

text \<open>
  The snapshot of the guids is taken before garden is asked; the map may have changed since,
  so the snapshot is an argument next to the map.
\<close>

definition reapMissingGardenContainers ::
  "string list \<Rightarrow> string + string list \<Rightarrow> nodeMap \<Rightarrow> nodeMap" where
  "reapMissingGardenContainers snapshotGuids gardenContainers m =
     (case fetchGardenContainerHandles gardenContainers of
        Inl e \<Rightarrow> m
      | Inr handles \<Rightarrow> CompleteMissing m [] snapshotGuids handles)"

definition registryPruner_tick :: "node_config \<Rightarrow> nodeMap \<Rightarrow> int \<Rightarrow> nodeMap" where
  "registryPruner_tick cfg m now = CompleteExpired cfg m [] now"

subsection \<open>The invariant of the store\<close>

abbreviation node_resource :: "storeNode \<Rightarrow> ExecResource" where
  "node_resource n \<equiv> co_Resource (sn_info n)"

definition used :: "(ExecResource \<Rightarrow> int) \<Rightarrow> nodeMap \<Rightarrow> int" where
  "used f m = sum_list (map (\<lambda>(g, n). f (node_resource n)) (nm_nodes m))"

definition nodes_ok :: "node_config \<Rightarrow> nodeMap \<Rightarrow> bool" where
  "nodes_ok cfg m \<longleftrightarrow> distinct (map fst (nm_nodes m))
     \<and> list_all (\<lambda>(g, n). co_Guid (sn_info n) = g \<and> resource_nonneg (node_resource n)
                  \<and> node_reach cfg n) (nm_nodes m)"

definition balanced :: "ExecutorResources \<Rightarrow> nodeMap \<Rightarrow> bool" where
  "balanced tot m \<longleftrightarrow>
     (let r = nm_remainingResources m
      in ex_MemoryMB r + used er_MemoryMB m = ex_MemoryMB tot
       \<and> ex_DiskMB r + used er_DiskMB m = ex_DiskMB tot
       \<and> ex_Containers r + int (length (nm_nodes m)) = ex_Containers tot
       \<and> 0 \<le> ex_MemoryMB r \<and> 0 \<le> ex_DiskMB r \<and> 0 \<le> ex_Containers r)"

definition store_inv :: "ExecutorResources \<Rightarrow> node_config \<Rightarrow> nodeMap \<Rightarrow> bool" where
  "store_inv tot cfg m \<longleftrightarrow> resources_typed tot \<and> nodes_ok cfg m \<and> balanced tot m"

lemma used_nonneg:
  assumes "nodes_ok cfg m"
  shows "0 \<le> used er_MemoryMB m" and "0 \<le> used er_DiskMB m"
  using assms
  by (auto simp: nodes_ok_def used_def resource_nonneg_def list_all_iff intro!: sum_list_nonneg)

lemma store_inv_typed:
  assumes "store_inv tot cfg m"
  shows "resources_typed (nm_remainingResources m)"
proof -
  have a: "resources_typed tot" "nodes_ok cfg m" "balanced tot m"
    using assms by (simp_all add: store_inv_def)
  from used_nonneg [OF a(2)] a(1,3) show ?thesis
    by (auto simp: balanced_def resources_typed_def is_i64_def Let_def)
qed

text \<open>An operation of the nodes that the store may perform at any time.\<close>

definition node_moves :: "node_config \<Rightarrow> storeNode \<Rightarrow> storeNode \<Rightarrow> bool" where
  "node_moves cfg n n' \<longleftrightarrow> (node_reach cfg n \<longrightarrow> node_reach cfg n') \<and> same_container (sn_info n) (sn_info n')"

lemma node_moves_step: "node_step cfg n n' \<Longrightarrow> node_moves cfg n n'"
  by (simp add: node_moves_def step_same_container node_reach.step)

lemma node_moves_refl: "node_moves cfg n n"
  by (simp add: node_moves_def node_simps)

lemma node_moves_trans: "node_moves cfg n m \<Longrightarrow> node_moves cfg m k \<Longrightarrow> node_moves cfg n k"
  by (simp add: node_moves_def same_container_def)

lemma node_moves_destroy: "node_moves cfg n (fst (node_Destroy env n t err))"
proof (cases "sn_destroying n")
  case True
  then show ?thesis by (simp add: node_Destroy_def Destroy_enter_def node_moves_refl)
next
  case False
  let ?n = "n\<lparr>sn_destroying := True\<rparr>"
  from False have "Destroy_enter n = Some ?n" by (simp add: Destroy_enter_def)
  then have "node_moves cfg n ?n" by (intro node_moves_step node_step.destroy_enter)
  moreover have "node_moves cfg ?n (fst (Destroy_locked env ?n t err))"
    by (intro node_moves_step node_step.destroy) simp
  moreover have "node_Destroy env n t err = Destroy_locked env ?n t err"
    using False by (simp add: node_Destroy_def Destroy_enter_def)
  ultimately show ?thesis by (simp add: node_moves_trans)
qed

lemma used_put:
  assumes "map_of (nm_nodes m) g = Some n" and "node_resource n' = node_resource n"
  shows "used f (put_node g n' m) = used f m"
  unfolding used_def put_node_def
  using map_update_same [OF assms(1), of "\<lambda>(g, n). f (node_resource n)" n'] assms(2) by simp

lemma length_put:
  assumes "map_of (nm_nodes m) g = Some n"
  shows "length (nm_nodes (put_node g n' m)) = length (nm_nodes m)"
proof -
  have "map fst (AList.update g n' (nm_nodes m)) = map fst (nm_nodes m)"
    by (rule map_update_same [OF assms]) simp
  then have "length (AList.update g n' (nm_nodes m)) = length (nm_nodes m)"
    by (rule map_eq_imp_length_eq)
  then show ?thesis by (simp add: put_node_def)
qed

lemma store_inv_put:
  assumes "store_inv tot cfg m" and "map_of (nm_nodes m) g = Some n" and "node_moves cfg n n'"
  shows "store_inv tot cfg (put_node g n' m)"
proof -
  have mem: "(g, n) \<in> set (nm_nodes m)" using assms(2) by (rule map_of_SomeD)
  have ok: "co_Guid (sn_info n) = g" "resource_nonneg (node_resource n)" "node_reach cfg n"
    using assms(1) mem by (auto simp: store_inv_def nodes_ok_def list_all_iff)
  have same: "node_resource n' = node_resource n" "co_Guid (sn_info n') = g" "node_reach cfg n'"
    using assms(3) ok by (simp_all add: node_moves_def same_container_def)
  have "nodes_ok cfg (put_node g n' m)"
    using assms(1) ok same set_update_subset [of g n' "nm_nodes m"]
    by (auto simp: store_inv_def nodes_ok_def put_node_def list_all_iff)
  moreover have "balanced tot (put_node g n' m)"
    using assms(1) used_put [OF assms(2) same(1)] length_put [OF assms(2)]
    by (simp add: store_inv_def balanced_def Let_def) (simp add: put_node_def)
  ultimately show ?thesis using assms(1) by (simp add: store_inv_def)
qed

lemma store_inv_map:
  assumes "store_inv tot cfg m" and "\<And>g n. node_moves cfg n (f g n)"
  shows "store_inv tot cfg (m\<lparr>nm_nodes := map (\<lambda>(g, n). (g, f g n)) (nm_nodes m)\<rparr>)"
proof -
  let ?m = "m\<lparr>nm_nodes := map (\<lambda>(g, n). (g, f g n)) (nm_nodes m)\<rparr>"
  have same: "node_resource (f g n) = node_resource n" "co_Guid (sn_info (f g n)) = co_Guid (sn_info n)"
      "node_reach cfg n \<Longrightarrow> node_reach cfg (f g n)" for g n
    using assms(2) [of n g] by (simp_all add: node_moves_def same_container_def)
  have "map fst (nm_nodes ?m) = map fst (nm_nodes m)" by (simp add: comp_def split_beta)
  moreover have "used h ?m = used h m" for h by (simp add: used_def comp_def case_prod_unfold same)
  ultimately show ?thesis
    using assms(1)
    by (auto simp: store_inv_def nodes_ok_def balanced_def Let_def list_all_iff same comp_def split_beta)
qed

lemma store_inv_Add:
  assumes inv: "store_inv tot cfg m" and add: "nodeMap_Add m n = Inr m'"
    and n: "resource_nonneg (node_resource n)" "node_reach cfg n"
  shows "store_inv tot cfg m'"
proof -
  let ?g = "co_Guid (sn_info n)"
  from add obtain r where fresh: "map_of (nm_nodes m) ?g = None"
      and r: "ExecutorResources_Subtract (nm_remainingResources m) (node_resource n) = Some r"
      and m': "m' = m\<lparr>nm_nodes := nm_nodes m @ [(?g, n)], nm_remainingResources := r\<rparr>"
    by (auto simp: nodeMap_Add_def nodeMap_Contains_def Info_def Let_def update_None
        split: if_splits option.splits)
  note sub = Subtract_Some [OF r store_inv_typed [OF inv] n(1)]
  have "nodes_ok cfg m'"
    using inv n fresh by (auto simp: store_inv_def nodes_ok_def m' map_of_eq_None_iff image_iff)
  moreover have "balanced tot m'"
    using inv sub by (auto simp: store_inv_def balanced_def Let_def m' used_def)
  ultimately show ?thesis using inv by (simp add: store_inv_def)
qed

lemma store_inv_Remove:
  assumes inv: "store_inv tot cfg m"
  shows "store_inv tot cfg (nodeMap_Remove m g)"
proof (cases "map_of (nm_nodes m) g")
  case None
  with inv show ?thesis by (simp add: nodeMap_Remove_def)
next
  case (Some n)
  let ?m = "nodeMap_Remove m g"
  have mem: "(g, n) \<in> set (nm_nodes m)" using Some by (rule map_of_SomeD)
  have ok: "co_Guid (sn_info n) = g" "resource_nonneg (node_resource n)"
    and dist: "distinct (map fst (nm_nodes m))" and nodes: "nodes_ok cfg m"
    using inv mem by (auto simp: store_inv_def nodes_ok_def list_all_iff)
  have m: "?m = m\<lparr>nm_remainingResources := ExecutorResources_Add (nm_remainingResources m) (node_resource n),
                 nm_nodes := AList.delete g (nm_nodes m)\<rparr>"
    using Some ok by (simp add: nodeMap_Remove_def Info_def)
  have nodes': "nodes_ok cfg ?m"
    using nodes by (auto simp: nodes_ok_def m list_all_iff AList.delete_eq distinct_map_filter)
  have used: "used f m = f (node_resource n) + used f ?m" for f
    using sum_list_delete [OF dist Some, of "\<lambda>(g, n). f (node_resource n)"] by (simp add: used_def m)
  have len: "length (nm_nodes m) = Suc (length (nm_nodes ?m))"
    using length_delete_Some [OF dist Some] by (simp add: m)
  have i64s: "is_i64 (ex_MemoryMB (nm_remainingResources m) + er_MemoryMB (node_resource n))"
      "is_i64 (ex_DiskMB (nm_remainingResources m) + er_DiskMB (node_resource n))"
      "is_i64 (ex_Containers (nm_remainingResources m) + 1)"
    using inv used [of er_MemoryMB] used [of er_DiskMB] used_nonneg [OF nodes'] ok(2) len
    by (auto simp: store_inv_def balanced_def Let_def resources_typed_def is_i64_def resource_nonneg_def)
  have "balanced tot ?m"
    using inv used [of er_MemoryMB] used [of er_DiskMB] len ok(2) i64s
    by (auto simp: store_inv_def balanced_def Let_def m ExecutorResources_Add_def wrap_simps
        resource_nonneg_def)
  with nodes' inv show ?thesis by (simp add: store_inv_def)
qed

subsection \<open>The steps of the executor\<close>

definition with_nodes :: "(nodeMap \<Rightarrow> nodeMap) \<Rightarrow> exec_client \<Rightarrow> exec_client" where
  "with_nodes f c = c\<lparr>cl_store := (cl_store c)\<lparr>cs_containers := f (cs_containers (cl_store c))\<rparr>\<rparr>"

abbreviation client_nodes :: "exec_client \<Rightarrow> nodeMap" where
  "client_nodes c \<equiv> cs_containers (cl_store c)"

abbreviation client_config :: "exec_client \<Rightarrow> node_config" where
  "client_config c \<equiv> cs_config (cl_store c)"

inductive exec_step :: "exec_client \<Rightarrow> exec_client \<Rightarrow> bool" where
  allocate: "list_all (\<lambda>r. resource_nonneg (ar_Resource r)) requests \<Longrightarrow>
     exec_step c (fst (AllocateContainers c traceID now requests))"
| run: "exec_step c (fst (RunContainer c traceID req))"
| worker: "cl_pending c = pre @ (traceID, guid) # post \<Longrightarrow>
     exec_step c (c\<lparr>cl_store := runContainerWorker env (cl_store c) traceID guid now,
                   cl_pending := pre @ post\<rparr>)"
| update: "UpdateContainer env c req = Some (c', e) \<Longrightarrow> exec_step c c'"
| stop: "exec_step c (fst (StopContainer c traceID guid))"
| delete: "exec_step c (fst (DeleteContainer env c traceID guid exitErr))"
| node: "map_of (nm_nodes (client_nodes c)) guid = Some n \<Longrightarrow> node_step (client_config c) n n' \<Longrightarrow>
     exec_step c (with_nodes (put_node guid n') c)"
| prune: "exec_step c (with_nodes (\<lambda>m. registryPruner_tick (client_config c) m now) c)"
| reap: "exec_step c (with_nodes (reapMissingGardenContainers snapshotGuids gardenContainers) c)"
| healthy: "exec_step c (SetHealthy c b)"

inductive exec_reach :: "ExecutorResources \<Rightarrow> node_config \<Rightarrow> exec_client \<Rightarrow> bool" for tot cfg where
  started: "exec_reach tot cfg (NewClient tot cfg)"
| step: "exec_reach tot cfg c \<Longrightarrow> exec_step c c' \<Longrightarrow> exec_reach tot cfg c'"

text \<open>
  What the client promises: an allocation is a partial function from guids to resources that
  never exceeds the capacity of the cell. A step reserves a fresh guid when its resources fit,
  or releases one.
\<close>

type_synonym allocation = "string \<rightharpoonup> ExecResource"

definition allocated :: "(ExecResource \<Rightarrow> int) \<Rightarrow> allocation \<Rightarrow> int" where
  "allocated f A = (\<Sum>g \<in> dom A. f (the (A g)))"

definition fits_in :: "ExecutorResources \<Rightarrow> allocation \<Rightarrow> ExecResource \<Rightarrow> bool" where
  "fits_in tot A res \<longleftrightarrow>
     allocated er_MemoryMB A + er_MemoryMB res \<le> ex_MemoryMB tot
   \<and> allocated er_DiskMB A + er_DiskMB res \<le> ex_DiskMB tot
   \<and> int (card (dom A)) < ex_Containers tot"

inductive allocation_step :: "ExecutorResources \<Rightarrow> allocation \<Rightarrow> allocation \<Rightarrow> bool" for tot where
  reserve: "A g = None \<Longrightarrow> g \<noteq> [] \<Longrightarrow> resource_nonneg res \<Longrightarrow> fits_in tot A res \<Longrightarrow>
     allocation_step tot A (A(g \<mapsto> res))"
| release: "allocation_step tot A (A(g := None))"

definition abs_nodes :: "nodeMap \<Rightarrow> allocation" where
  "abs_nodes m = map_option node_resource \<circ> map_of (nm_nodes m)"

definition abs_client :: "exec_client \<Rightarrow> allocation" where
  "abs_client c = abs_nodes (client_nodes c)"

subsection \<open>Lemmas: the abstraction\<close>

lemma dom_abs: "dom (abs_nodes m) = fst ` set (nm_nodes m)"
  by (auto simp: abs_nodes_def dom_map_of_conv_image_fst [symmetric] dom_def)

lemma allocated_used:
  assumes "distinct (map fst (nm_nodes m))"
  shows "allocated f (abs_nodes m) = used f m"
proof -
  have "allocated f (abs_nodes m) = (\<Sum>g \<in> fst ` set (nm_nodes m). f (the (abs_nodes m g)))"
    by (simp add: allocated_def dom_abs)
  also have "\<dots> = (\<Sum>e \<in> set (nm_nodes m). f (the (abs_nodes m (fst e))))"
    using assms by (subst sum.reindex) (auto simp: distinct_map)
  also have "\<dots> = (\<Sum>e \<in> set (nm_nodes m). f (node_resource (snd e)))"
    using assms by (intro sum.cong) (auto simp: abs_nodes_def map_of_is_SomeI)
  also have "\<dots> = sum_list (map (\<lambda>e. f (node_resource (snd e))) (nm_nodes m))"
    using assms by (simp add: sum_list_distinct_conv_sum_set distinct_map)
  finally show ?thesis by (simp add: used_def case_prod_unfold)
qed

lemma card_dom_abs: "distinct (map fst (nm_nodes m)) \<Longrightarrow> card (dom (abs_nodes m)) = length (nm_nodes m)"
  by (metis card_image distinct_card distinct_map dom_abs length_map list.set_map)

lemma fits_in_iff:
  assumes "store_inv tot cfg m"
  shows "fits_in tot (abs_nodes m) res \<longleftrightarrow> canSubtract (nm_remainingResources m) res"
proof -
  have "distinct (map fst (nm_nodes m))" and "balanced tot m"
    using assms by (simp_all add: store_inv_def nodes_ok_def)
  then show ?thesis
    by (auto simp: fits_in_def canSubtract_def allocated_used card_dom_abs balanced_def Let_def)
qed

lemma abs_put:
  assumes "map_of (nm_nodes m) g = Some n" and "node_moves cfg n n'"
  shows "abs_nodes (put_node g n' m) = abs_nodes m"
  using assms by (auto simp: abs_nodes_def put_node_def node_moves_def same_container_def fun_eq_iff)

lemma abs_map:
  assumes "\<And>g n. node_moves cfg n (f g n)"
  shows "abs_nodes (m\<lparr>nm_nodes := map (\<lambda>(g, n). (g, f g n)) (nm_nodes m)\<rparr>) = abs_nodes m"
proof -
  have same: "node_resource (f g n) = node_resource n" for g n
    using assms [of n g] by (simp add: node_moves_def same_container_def)
  have "map_option node_resource (map_of (map (\<lambda>(g, n). (g, f g n)) xs) g)
      = map_option node_resource (map_of xs g)" for xs g
    by (induction xs) (auto simp: same)
  then show ?thesis by (simp add: abs_nodes_def fun_eq_iff)
qed

lemma abs_Remove:
  assumes "store_inv tot cfg m"
  shows "abs_nodes (nodeMap_Remove m g) = (abs_nodes m)(g := None)"
proof (cases "map_of (nm_nodes m) g")
  case None
  then show ?thesis by (auto simp: nodeMap_Remove_def abs_nodes_def fun_eq_iff)
next
  case (Some n)
  have "co_Guid (sn_info n) = g"
    using assms map_of_SomeD [OF Some] by (auto simp: store_inv_def nodes_ok_def list_all_iff)
  with Some show ?thesis by (auto simp: nodeMap_Remove_def abs_nodes_def Info_def fun_eq_iff)
qed

lemma abs_Add:
  assumes "nodeMap_Add m n = Inr m'"
  shows "abs_nodes m' = (abs_nodes m)(co_Guid (sn_info n) \<mapsto> node_resource n)"
    and "abs_nodes m (co_Guid (sn_info n)) = None"
    and "canSubtract (nm_remainingResources m) (node_resource n)"
  using assms
  by (auto simp: nodeMap_Add_def nodeMap_Contains_def abs_nodes_def Info_def Let_def fun_eq_iff
      ExecutorResources_Subtract_def split: if_splits option.splits)

subsection \<open>Lemmas: every operation moves the store\<close>

definition store_moves :: "ExecutorResources \<Rightarrow> node_config \<Rightarrow> nodeMap \<Rightarrow> nodeMap \<Rightarrow> bool" where
  "store_moves tot cfg m m' \<longleftrightarrow>
     (store_inv tot cfg m \<longrightarrow>
        store_inv tot cfg m' \<and> (allocation_step tot)\<^sup>*\<^sup>* (abs_nodes m) (abs_nodes m'))"

lemma store_moves_refl [simp]: "store_moves tot cfg m m"
  by (simp add: store_moves_def)

lemma store_moves_trans:
  "store_moves tot cfg m m' \<Longrightarrow> store_moves tot cfg m' m'' \<Longrightarrow> store_moves tot cfg m m''"
  by (auto simp: store_moves_def)

lemma store_moves_put:
  assumes "map_of (nm_nodes m) g = Some n" and "node_moves cfg n n'"
  shows "store_moves tot cfg m (put_node g n' m)"
  using store_inv_put [OF _ assms] abs_put [OF assms] by (simp add: store_moves_def)

lemma store_moves_map:
  assumes "\<And>g n. node_moves cfg n (f g n)"
  shows "store_moves tot cfg m (m\<lparr>nm_nodes := map (\<lambda>(g, n). (g, f g n)) (nm_nodes m)\<rparr>)"
  unfolding store_moves_def abs_map [OF assms] using store_inv_map [OF _ assms] by simp

lemma store_moves_Remove: "store_moves tot cfg m (nodeMap_Remove m g)"
proof -
  have "(allocation_step tot)\<^sup>*\<^sup>* A (A(g := None))" for A
    by (rule r_into_rtranclp) (rule allocation_step.release)
  then show ?thesis by (simp add: store_moves_def store_inv_Remove abs_Remove)
qed

lemma on_node_moves:
  assumes "\<And>n. node_moves (cs_config cs) n (fst (f n))"
  shows "store_moves tot (cs_config cs) (cs_containers cs) (cs_containers (fst (on_node cs g f)))"
proof (cases "map_of (nm_nodes (cs_containers cs)) g")
  case None
  then show ?thesis by (simp add: on_node_def nodeMap_Get_def)
next
  case (Some n)
  then show ?thesis
    using store_moves_put [OF Some assms [of n]]
    by (simp add: on_node_def nodeMap_Get_def split_beta Let_def)
qed

lemma on_node_config [simp]: "cs_config (fst (on_node cs g f)) = cs_config cs"
  by (simp add: on_node_def split_beta Let_def split: sum.splits)

lemma Reserve_moves:
  assumes "resource_nonneg (ar_Resource req)" and "ar_Guid req \<noteq> []"
  shows "store_moves tot (cs_config cs) (cs_containers cs) (cs_containers (fst (Reserve cs t req now)))"
proof -
  let ?n = "newStoreNode (NewReservedContainerFromAllocationRequest req now) (ar_GenerateLogMetrics req)"
  have n: "co_Guid (sn_info ?n) = ar_Guid req" "node_resource ?n = ar_Resource req"
    by (simp_all add: newStoreNode_def NewReservedContainerFromAllocationRequest_def
        NewContainerFromResource_def)
  show ?thesis
  proof (cases "nodeMap_Add (cs_containers cs) ?n")
    case (Inl e)
    then show ?thesis by (simp add: Reserve_def Let_def)
  next
    case (Inr m)
    note abs = abs_Add [OF Inr, unfolded n]
    have "store_moves tot (cs_config cs) (cs_containers cs) m"
      unfolding store_moves_def
    proof (intro impI conjI)
      assume inv: "store_inv tot (cs_config cs) (cs_containers cs)"
      show "store_inv tot (cs_config cs) m"
        by (rule store_inv_Add [OF inv Inr]) (use assms n in \<open>auto intro: node_reach.reserved\<close>)
      have "allocation_step tot (abs_nodes (cs_containers cs)) (abs_nodes m)"
        unfolding abs(1)
        by (rule allocation_step.reserve) (use abs assms fits_in_iff [OF inv] in auto)
      then show "(allocation_step tot)\<^sup>*\<^sup>* (abs_nodes (cs_containers cs)) (abs_nodes m)" by simp
    qed
    with Inr show ?thesis by (simp add: Reserve_def Let_def)
  qed
qed

lemma Reserve_config [simp]: "cs_config (fst (Reserve cs t req now)) = cs_config cs"
  by (simp add: Reserve_def Let_def split: sum.splits)

lemma allocate_one_moves:
  assumes "resource_nonneg (ar_Resource req)"
  shows "store_moves tot (cs_config cs) (cs_containers cs)
      (cs_containers (fst (allocate_one t now req (cs, fs))))
    \<and> cs_config (fst (allocate_one t now req (cs, fs))) = cs_config cs"
proof (cases "ar_Guid req = []")
  case True
  then show ?thesis by (simp add: allocate_one_def AllocationRequest_Validate_def)
next
  case False
  obtain cs' r where r: "Reserve cs t req now = (cs', r)" by fastforce
  then show ?thesis
    using Reserve_moves [OF assms False, of tot cs t now] Reserve_config [of cs t req now] False
    by (cases r) (simp_all add: allocate_one_def AllocationRequest_Validate_def)
qed

lemma allocate_moves:
  assumes "list_all (\<lambda>r. resource_nonneg (ar_Resource r)) reqs"
  shows "store_moves tot (cs_config cs) (cs_containers cs)
      (cs_containers (fst (fold (allocate_one t now) reqs (cs, fs))))
    \<and> cs_config (fst (fold (allocate_one t now) reqs (cs, fs))) = cs_config cs"
  using assms
proof (induction reqs arbitrary: cs fs)
  case (Cons r reqs)
  obtain cs1 fs1 where one: "allocate_one t now r (cs, fs) = (cs1, fs1)" by fastforce
  with allocate_one_moves [of r tot cs t now fs] Cons.prems
  have "store_moves tot (cs_config cs) (cs_containers cs) (cs_containers cs1)"
    and "cs_config cs1 = cs_config cs" by simp_all
  with Cons.IH [of cs1 fs1] Cons.prems show ?case by (auto simp: one intro: store_moves_trans)
qed simp

lemma store_Create_moves:
  "store_moves tot (cs_config cs) (cs_containers cs)
     (cs_containers (fst (store_Create env cs t g now)))"
  unfolding store_Create_def by (intro on_node_moves node_moves_step node_step.create)

lemma worker_moves:
  "store_moves tot (cs_config cs) (cs_containers cs)
     (cs_containers (runContainerWorker env cs t g now))
   \<and> cs_config (runContainerWorker env cs t g now) = cs_config cs"
proof -
  obtain cs1 e where c: "store_Create env cs t g now = (cs1, e)" by fastforce
  have m1: "store_moves tot (cs_config cs) (cs_containers cs) (cs_containers cs1)"
    using store_Create_moves [of tot cs env t g now] by (simp add: c)
  have cfg: "cs_config cs1 = cs_config cs"
    using on_node_config [of cs g] c by (metis fst_conv store_Create_def)
  have "store_moves tot (cs_config cs1) (cs_containers cs1) (cs_containers (fst (store_Run env cs1 g)))"
    unfolding store_Run_def by (intro on_node_moves node_moves_step node_step.run)
  with m1 cfg c show ?thesis
    by (auto simp: runContainerWorker_def store_Run_def split: option.splits intro: store_moves_trans)
qed

lemma store_Destroy_moves:
  "store_moves tot (cs_config cs) (cs_containers cs)
     (cs_containers (fst (store_Destroy env cs t g x)))
   \<and> cs_config (fst (store_Destroy env cs t g x)) = cs_config cs"
proof -
  let ?f = "\<lambda>n. node_Destroy env n t x"
  have m: "store_moves tot (cs_config cs) (cs_containers cs) (cs_containers (fst (on_node cs g ?f)))"
    by (intro on_node_moves node_moves_destroy)
  obtain cs1 e where o: "on_node cs g ?f = (cs1, e)" by fastforce
  then have "cs_config cs1 = cs_config cs" using on_node_config [of cs g ?f] by simp
  with m o show ?thesis
    by (auto simp: store_Destroy_def split: option.splits
        intro: store_moves_trans store_moves_Remove)
qed

lemma store_Update_moves:
  assumes "store_Update env cs req = Some (cs', e)"
  shows "store_moves tot (cs_config cs) (cs_containers cs) (cs_containers cs')
    \<and> cs_config cs' = cs_config cs"
proof (cases "map_of (nm_nodes (cs_containers cs)) (ur_Guid req)")
  case None
  with assms show ?thesis by (simp add: store_Update_def nodeMap_Get_def)
next
  case (Some n)
  with assms obtain n' where u: "node_Update env n req = Some (n', e)"
      and cs': "cs' = cs\<lparr>cs_containers := put_node (ur_Guid req) n' (cs_containers cs)\<rparr>"
    by (auto simp: store_Update_def nodeMap_Get_def split: option.splits)
  have "node_moves (cs_config cs) n n'" by (intro node_moves_step node_step.update [OF u])
  with Some show ?thesis by (simp add: cs' store_moves_put)
qed

lemma exec_step_moves:
  assumes "exec_step c c'"
  shows "store_moves tot (client_config c) (client_nodes c) (client_nodes c')
    \<and> client_config c' = client_config c \<and> cl_totalCapacity c' = cl_totalCapacity c"
  using assms
proof cases
  case (allocate requests t now)
  with allocate_moves [OF allocate(2), of tot "cl_store c" t now "[]"] show ?thesis
    by (simp add: AllocateContainers_def split_beta)
next
  case (run t req)
  have "store_moves tot (client_config c) (client_nodes c)
      (cs_containers (fst (store_Initialize (cl_store c) req)))"
    unfolding store_Initialize_def by (intro on_node_moves node_moves_step node_step.initialize)
  moreover obtain cs e where i: "store_Initialize (cl_store c) req = (cs, e)" by fastforce
  moreover have "cs_config cs = client_config c"
    using i on_node_config by (metis fst_conv store_Initialize_def)
  ultimately show ?thesis using run by (cases e) (simp_all add: RunContainer_def)
next
  case (worker pre t g post env now)
  with worker_moves [of tot "cl_store c" env t g now] show ?thesis by simp
next
  case (update env req e)
  then obtain cs where "store_Update env (cl_store c) req = Some (cs, e)" and "c' = c\<lparr>cl_store := cs\<rparr>"
    by (auto simp: UpdateContainer_def)
  with store_Update_moves show ?thesis by simp
next
  case (stop t g)
  have moves: "node_moves (client_config c) n (node_Stop n t)" for n
    by (intro node_moves_step node_step.stop)
  have "store_moves tot (client_config c) (client_nodes c)
      (cs_containers (fst (store_Stop (cl_store c) t g)))"
    unfolding store_Stop_def by (rule on_node_moves) (simp add: moves)
  with stop show ?thesis by (simp add: StopContainer_def split_beta) (simp add: store_Stop_def)
next
  case (delete env t g x)
  with store_Destroy_moves [of tot "cl_store c" env t g x] show ?thesis
    by (simp add: DeleteContainer_def split_beta)
next
  case (node g n n')
  then show ?thesis by (simp add: with_nodes_def store_moves_put node_moves_step)
next
  case (prune now)
  have "node_moves (client_config c) n (fst (Expire (client_config c) n [] now))" for n
    by (intro node_moves_step node_step.expire)
  with prune show ?thesis
    by (simp add: with_nodes_def registryPruner_tick_def CompleteExpired_def store_moves_map)
next
  case (reap gs gc)
  have "node_moves (client_config c) n (if P then fst (Reap n []) else n)" for n P
    using node_moves_step [OF node_step.reap] by (simp add: node_moves_refl)
  with reap show ?thesis
    by (simp add: with_nodes_def reapMissingGardenContainers_def CompleteMissing_def
        store_moves_map split: sum.splits)
next
  case (healthy b)
  then show ?thesis by (simp add: SetHealthy_def)
qed

lemma exec_reach_inv:
  assumes "exec_reach tot cfg c" and "resources_typed tot"
    and "0 \<le> ex_MemoryMB tot" and "0 \<le> ex_DiskMB tot" and "0 \<le> ex_Containers tot"
  shows "store_inv tot cfg (client_nodes c) \<and> client_config c = cfg \<and> cl_totalCapacity c = tot"
  using assms(1)
proof (induction rule: exec_reach.induct)
  case started
  show ?case
    using assms(2-)
    by (simp add: NewClient_def newNodeMap_def store_inv_def nodes_ok_def balanced_def used_def Let_def)
next
  case (step c c')
  with exec_step_moves [OF step(2), of tot] show ?case by (simp add: store_moves_def)
qed

subsection \<open>Properties\<close>

text \<open>
  C7. The bookkeeping of a cell is exact in every reachable state of its executor: what remains plus
  the sum over the containers it holds is its capacity, for memory, disk and the number of
  containers, nothing that remains is negative, and every container satisfies the invariant of
  its lifecycle.
\<close>

theorem executor_accounting:
  assumes "exec_reach tot cfg c" and "resources_typed tot"
    and "0 \<le> ex_MemoryMB tot" and "0 \<le> ex_DiskMB tot" and "0 \<le> ex_Containers tot"
  shows "let m = client_nodes c; r = nm_remainingResources m in
      ex_MemoryMB r + used er_MemoryMB m = ex_MemoryMB tot \<and> 0 \<le> ex_MemoryMB r
    \<and> ex_DiskMB r + used er_DiskMB m = ex_DiskMB tot \<and> 0 \<le> ex_DiskMB r
    \<and> ex_Containers r + int (length (nm_nodes m)) = ex_Containers tot \<and> 0 \<le> ex_Containers r
    \<and> list_all (\<lambda>(g, n). co_Guid (sn_info n) = g \<and> node_inv n) (nm_nodes m)"
proof -
  have "nodes_ok cfg (client_nodes c)" and "balanced tot (client_nodes c)"
    using exec_reach_inv [OF assms] by (auto simp: store_inv_def)
  then show ?thesis
    by (auto simp: balanced_def nodes_ok_def list_all_iff Let_def intro: node_reach_inv)
qed

definition small_cell :: ExecutorResources where
  "small_cell = NewExecutorResources 100 100 2"

definition small_request :: AllocationRequest where
  "small_request = NewAllocationRequest ''c'' (NewExecResource 60 10 1) False None"

definition small_client :: exec_client where
  "small_client = fst (AllocateContainers (NewClient small_cell life_config) [] 0
     [small_request, small_request\<lparr>ar_Guid := ''d''\<rparr>])"

lemma small_client_reach: "exec_reach small_cell life_config small_client"
  unfolding small_client_def
  by (rule exec_reach.step [OF exec_reach.started exec_step.allocate])
     (simp add: small_request_def NewAllocationRequest_def NewExecResource_def resource_nonneg_def)

lemma small_cell_typed:
  "resources_typed small_cell" "0 \<le> ex_MemoryMB small_cell" "0 \<le> ex_DiskMB small_cell"
  "0 \<le> ex_Containers small_cell"
  by (simp_all add: small_cell_def NewExecutorResources_def resources_typed_def is_i64_def)

theorem executor_accounting_witness:
  "exec_reach small_cell life_config small_client
   \<and> ex_MemoryMB (nm_remainingResources (client_nodes small_client)) + used er_MemoryMB (client_nodes small_client)
     = 100"
  using executor_accounting [OF small_client_reach small_cell_typed] small_client_reach
  by (simp add: Let_def small_cell_def NewExecutorResources_def)

text \<open>
  C9. The executor implements its contract as an allocator: every step of the client, the workers, the
  process events and the sweeps is, on the abstract allocation from guids to resources, a
  sequence of reservations of fresh guids that fit into what the capacity leaves, and of
  releases.
\<close>

theorem executor_refines_allocation:
  assumes "exec_reach tot cfg c" and "resources_typed tot"
    and "0 \<le> ex_MemoryMB tot" and "0 \<le> ex_DiskMB tot" and "0 \<le> ex_Containers tot"
    and "exec_step c c'"
  shows "(allocation_step tot)\<^sup>*\<^sup>* (abs_client c) (abs_client c')"
  using exec_reach_inv [OF assms(1-5)] exec_step_moves [OF assms(6), of tot]
  by (simp add: store_moves_def abs_client_def)

theorem executor_refines_allocation_witness:
  "exec_step small_client (fst (StopContainer small_client [] ''c''))
   \<and> (allocation_step small_cell)\<^sup>*\<^sup>* (abs_client small_client)
       (abs_client (fst (StopContainer small_client [] ''c'')))"
  using executor_refines_allocation [OF small_client_reach small_cell_typed exec_step.stop]
  by (simp add: exec_step.stop)

text \<open>
  \<open>AllocatedResources\<close> is the sum of the resources of the containers that the cell holds.
\<close>

theorem AllocatedResources_sum:
  assumes "exec_reach tot cfg c" and "resources_typed tot"
    and "0 \<le> ex_MemoryMB tot" and "0 \<le> ex_DiskMB tot" and "0 \<le> ex_Containers tot"
  shows "AllocatedResources c =
    \<lparr>ex_MemoryMB = used er_MemoryMB (client_nodes c), ex_DiskMB = used er_DiskMB (client_nodes c),
     ex_Containers = int (length (nm_nodes (client_nodes c)))\<rparr>"
proof -
  note inv = exec_reach_inv [OF assms]
  then have b: "balanced tot (client_nodes c)" and n: "nodes_ok cfg (client_nodes c)"
    and t: "cl_totalCapacity c = tot" by (simp_all add: store_inv_def)
  have eqs: "ex_MemoryMB tot - ex_MemoryMB (nm_remainingResources (client_nodes c)) = used er_MemoryMB (client_nodes c)"
      "ex_DiskMB tot - ex_DiskMB (nm_remainingResources (client_nodes c)) = used er_DiskMB (client_nodes c)"
      "ex_Containers tot - ex_Containers (nm_remainingResources (client_nodes c))
         = int (length (nm_nodes (client_nodes c)))"
    using b by (auto simp: balanced_def Let_def)
  have "is_i64 (used er_MemoryMB (client_nodes c))" "is_i64 (used er_DiskMB (client_nodes c))"
      "is_i64 (int (length (nm_nodes (client_nodes c))))"
    using b assms(2) used_nonneg [OF n]
    by (auto simp: balanced_def Let_def resources_typed_def is_i64_def)
  then show ?thesis unfolding AllocatedResources_def t Let_def eqs by (simp add: wrap_simps)
qed

theorem AllocatedResources_sum_witness:
  "AllocatedResources small_client =
    \<lparr>ex_MemoryMB = used er_MemoryMB (client_nodes small_client),
     ex_DiskMB = used er_DiskMB (client_nodes small_client),
     ex_Containers = int (length (nm_nodes (client_nodes small_client)))\<rparr>"
  by (rule AllocatedResources_sum [OF small_client_reach small_cell_typed])

definition reserved_node :: "int \<Rightarrow> AllocationRequest \<Rightarrow> storeNode" where
  "reserved_node now r =
     newStoreNode (NewReservedContainerFromAllocationRequest r now) (ar_GenerateLogMetrics r)"

lemma reserved_node_guid: "co_Guid (sn_info (reserved_node now r)) = ar_Guid r"
  by (simp add: reserved_node_def newStoreNode_def NewReservedContainerFromAllocationRequest_def
      NewContainerFromResource_def)

lemma nodeMap_Add_nodes:
  "nodeMap_Add m n = Inr m' \<Longrightarrow> nm_nodes m' = nm_nodes m @ [(co_Guid (sn_info n), n)]"
  by (auto simp: nodeMap_Add_def nodeMap_Contains_def Info_def Let_def update_None
      split: if_splits option.splits)

lemma allocate_one_cases:
  obtains (failed) msg where "allocate_one t now r (cs, fs) = (cs, fs @ [NewAllocationFailure r msg])"
  | (reserved) m where "allocate_one t now r (cs, fs) =
        (cs\<lparr>cs_containers := m, cs_emitted := cs_emitted cs @
            [ContainerReservedEvent (NewReservedContainerFromAllocationRequest r now) t]\<rparr>, fs)"
      and "nm_nodes m = nm_nodes (cs_containers cs) @ [(ar_Guid r, reserved_node now r)]"
proof (cases "AllocationRequest_Validate r")
  case (Some e)
  then show thesis by (intro failed) (simp add: allocate_one_def)
next
  case None
  show thesis
  proof (cases "nodeMap_Add (cs_containers cs) (reserved_node now r)")
    case (Inl e)
    with None show thesis
      by (intro failed) (simp add: allocate_one_def Reserve_def reserved_node_def Let_def)
  next
    case (Inr m)
    with None show thesis
      by (intro reserved [of m])
         (simp_all add: allocate_one_def Reserve_def Let_def nodeMap_Add_nodes reserved_node_guid,
          simp add: reserved_node_def)
  qed
qed

lemma allocate_fold:
  "\<exists>oks fails. fold (allocate_one t now) reqs (cs, fs) =
      (cs\<lparr>cs_containers := cs_containers (fst (fold (allocate_one t now) reqs (cs, fs))),
          cs_emitted := cs_emitted cs @
            map (\<lambda>r. ContainerReservedEvent (NewReservedContainerFromAllocationRequest r now) t) oks\<rparr>,
       fs @ fails)
     \<and> mset reqs = mset oks + mset (map af_AllocationRequest fails)
     \<and> nm_nodes (cs_containers (fst (fold (allocate_one t now) reqs (cs, fs)))) =
         nm_nodes (cs_containers cs) @ map (\<lambda>r. (ar_Guid r, reserved_node now r)) oks"
proof (induction reqs arbitrary: cs fs)
  case Nil
  show ?case by (intro exI [of _ "[]"]) simp
next
  case (Cons r reqs)
  show ?case
  proof (cases rule: allocate_one_cases [of t now r cs fs])
    case (failed msg)
    obtain oks fails where "fold (allocate_one t now) reqs (cs, fs @ [NewAllocationFailure r msg]) =
      (cs\<lparr>cs_containers := cs_containers (fst (fold (allocate_one t now) reqs
             (cs, fs @ [NewAllocationFailure r msg]))),
          cs_emitted := cs_emitted cs @
            map (\<lambda>r. ContainerReservedEvent (NewReservedContainerFromAllocationRequest r now) t) oks\<rparr>,
       (fs @ [NewAllocationFailure r msg]) @ fails)"
      "mset reqs = mset oks + mset (map af_AllocationRequest fails)"
      "nm_nodes (cs_containers (fst (fold (allocate_one t now) reqs (cs, fs @ [NewAllocationFailure r msg])))) =
         nm_nodes (cs_containers cs) @ map (\<lambda>r. (ar_Guid r, reserved_node now r)) oks"
      using Cons.IH [of cs "fs @ [NewAllocationFailure r msg]"] by blast
    then show ?thesis
      by (intro exI [of _ oks] exI [of _ "NewAllocationFailure r msg # fails"])
         (simp add: failed NewAllocationFailure_def)
  next
    case (reserved m)
    let ?cs = "cs\<lparr>cs_containers := m, cs_emitted := cs_emitted cs @
            [ContainerReservedEvent (NewReservedContainerFromAllocationRequest r now) t]\<rparr>"
    obtain oks fails where "fold (allocate_one t now) reqs (?cs, fs) =
      (?cs\<lparr>cs_containers := cs_containers (fst (fold (allocate_one t now) reqs (?cs, fs))),
          cs_emitted := cs_emitted ?cs @
            map (\<lambda>r. ContainerReservedEvent (NewReservedContainerFromAllocationRequest r now) t) oks\<rparr>,
       fs @ fails)"
      "mset reqs = mset oks + mset (map af_AllocationRequest fails)"
      "nm_nodes (cs_containers (fst (fold (allocate_one t now) reqs (?cs, fs)))) =
         nm_nodes (cs_containers ?cs) @ map (\<lambda>r. (ar_Guid r, reserved_node now r)) oks"
      using Cons.IH [of ?cs fs] by blast
    then show ?thesis
      by (intro exI [of _ "r # oks"] exI [of _ fails]) (simp add: reserved)
  qed
qed

lemma allocate_answers:
  "\<exists>oks. mset requests = mset oks + mset (map af_AllocationRequest (snd (AllocateContainers c t now requests)))
     \<and> nm_nodes (client_nodes (fst (AllocateContainers c t now requests))) =
         nm_nodes (client_nodes c) @ map (\<lambda>r. (ar_Guid r, reserved_node now r)) oks
     \<and> cs_emitted (cl_store (fst (AllocateContainers c t now requests))) =
         cs_emitted (cl_store c) @
         map (\<lambda>r. ContainerReservedEvent (NewReservedContainerFromAllocationRequest r now) t) oks"
proof -
  obtain oks fails where f: "fold (allocate_one t now) requests (cl_store c, []) =
      ((cl_store c)\<lparr>cs_containers := cs_containers (fst (fold (allocate_one t now) requests (cl_store c, []))),
          cs_emitted := cs_emitted (cl_store c) @
            map (\<lambda>r. ContainerReservedEvent (NewReservedContainerFromAllocationRequest r now) t) oks\<rparr>,
       [] @ fails)"
      and "mset requests = mset oks + mset (map af_AllocationRequest fails)"
      and "nm_nodes (cs_containers (fst (fold (allocate_one t now) requests (cl_store c, [])))) =
         nm_nodes (client_nodes c) @ map (\<lambda>r. (ar_Guid r, reserved_node now r)) oks"
    using allocate_fold [of t now requests "cl_store c" "[]"] by blast
  moreover have "snd (fold (allocate_one t now) requests (cl_store c, [])) = fails"
    using arg_cong [OF f, of snd] by simp
  moreover have "cs_emitted (fst (fold (allocate_one t now) requests (cl_store c, []))) =
      cs_emitted (cl_store c) @
        map (\<lambda>r. ContainerReservedEvent (NewReservedContainerFromAllocationRequest r now) t) oks"
    using arg_cong [OF f, of "cs_emitted \<circ> fst"] by simp
  ultimately show ?thesis
    by (intro exI [of _ oks]) (simp add: AllocateContainers_def split_beta)
qed

text \<open>
  The contract that the rep relies on when it asks for containers: with what the allocator holds
  as a list of guids and nodes, every request is answered by a failure or by a new node.
\<close>

locale container_allocator =
  fixes alloc :: "'c \<Rightarrow> string \<Rightarrow> int \<Rightarrow> AllocationRequest list \<Rightarrow> 'c \<times> AllocationFailure list"
    and held :: "'c \<Rightarrow> (string \<times> storeNode) list"
  assumes answers: "\<exists>oks. mset requests = mset oks + mset (map af_AllocationRequest (snd (alloc c t now requests)))
     \<and> held (fst (alloc c t now requests)) = held c @ map (\<lambda>r. (ar_Guid r, reserved_node now r)) oks"

interpretation exec_alloc: container_allocator AllocateContainers "\<lambda>c. nm_nodes (client_nodes c)"
proof
  fix requests t now and c :: exec_client
  show "\<exists>oks. mset requests = mset oks + mset (map af_AllocationRequest (snd (AllocateContainers c t now requests)))
     \<and> nm_nodes (client_nodes (fst (AllocateContainers c t now requests))) =
         nm_nodes (client_nodes c) @ map (\<lambda>r. (ar_Guid r, reserved_node now r)) oks"
    using allocate_answers [of requests c t now] by blast
qed

text \<open>
  \<open>AllocateContainers\<close> answers every request exactly once: the requests are, with their
  multiplicities, those it reports as failures and those it has reserved a new container and
  emitted a reserved event for; the containers it held before are untouched.
\<close>

theorem AllocateContainers_answers:
  "\<exists>oks. mset requests = mset oks + mset (map af_AllocationRequest (snd (AllocateContainers c t now requests)))
     \<and> nm_nodes (client_nodes (fst (AllocateContainers c t now requests))) =
         nm_nodes (client_nodes c) @ map (\<lambda>r. (ar_Guid r, reserved_node now r)) oks
     \<and> cs_emitted (cl_store (fst (AllocateContainers c t now requests))) =
         cs_emitted (cl_store c) @
         map (\<lambda>r. ContainerReservedEvent (NewReservedContainerFromAllocationRequest r now) t) oks"
  by (rule allocate_answers)

text \<open>
  A delete that finds another delete of the same container in progress does not wait for it: the
  node answers success at once, and the store removes the container and gives its resources
  back, whatever garden does.
\<close>

theorem concurrent_delete_frees_at_once:
  assumes "map_of (nm_nodes (client_nodes c)) g = Some n" and "sn_destroying n"
    and "co_Guid (sn_info n) = g"
  shows "snd (DeleteContainer env c t g x) = None
    \<and> map_of (nm_nodes (client_nodes (fst (DeleteContainer env c t g x)))) g = None
    \<and> nm_remainingResources (client_nodes (fst (DeleteContainer env c t g x)))
        = ExecutorResources_Add (nm_remainingResources (client_nodes c)) (co_Resource (sn_info n))"
  using assms
  by (simp add: DeleteContainer_def store_Destroy_def on_node_def nodeMap_Get_def node_Destroy_def
      Destroy_enter_def nodeMap_Remove_def put_node_def Info_def Let_def)

theorem concurrent_delete_frees_at_once_witness:
  "(let n = life_created\<lparr>sn_destroying := True\<rparr>;
        c = with_nodes (\<lambda>m. m\<lparr>nm_nodes := [(''c'', n)]\<rparr>) (NewClient small_cell life_config)
    in map_of (nm_nodes (client_nodes (fst (DeleteContainer calm_env c [] ''c'' NoErr)))) ''c'' = None)"
proof -
  have guid: "co_Guid (sn_info life_created) = ''c''"
    using node_Create_outcome [OF life_initialized_facts(1), of "[]" life_config calm_env 0]
    by (simp add: create_outcome_def same_container_def life_created_def life_initialized_facts Let_def)
  show ?thesis
    unfolding Let_def
    by (rule conjunct1 [OF conjunct2 [OF concurrent_delete_frees_at_once
          [where n = "life_created\<lparr>sn_destroying := True\<rparr>"]]])
       (simp_all add: with_nodes_def guid)
qed

text \<open>
  When the steps of a created container cannot be built, the worker only logs the error: the
  container stays in state created, without a process, and nothing is emitted.
\<close>

theorem failed_run_leaves_created:
  assumes "map_of (nm_nodes (cs_containers cs)) g = Some n"
    and "node_Create (cs_config cs) env n t now = (n1, None)"
    and "ne_StepsRunner env (sn_info n1) = Inl e"
    and "node_state n = StateInitializing" and "sn_process n = NoProcess"
    and "m = cs_containers (runContainerWorker env cs t g now)"
  shows "\<exists>n2. map_of (nm_nodes m) g = Some n2 \<and> node_state n2 = StateCreated
      \<and> sn_process n2 = NoProcess \<and> sn_calls n2 = sn_calls n1"
proof -
  from node_Create_outcome [OF assms(4), of t "cs_config cs" env now] assms(2,5)
  have "node_state n1 = StateCreated" and "sn_process n1 = NoProcess"
    by (simp_all add: create_outcome_def Let_def)
  with assms show ?thesis
    by (simp add: runContainerWorker_def store_Create_def store_Run_def on_node_def nodeMap_Get_def
        put_node_def node_Run_def Let_def)
qed

definition stepless_env :: node_env where
  "stepless_env = calm_env\<lparr>ne_StepsRunner := (\<lambda>c. Inl ''no action'')\<rparr>"

theorem failed_run_leaves_created_witness:
  "(let cs = \<lparr>cs_config = life_config, cs_containers = \<lparr>nm_nodes = [(''c'', life_initialized)],
               nm_remainingResources = small_cell\<rparr>, cs_emitted = []\<rparr>
    in \<exists>n2. map_of (nm_nodes (cs_containers (runContainerWorker stepless_env cs [] ''c'' 0))) ''c'' = Some n2
         \<and> node_state n2 = StateCreated \<and> sn_process n2 = NoProcess)"
proof -
  let ?cs = "\<lparr>cs_config = life_config, cs_containers = \<lparr>nm_nodes = [(''c'', life_initialized)],
               nm_remainingResources = small_cell\<rparr>, cs_emitted = []\<rparr>"
  let ?r = "node_Create life_config stepless_env life_initialized [] 0"
  have "snd ?r = None" by code_simp
  then have "?r = (fst ?r, None)" by (simp add: prod_eq_iff)
  then have "node_Create (cs_config ?cs) stepless_env life_initialized [] 0 = (fst ?r, None)" by simp
  from failed_run_leaves_created [of ?cs "''c''" life_initialized, OF _ this, of "''no action''"]
  show ?thesis by (auto simp: life_states stepless_env_def Let_def)
qed

end
