(* ===== verification/Rep_Conversion.thy ===== *)
theory Rep_Conversion
  imports Executor_Store
begin

section \<open>Conversions between the bbs and the executor (rep/conversion_helpers.go, resources.go)\<close>

text \<open>
  How the rep translates: an LRP or task of the bbs to a run request for the executor, the tags
  of a container back to the keys of the LRP it runs, a root file system of the bbs to a path on
  the cell and back.

  The records \<open>DesiredLRP\<close> and \<open>TaskDefinition\<close> hold the fields that the conversions read.
  JSON decoding, the downgrade of a desired LRP to version 2, the conversion of image layers to
  actions and the registry for Amazon's container images are the functions of the record
  \<open>conv_env\<close>.
\<close>

subsection \<open>Errors\<close>

datatype rep_error =
    ErrContainerMissingTags
  | ErrInvalidProcessIndex
  | ErrIntergerOverflow
  | ErrValidation "string list"
  | ErrPreloadedRootFSNotFound
  | ErrUrlParse
  | RepError string

subsection \<open>Keys from tags\<close>

definition ActualLRPKeyFromTags :: "Tags \<Rightarrow> rep_error + ActualLRPKey" where
  "ActualLRPKeyFromTags tags =
     (if tags = None then Inl ErrContainerMissingTags
      else case atoi (tags_get tags ''process-index'') of
          None \<Rightarrow> Inl ErrInvalidProcessIndex
        | Some processIndex \<Rightarrow>
            if processIndex > 2 ^ 31 - 1 then Inl ErrIntergerOverflow
            else let key = NewActualLRPKey (tags_get tags ''process-guid'') (i32 processIndex)
                             (tags_get tags ''domain'');
                     errs = ActualLRPKey_Validate key
                 in if errs \<noteq> [] then Inl (ErrValidation errs) else Inr key)"

definition ActualLRPInstanceKeyFromContainer ::
  "Container \<Rightarrow> string \<Rightarrow> rep_error + ActualLRPInstanceKey" where
  "ActualLRPInstanceKeyFromContainer container cellID =
     (if co_Tags container = None then Inl ErrContainerMissingTags
      else let key = \<lparr>ikey_InstanceGuid = tags_get (co_Tags container) ''instance-guid'',
                      ikey_CellId = cellID\<rparr>;
               errs = ActualLRPInstanceKey_Validate key
           in if errs \<noteq> [] then Inl (ErrValidation errs) else Inr key)"

record ActualLRPNetInfo =
  ni_Address :: string
  ni_InstanceAddress :: string
  ni_InstanceAddressIPv6 :: string
  ni_PreferInstanceAddress :: bool
  ni_Ports :: "PortMapping list"

definition ActualLRPNetInfoFromContainer :: "Container \<Rightarrow> rep_error + ActualLRPNetInfo" where
  "ActualLRPNetInfoFromContainer container =
     (let info = \<lparr>ni_Address = co_ExternalIP container, ni_InstanceAddress = co_InternalIP container,
                  ni_InstanceAddressIPv6 = co_InternalIPv6 container,
                  ni_PreferInstanceAddress = co_AdvertisePreferenceForInstanceAddress container,
                  ni_Ports = ri_Ports (co_RunInfo container)\<rparr>
      in if ni_Address info = [] then Inl (ErrValidation [''address'']) else Inr info)"

definition LRPContainerGuid :: "string \<Rightarrow> string \<Rightarrow> string" where
  "LRPContainerGuid processGuid instanceGuid = instanceGuid"

subsection \<open>Root file systems\<close>

datatype layer_type = LayerTypeInvalid | LayerTypeShared | LayerTypeExclusive
datatype media_type = MediaTypeInvalid | MediaTypeTgz | MediaTypeTar | MediaTypeZip
datatype digest_algorithm = DigestAlgorithmInvalid | DigestAlgorithmSha256 | DigestAlgorithmSha512

record ImageLayer =
  il_Name :: string
  il_Url :: string
  il_DestinationPath :: string
  il_LayerType :: layer_type
  il_MediaType :: media_type
  il_DigestAlgorithm :: digest_algorithm
  il_DigestValue :: string

text \<open>\<open>url.QueryEscape\<close>: letters, digits and four marks stay, a blank becomes a plus.\<close>

definition hex_digit :: "nat \<Rightarrow> char" where
  "hex_digit n = (if n < 10 then char_of (48 + n) else char_of (65 + (n - 10)))"

definition query_escape_char :: "char \<Rightarrow> string" where
  "query_escape_char c =
     (if is_letter c \<or> is_digit c \<or> c \<in> set ''-_.~'' then [c]
      else if c = CHR '' '' then ''+''
      else [CHR ''%'', hex_digit (code c div 16), hex_digit (code c mod 16)])"

definition QueryEscape :: "string \<Rightarrow> string" where
  "QueryEscape s = concat (map query_escape_char s)"

definition suitable_layer :: "ImageLayer \<Rightarrow> bool" where
  "suitable_layer v \<longleftrightarrow> il_LayerType v = LayerTypeExclusive \<and> il_MediaType v = MediaTypeTgz
     \<and> il_DigestAlgorithm v = DigestAlgorithmSha256"

definition layer_rootfs :: "string \<Rightarrow> ImageLayer \<Rightarrow> string" where
  "layer_rootfs rootFS v =
     ''preloaded+layer:'' @ (split_on (CHR '':'') rootFS ! 1) @ ''?layer='' @ QueryEscape (il_Url v)
     @ ''&layer_path='' @ QueryEscape (il_DestinationPath v)
     @ ''&layer_digest='' @ QueryEscape (il_DigestValue v)"

fun remove_suitable :: "ImageLayer list \<Rightarrow> (ImageLayer \<times> ImageLayer list) option" where
  "remove_suitable [] = None"
| "remove_suitable (v # vs) =
     (if suitable_layer v then Some (v, vs)
      else case remove_suitable vs of None \<Rightarrow> None | Some (w, rest) \<Rightarrow> Some (w, v # rest))"

definition ConvertPreloadedRootFS ::
  "string \<Rightarrow> ImageLayer list \<Rightarrow> string \<Rightarrow> string \<times> ImageLayer list" where
  "ConvertPreloadedRootFS rootFS imageLayers layeringMode =
     (if layeringMode \<noteq> ''two-layer'' then (rootFS, imageLayers)
      else if \<not> has_prefix ''preloaded:'' rootFS then (rootFS, imageLayers)
      else case remove_suitable imageLayers of
          None \<Rightarrow> (rootFS, imageLayers)
        | Some (v, rest) \<Rightarrow> (layer_rootfs rootFS v, rest))"

type_synonym StackPathMap = str_map

definition PathForRootFS :: "StackPathMap \<Rightarrow> string \<Rightarrow> rep_error + string" where
  "PathForRootFS m rootFS =
     (if rootFS = [] then Inr rootFS
      else case url_Parse rootFS of
          None \<Rightarrow> Inl ErrUrlParse
        | Some u \<Rightarrow>
            if Scheme u = ''preloaded'' then
              (case map_of m (Opaque u) of
                 None \<Rightarrow> Inl ErrPreloadedRootFSNotFound | Some path \<Rightarrow> Inr path)
            else if Scheme u = ''preloaded+layer'' then
              (case map_of m (Opaque u) of
                 None \<Rightarrow> Inl ErrPreloadedRootFSNotFound
               | Some path \<Rightarrow> Inr (Scheme u @ '':'' @ path @ ''?'' @ RawQuery u))
            else Inr rootFS)"

definition StackVersionList :: "(string \<Rightarrow> string) \<Rightarrow> StackPathMap \<Rightarrow> string list" where
  "StackVersionList loadVersionFromPath m =
     map (\<lambda>(name, path). if loadVersionFromPath path \<noteq> []
                          then name @ ''@'' @ loadVersionFromPath path else name) m"

subsection \<open>Run requests\<close>

record MetricTagValue =
  mt_Static :: string
  mt_Dynamic :: int

record SharedDevice =
  sd_VolumeId :: string
  sd_MountConfig :: string

record DedicatedDevice =
  dd_MounterId :: string
  dd_MountConfig :: string
  dd_DeviceConfig :: string

record ModelVolumeMount =
  mv_Driver :: string
  mv_ContainerDir :: string
  mv_Mode :: string
  mv_Shared :: "SharedDevice option"
  mv_Dedicated :: "DedicatedDevice option"

record ModelSidecar =
  ms_Action :: "message option"
  ms_MemoryMb :: int
  ms_DiskMb :: int

record DesiredLRP =
  dl_RootFs :: string
  dl_ImageLayers :: "ImageLayer list"
  dl_VolumeMounts :: "ModelVolumeMount list"
  dl_MetricTags :: "(string \<times> MetricTagValue) list"
  dl_ImageUsername :: string
  dl_ImagePassword :: string
  dl_Routes :: message
  dl_CpuWeight :: int
  dl_Ports :: "int list"
  dl_LogGuid :: string
  dl_LogSource :: string
  dl_MetricsGuid :: string
  dl_StartTimeoutMs :: int
  dl_Privileged :: bool
  dl_CachedDependencies :: "CachedDependency list"
  dl_Setup :: "message option"
  dl_Action :: "message option"
  dl_Monitor :: "message option"
  dl_CheckDefinition :: "message option"
  dl_EgressRules :: "SecurityGroupRule list"
  dl_EnvironmentVariables :: "EnvironmentVariable list"
  dl_TrustedSystemCertificatesPath :: string
  dl_Network :: "str_map option"
  dl_CertificateProperties :: "string list option"
  dl_Sidecars :: "ModelSidecar list"
  dl_LogRateLimit :: "int option"
  dl_VolumeMountedFiles :: "VolumeMountedFiles list"

record TaskDefinition =
  td_RootFs :: string
  td_ImageLayers :: "ImageLayer list"
  td_VolumeMounts :: "ModelVolumeMount list"
  td_MetricTags :: "(string \<times> MetricTagValue) list"
  td_ImageUsername :: string
  td_ImagePassword :: string
  td_ResultFile :: string
  td_CpuWeight :: int
  td_Privileged :: bool
  td_LogGuid :: string
  td_LogSource :: string
  td_MetricsGuid :: string
  td_CachedDependencies :: "CachedDependency list"
  td_LegacyDownloadUser :: string
  td_Action :: "message option"
  td_EnvironmentVariables :: "EnvironmentVariable list"
  td_EgressRules :: "SecurityGroupRule list"
  td_TrustedSystemCertificatesPath :: string
  td_Network :: "str_map option"
  td_CertificateProperties :: "string list option"
  td_LogRateLimit :: "int option"
  td_VolumeMountedFiles :: "VolumeMountedFiles list"

record conv_env =
  cv_VersionDownTo :: "DesiredLRP \<Rightarrow> DesiredLRP"
  cv_ToCachedDependencies :: "ImageLayer list \<Rightarrow> CachedDependency list"
  cv_ToDownloadActions :: "ImageLayer list \<Rightarrow> string \<Rightarrow> message option"
  cv_InternalRoutesFromRoutingInfo :: "message \<Rightarrow> string + string list option"
  cv_Unmarshal :: "string \<Rightarrow> string + volume_config"
  cv_UnmarshalStrings :: "string \<Rightarrow> string + str_map"
  cv_IsECRRepo :: "string \<Rightarrow> string + bool"
  cv_GetECRCredentials :: "string \<Rightarrow> string \<Rightarrow> string \<Rightarrow> string + (string \<times> string)"

text \<open>
  \<open>ConvertMetricTags\<close>: a dynamic value of the index or of the instance guid that the caller
  does not supply is an error; any other dynamic value sets no tag.
\<close>

fun ConvertMetricTags ::
  "(string \<times> MetricTagValue) list \<Rightarrow> int option \<Rightarrow> string option \<Rightarrow> string + str_map" where
  "ConvertMetricTags [] index guid = Inr []"
| "ConvertMetricTags ((k, v) # tags) index guid =
     (let one = (if mt_Dynamic v > 0 then
            (if mt_Dynamic v = 1 then (case index of
                 None \<Rightarrow> Inl ''could not convert value to int32''
               | Some i \<Rightarrow> Inr [(k, itoa i)])
             else if mt_Dynamic v = 2 then (case guid of
                 None \<Rightarrow> Inl ''could not convert value to string''
               | Some g \<Rightarrow> Inr [(k, g)])
             else Inr [])
          else Inr [(k, mt_Static v)])
      in case one of
          Inl e \<Rightarrow> Inl e
        | Inr t \<Rightarrow> (case ConvertMetricTags tags index guid of Inl e \<Rightarrow> Inl e | Inr ts \<Rightarrow> Inr (t @ ts)))"

definition unmarshal_nonempty :: "(string \<Rightarrow> string + 'a) \<Rightarrow> string \<Rightarrow> string + 'a option" where
  "unmarshal_nonempty unmarshal s =
     (if s = [] then Inr None
      else case unmarshal s of Inl e \<Rightarrow> Inl e | Inr v \<Rightarrow> Inr (Some v))"

definition convert_device ::
  "conv_env \<Rightarrow> ModelVolumeMount \<Rightarrow> ActualLRPKey option \<Rightarrow> string + (string \<times> volume_config option)" where
  "convert_device env v lrpKey =
     (case mv_Shared v of
        Some s \<Rightarrow>
          (case unmarshal_nonempty (cv_Unmarshal env) (sd_MountConfig s) of
             Inl e \<Rightarrow> Inl e
           | Inr config \<Rightarrow> Inr (sd_VolumeId s, config))
      | None \<Rightarrow>
          (case mv_Dedicated v of
             None \<Rightarrow> Inr ([], None)
           | Some d \<Rightarrow>
               (let volumeId = (case lrpKey of
                      Some key \<Rightarrow> dd_MounterId d @ ''-'' @ itoa (key_Index key)
                    | None \<Rightarrow> dd_MounterId d)
                in case unmarshal_nonempty (cv_UnmarshalStrings env) (dd_MountConfig d) of
                    Inl e \<Rightarrow> Inl e
                  | Inr mountConfig \<Rightarrow>
                      (case unmarshal_nonempty (cv_UnmarshalStrings env) (dd_DeviceConfig d) of
                         Inl e \<Rightarrow> Inl e
                       | Inr deviceConfig \<Rightarrow>
                           Inr (volumeId, Some [(''mount_config'', ConfMap mountConfig),
                             (''device_config'', ConfMap deviceConfig),
                             (''source'', ConfString volumeId)])))))"

definition convertVolumeMount ::
  "conv_env \<Rightarrow> ActualLRPKey option \<Rightarrow> ModelVolumeMount \<Rightarrow> string + VolumeMount" where
  "convertVolumeMount env lrpKey v =
     (case convert_device env v lrpKey of
        Inl e \<Rightarrow> Inl e
      | Inr (volumeId, config) \<Rightarrow>
          (let mount = (\<lambda>mode. \<lparr>vm_Driver = mv_Driver v, vm_VolumeId = volumeId, vm_Config = config,
                              vm_ContainerPath = mv_ContainerDir v, vm_Mode = mode\<rparr>)
           in if mv_Mode v = ''r'' then Inr (mount 0)
              else if mv_Mode v = ''rw'' then Inr (mount 1)
              else Inl ''unrecognized volume mount mode''))"

definition convertVolumeMounts ::
  "conv_env \<Rightarrow> ActualLRPKey option \<Rightarrow> ModelVolumeMount list \<Rightarrow> string + VolumeMount list" where
  "convertVolumeMounts env lrpKey = map_result (convertVolumeMount env lrpKey)"

definition convertCredentials ::
  "conv_env \<Rightarrow> string \<Rightarrow> string \<Rightarrow> string \<Rightarrow> string + (string \<times> string)" where
  "convertCredentials env rootFS username password =
     (case cv_IsECRRepo env rootFS of
        Inl e \<Rightarrow> Inl e
      | Inr False \<Rightarrow> Inr (username, password)
      | Inr True \<Rightarrow>
          (case cv_GetECRCredentials env rootFS username password of
             Inl e \<Rightarrow> Inl (''failed to get ECR credentials: '' @ e)
           | Inr creds \<Rightarrow> Inr creds))"

definition convertNetwork :: "str_map option \<Rightarrow> str_map option" where
  "convertNetwork network = map_option (\<lambda>properties. properties) network"

definition convertCertificateProperties :: "string list option \<Rightarrow> string list" where
  "convertCertificateProperties props = (case props of None \<Rightarrow> [] | Some ou \<Rightarrow> ou)"

definition convertSidecars :: "ModelSidecar list \<Rightarrow> Sidecar list" where
  "convertSidecars = map (\<lambda>s. \<lparr>sc_Action = ms_Action s, sc_DiskMB = ms_DiskMb s, sc_MemoryMB = ms_MemoryMb s\<rparr>)"

definition convertLogRateLimit :: "int option \<Rightarrow> int" where
  "convertLogRateLimit l = (case l of None \<Rightarrow> - 1 | Some n \<Rightarrow> n)"

definition ConvertPortMappings :: "int list \<Rightarrow> PortMapping list" where
  "ConvertPortMappings containerPorts = map (\<lambda>p. port_only (u16 p)) containerPorts"

definition lift_err :: "string + 'a \<Rightarrow> rep_error + 'a" where
  "lift_err r = (case r of Inl e \<Rightarrow> Inl (RepError e) | Inr x \<Rightarrow> Inr x)"

definition bind_result :: "'e + 'a \<Rightarrow> ('a \<Rightarrow> 'e + 'b) \<Rightarrow> 'e + 'b" where
  "bind_result r f = (case r of Inl e \<Rightarrow> Inl e | Inr x \<Rightarrow> f x)"

definition instance_env :: "string \<Rightarrow> int \<Rightarrow> EnvironmentVariable list" where
  "instance_env guid index =
     [\<lparr>ev_Name = ''INSTANCE_GUID'', ev_Value = guid\<rparr>,
      \<lparr>ev_Name = ''INSTANCE_INDEX'', ev_Value = itoa index\<rparr>,
      \<lparr>ev_Name = ''CF_INSTANCE_GUID'', ev_Value = guid\<rparr>,
      \<lparr>ev_Name = ''CF_INSTANCE_INDEX'', ev_Value = itoa index\<rparr>]"

definition lrp_run_info ::
  "DesiredLRP \<Rightarrow> ActualLRPKey \<Rightarrow> ActualLRPInstanceKey \<Rightarrow> string \<Rightarrow> VolumeMount list \<Rightarrow> str_map
   \<Rightarrow> string \<Rightarrow> string \<Rightarrow> string list option \<Rightarrow> RunInfo" where
  "lrp_run_info d key ikey rootFSPath mounts metricTags username password internalRoutes =
     (let ports = ConvertPortMappings (dl_Ports d) in \<lparr>
       ri_RootFSPath = rootFSPath,
       ri_CPUWeight = max (dl_CpuWeight d) 1,
       ri_Ports = ports,
       ri_InternalRoutes = internalRoutes,
       ri_LogConfig = \<lparr>lc_Guid = dl_LogGuid d, lc_Index = key_Index key,
                       lc_SourceName = dl_LogSource d, lc_Tags = Some metricTags\<rparr>,
       ri_MetricsConfig = \<lparr>mc_Guid = dl_MetricsGuid d, mc_Index = key_Index key,
                           mc_Tags = Some metricTags\<rparr>,
       ri_StartTimeoutMs = u64 (dl_StartTimeoutMs d),
       ri_Privileged = dl_Privileged d,
       ri_CachedDependencies = dl_CachedDependencies d,
       ri_Setup = dl_Setup d,
       ri_Action = dl_Action d,
       ri_Monitor = dl_Monitor d,
       ri_CheckDefinition = dl_CheckDefinition d,
       ri_EgressRules = dl_EgressRules d,
       ri_Env = instance_env (ikey_InstanceGuid ikey) (key_Index key) @ dl_EnvironmentVariables d,
       ri_TrustedSystemCertificatesPath = dl_TrustedSystemCertificatesPath d,
       ri_VolumeMounts = mounts,
       ri_Network = convertNetwork (dl_Network d),
       ri_CertificateProperties = convertCertificateProperties (dl_CertificateProperties d),
       ri_ImageUsername = username,
       ri_ImagePassword = password,
       ri_EnableContainerProxy = (ports \<noteq> []),
       ri_Sidecars = convertSidecars (dl_Sidecars d),
       ri_LogRateLimitBytesPerSecond = convertLogRateLimit (dl_LogRateLimit d),
       ri_VolumeMountedFiles = dl_VolumeMountedFiles d\<rparr>)"

definition NewRunRequestFromDesiredLRP ::
  "conv_env \<Rightarrow> string \<Rightarrow> DesiredLRP \<Rightarrow> ActualLRPKey \<Rightarrow> ActualLRPInstanceKey \<Rightarrow> StackPathMap \<Rightarrow> string
   \<Rightarrow> rep_error + RunRequest" where
  "NewRunRequestFromDesiredLRP env containerGuid desiredLRP lrpKey lrpInstanceKey stackPathMap layeringMode =
     (let (rootFs, layers) =
            ConvertPreloadedRootFS (dl_RootFs desiredLRP) (dl_ImageLayers desiredLRP) layeringMode;
          d = cv_VersionDownTo env (desiredLRP\<lparr>dl_RootFs := rootFs, dl_ImageLayers := layers\<rparr>)
      in bind_result (lift_err (convertVolumeMounts env (Some lrpKey) (dl_VolumeMounts d))) (\<lambda>mounts.
         bind_result (PathForRootFS stackPathMap (dl_RootFs d)) (\<lambda>rootFSPath.
         bind_result (lift_err (ConvertMetricTags (dl_MetricTags d) (Some (key_Index lrpKey))
                       (Some (ikey_InstanceGuid lrpInstanceKey)))) (\<lambda>metricTags.
         bind_result (lift_err (convertCredentials env rootFSPath (dl_ImageUsername d)
                       (dl_ImagePassword d))) (\<lambda>(username, password).
         bind_result (lift_err (cv_InternalRoutesFromRoutingInfo env (dl_Routes d))) (\<lambda>internalRoutes.
         Inr (NewRunRequest containerGuid
               (lrp_run_info d lrpKey lrpInstanceKey rootFSPath mounts metricTags username password
                  internalRoutes)
               (Some []))))))))"

definition task_run_info ::
  "TaskDefinition \<Rightarrow> string \<Rightarrow> VolumeMount list \<Rightarrow> str_map \<Rightarrow> string \<Rightarrow> string
   \<Rightarrow> CachedDependency list \<Rightarrow> message option \<Rightarrow> RunInfo" where
  "task_run_info t rootFSPath mounts metricTags username password deps setup =
     empty_RunInfo\<lparr>
       ri_RootFSPath := rootFSPath,
       ri_CPUWeight := td_CpuWeight t,
       ri_Privileged := td_Privileged t,
       ri_LogConfig := \<lparr>lc_Guid = td_LogGuid t, lc_Index = 0, lc_SourceName = td_LogSource t,
                       lc_Tags = Some metricTags\<rparr>,
       ri_MetricsConfig := \<lparr>mc_Guid = td_MetricsGuid t, mc_Index = 0, mc_Tags = Some metricTags\<rparr>,
       ri_CachedDependencies := deps,
       ri_Action := td_Action t,
       ri_Setup := setup,
       ri_Env := td_EnvironmentVariables t,
       ri_EgressRules := td_EgressRules t,
       ri_TrustedSystemCertificatesPath := td_TrustedSystemCertificatesPath t,
       ri_VolumeMounts := mounts,
       ri_Network := convertNetwork (td_Network t),
       ri_CertificateProperties := convertCertificateProperties (td_CertificateProperties t),
       ri_ImageUsername := username,
       ri_ImagePassword := password,
       ri_EnableContainerProxy := False,
       ri_LogRateLimitBytesPerSecond := convertLogRateLimit (td_LogRateLimit t),
       ri_VolumeMountedFiles := td_VolumeMountedFiles t\<rparr>"

definition convertImageLayers ::
  "conv_env \<Rightarrow> TaskDefinition \<Rightarrow> CachedDependency list \<times> message option" where
  "convertImageLayers env t =
     (cv_ToCachedDependencies env (td_ImageLayers t) @ td_CachedDependencies t,
      cv_ToDownloadActions env (td_ImageLayers t) (td_LegacyDownloadUser t))"

definition NewRunRequestFromTask ::
  "conv_env \<Rightarrow> string \<Rightarrow> TaskDefinition \<Rightarrow> StackPathMap \<Rightarrow> string \<Rightarrow> rep_error + RunRequest" where
  "NewRunRequestFromTask env taskGuid task stackPathMap layeringMode =
     (let (rootFs, layers) = ConvertPreloadedRootFS (td_RootFs task) (td_ImageLayers task) layeringMode;
          t = task\<lparr>td_RootFs := rootFs, td_ImageLayers := layers\<rparr>;
          (deps, setup) = convertImageLayers env t
      in bind_result (lift_err (convertVolumeMounts env None (td_VolumeMounts t))) (\<lambda>mounts.
         bind_result (PathForRootFS stackPathMap (td_RootFs t)) (\<lambda>rootFSPath.
         bind_result (lift_err (ConvertMetricTags (td_MetricTags t) None None)) (\<lambda>metricTags.
         bind_result (lift_err (convertCredentials env rootFSPath (td_ImageUsername t)
                       (td_ImagePassword t))) (\<lambda>(username, password).
         Inr (NewRunRequest taskGuid
               (task_run_info t rootFSPath mounts metricTags username password deps setup)
               (Some [(''result-file'', td_ResultFile t)])))))))"

end
