(* ===== verification/Rep_Cell.thy ===== *)
theory Rep_Cell
  imports Rep_Conversion
begin

section \<open>The rep as a cell of the auction (rep/auctioncellrep)\<close>

text \<open>
  What the auctioneer sees of a cell: \<open>State\<close> describes the containers of the executor as LRPs
  and tasks, \<open>Perform\<close> admits work and reserves containers for it through the batch allocator.
  The executor is the model of \<open>Executor_Store\<close>. The JSON codec of the placement tags and volume
  drivers, the generator of instance guids (its result number \<open>i\<close>, nothing when it fails), the
  list of volume drivers and whether the cell evacuates are arguments.
\<close>

record json_codec =
  jc_Marshal :: "string list \<Rightarrow> string"
  jc_Unmarshal :: "string \<Rightarrow> string list option"

record AuctionCellRep =
  acr_cellID :: string
  acr_cellIndex :: int
  acr_repURL :: string
  acr_stackPathMap :: StackPathMap
  acr_rootFSProviders :: RootFSProviders
  acr_zone :: string
  acr_placementTags :: "string list"
  acr_optionalPlacementTags :: "string list"
  acr_enableContainerProxy :: bool
  acr_proxyMemoryAllocation :: int

subsection \<open>Root file systems\<close>

definition rootFSProviders :: "StackPathMap \<Rightarrow> string list \<Rightarrow> RootFSProviders" where
  "rootFSProviders preloaded arbitrary =
     (let providers = fold (\<lambda>scheme. AList.update scheme ArbitraryRootFSProvider) arbitrary [];
          stacks = map fst preloaded
      in AList.update ''preloaded+layer'' (FixedSetRootFSProvider stacks)
           (AList.update ''preloaded'' (FixedSetRootFSProvider stacks) providers))"

definition NewAuctionCellRep ::
  "string \<Rightarrow> int \<Rightarrow> string \<Rightarrow> StackPathMap \<Rightarrow> string list \<Rightarrow> string \<Rightarrow> string list \<Rightarrow> string list
   \<Rightarrow> int \<Rightarrow> bool \<Rightarrow> AuctionCellRep" where
  "NewAuctionCellRep cellID cellIndex repURL preloadedStackPathMap arbitraryRootFSes zone placementTags
     optionalPlacementTags proxyMemoryAllocation enableContainerProxy = \<lparr>
       acr_cellID = cellID, acr_cellIndex = cellIndex, acr_repURL = repURL,
       acr_stackPathMap = preloadedStackPathMap,
       acr_rootFSProviders = rootFSProviders preloadedStackPathMap arbitraryRootFSes,
       acr_zone = zone, acr_placementTags = placementTags,
       acr_optionalPlacementTags = optionalPlacementTags,
       acr_enableContainerProxy = enableContainerProxy,
       acr_proxyMemoryAllocation = proxyMemoryAllocation\<rparr>"

fun find_stack :: "string \<Rightarrow> url \<Rightarrow> StackPathMap \<Rightarrow> string" where
  "find_stack rootfsPath u [] = rootfsPath"
| "find_stack rootfsPath u ((k, v) # m) =
     (if rootfsPath = v then ''preloaded:'' @ k
      else if Path u = v then ''preloaded+layer:'' @ k @ ''?'' @ RawQuery u
      else find_stack rootfsPath u m)"

definition rootFSURLFromPath :: "string \<Rightarrow> StackPathMap \<Rightarrow> string" where
  "rootFSURLFromPath rootfsPath stackPathMap =
     (case url_Parse rootfsPath of
        None \<Rightarrow> rootfsPath
      | Some u \<Rightarrow> find_stack rootfsPath u stackPathMap)"

subsection \<open>State\<close>

definition containerIsStarting :: "Container \<Rightarrow> bool" where
  "containerIsStarting c \<longleftrightarrow>
     co_State c = StateReserved \<or> co_State c = StateInitializing \<or> co_State c = StateCreated"

definition convertResources :: "ExecutorResources \<Rightarrow> Resources" where
  "convertResources r =
     \<lparr>rs_MemoryMB = i32 (ex_MemoryMB r), rs_DiskMB = i32 (ex_DiskMB r), rs_Containers = ex_Containers r\<rparr>"

definition unmarshal_list :: "json_codec \<Rightarrow> string \<Rightarrow> string list" where
  "unmarshal_list json s = (case jc_Unmarshal json s of None \<Rightarrow> [] | Some xs \<Rightarrow> xs)"

definition container_constraint :: "json_codec \<Rightarrow> AuctionCellRep \<Rightarrow> Container \<Rightarrow> PlacementConstraint" where
  "container_constraint json a c =
     \<lparr>pc_PlacementTags = unmarshal_list json (tags_get (co_Tags c) ''placement-tags''),
      pc_VolumeDrivers = unmarshal_list json (tags_get (co_Tags c) ''volume-drivers''),
      pc_RootFs = rootFSURLFromPath (ri_RootFSPath (co_RunInfo c)) (acr_stackPathMap a)\<rparr>"

definition container_resource :: "Container \<Rightarrow> Resource" where
  "container_resource c =
     \<lparr>r_MemoryMB = i32 (er_MemoryMB (co_Resource c)), r_DiskMB = i32 (er_DiskMB (co_Resource c)),
      r_MaxPids = i32 (er_MaxPids (co_Resource c))\<rparr>"

definition lrp_state :: "Container \<Rightarrow> string" where
  "lrp_state c =
     (case co_State c of
        StateRunning \<Rightarrow> ''RUNNING''
      | StateCompleted \<Rightarrow> (if rr_Failed (co_RunResult c) then ''CRASHED'' else ''SHUTDOWN'')
      | _ \<Rightarrow> ''CLAIMED'')"

text \<open>What a container appears as in the state of the cell: an LRP, a task or nothing.\<close>

definition container_report ::
  "json_codec \<Rightarrow> AuctionCellRep \<Rightarrow> Container \<Rightarrow> (SchedulingLRP + SchedulingTask) option" where
  "container_report json a c =
     (if co_Tags c = None then None
      else if tags_get (co_Tags c) ''lifecycle'' = ''lrp'' then
        (case ActualLRPKeyFromTags (co_Tags c) of
           Inl e \<Rightarrow> None
         | Inr key \<Rightarrow>
             (case ActualLRPInstanceKeyFromContainer c (acr_cellID a) of
                Inl e \<Rightarrow> None
              | Inr ikey \<Rightarrow>
                  Some (Inl ((NewSchedulingLRP (ikey_InstanceGuid ikey) key (container_resource c)
                               (container_constraint json a c))\<lparr>lrp_State := lrp_state c\<rparr>))))
      else if tags_get (co_Tags c) ''lifecycle'' = ''task'' then
        Some (Inr ((NewSchedulingTask (co_Guid c) (tags_get (co_Tags c) ''domain'')
                      (container_resource c) (container_constraint json a c))
                     \<lparr>task_State := (if co_State c = StateCompleted then Task_Completed else Task_Running),
                      task_Failed := rr_Failed (co_RunResult c)\<rparr>))
      else None)"

definition State_reports ::
  "json_codec \<Rightarrow> AuctionCellRep \<Rightarrow> Container list \<Rightarrow> (SchedulingLRP + SchedulingTask) list" where
  "State_reports json a containers = List.map_filter (container_report json a) containers"

definition rep_State ::
  "json_codec \<Rightarrow> AuctionCellRep \<Rightarrow> exec_client \<Rightarrow> string + string list \<Rightarrow> int option \<Rightarrow> bool
   \<Rightarrow> string + (CellState \<times> bool)" where
  "rep_State json a client listDrivers liveDiskMB evacuating =
     (case listDrivers of
        Inl e \<Rightarrow> Inl e
      | Inr volumeDrivers \<Rightarrow>
          (let containers = ListContainers client;
               reports = State_reports json a containers
           in Inr (\<lparr>cs_RepURL = acr_repURL a, cs_CellID = acr_cellID a, cs_CellIndex = acr_cellIndex a,
                 cs_RootFSProviders = acr_rootFSProviders a,
                 cs_AvailableResources = convertResources (RemainingResources liveDiskMB client),
                 cs_TotalResources = convertResources (cl_totalCapacity client),
                 cs_LRPs = List.map_filter (\<lambda>r. case r of Inl l \<Rightarrow> Some l | Inr t \<Rightarrow> None) reports,
                 cs_Tasks = List.map_filter (\<lambda>r. case r of Inl l \<Rightarrow> None | Inr t \<Rightarrow> Some t) reports,
                 cs_StartingContainerCount = int (length (filter containerIsStarting containers)),
                 cs_Zone = acr_zone a, cs_Evacuating = evacuating,
                 cs_VolumeDrivers = volumeDrivers, cs_PlacementTags = acr_placementTags a,
                 cs_OptionalPlacementTags = acr_optionalPlacementTags a,
                 cs_ProxyMemoryAllocationMB =
                   (if acr_enableContainerProxy a then acr_proxyMemoryAllocation a else 0)\<rparr>,
               cl_healthy client)))"

subsection \<open>Metrics\<close>

record 'm LRPMetric =
  lm_InstanceGUID :: string
  lm_ProcessGUID :: string
  lm_Index :: int
  lm_Metrics :: 'm

record 'm TaskMetric =
  tm_TaskGUID :: string
  tm_Metrics :: 'm

definition container_metric ::
  "AuctionCellRep \<Rightarrow> (string \<times> 'm) list \<Rightarrow> Container \<Rightarrow> ('m LRPMetric + 'm TaskMetric) option" where
  "container_metric a metrics c =
     (if co_Tags c = None then None
      else case map_of metrics (co_Guid c) of
          None \<Rightarrow> None
        | Some m \<Rightarrow>
            if tags_get (co_Tags c) ''lifecycle'' = ''lrp'' then
              (case ActualLRPKeyFromTags (co_Tags c) of
                 Inl e \<Rightarrow> None
               | Inr key \<Rightarrow>
                   (case ActualLRPInstanceKeyFromContainer c (acr_cellID a) of
                      Inl e \<Rightarrow> None
                    | Inr ikey \<Rightarrow> Some (Inl \<lparr>lm_InstanceGUID = ikey_InstanceGuid ikey,
                        lm_ProcessGUID = key_ProcessGuid key, lm_Index = key_Index key,
                        lm_Metrics = m\<rparr>)))
            else if tags_get (co_Tags c) ''lifecycle'' = ''task'' then
              Some (Inr \<lparr>tm_TaskGUID = co_Guid c, tm_Metrics = m\<rparr>)
            else None)"

definition rep_Metrics ::
  "AuctionCellRep \<Rightarrow> (string \<times> 'm) list \<Rightarrow> exec_client \<Rightarrow> 'm LRPMetric list \<times> 'm TaskMetric list" where
  "rep_Metrics a metrics client =
     (let ms = List.map_filter (container_metric a metrics) (ListContainers client)
      in (List.map_filter (\<lambda>r. case r of Inl l \<Rightarrow> Some l | Inr t \<Rightarrow> None) ms,
          List.map_filter (\<lambda>r. case r of Inl l \<Rightarrow> None | Inr t \<Rightarrow> Some t) ms))"

subsection \<open>The batch allocator\<close>

definition buildLRPTags :: "json_codec \<Rightarrow> SchedulingLRP \<Rightarrow> string \<Rightarrow> Tags" where
  "buildLRPTags json lrp instanceGuid = Some
     [(''domain'', key_Domain (lrp_Key lrp)),
      (''process-guid'', key_ProcessGuid (lrp_Key lrp)),
      (''process-index'', itoa (key_Index (lrp_Key lrp))),
      (''lifecycle'', ''lrp''),
      (''instance-guid'', instanceGuid),
      (''placement-tags'', jc_Marshal json (pc_PlacementTags (lrp_Constraint lrp))),
      (''volume-drivers'', jc_Marshal json (pc_VolumeDrivers (lrp_Constraint lrp)))]"

definition buildTaskTags :: "json_codec \<Rightarrow> SchedulingTask \<Rightarrow> Tags" where
  "buildTaskTags json task = Some
     [(''lifecycle'', ''task''),
      (''domain'', task_Domain task),
      (''placement-tags'', jc_Marshal json (pc_PlacementTags (task_Constraint task))),
      (''volume-drivers'', jc_Marshal json (pc_VolumeDrivers (task_Constraint task)))]"

definition lrp_request ::
  "json_codec \<Rightarrow> bool \<Rightarrow> int \<Rightarrow> SchedulingLRP \<Rightarrow> string \<Rightarrow> AllocationRequest" where
  "lrp_request json enableContainerProxy proxyMemoryAllocation lrp instanceGuid =
     (let memoryMB = r_MemoryMB (lrp_Resource lrp);
          memoryMB = (if memoryMB > 0 \<and> enableContainerProxy
                      then i64 (memoryMB + proxyMemoryAllocation) else memoryMB);
          resource = NewExecResource memoryMB (r_DiskMB (lrp_Resource lrp)) (r_MaxPids (lrp_Resource lrp));
          containerGuid = LRPContainerGuid (key_ProcessGuid (lrp_Key lrp)) instanceGuid
      in NewAllocationRequest containerGuid resource True (buildLRPTags json lrp instanceGuid))"

definition task_request :: "json_codec \<Rightarrow> SchedulingTask \<Rightarrow> AllocationRequest" where
  "task_request json task =
     NewAllocationRequest (task_TaskGuid task)
       (NewExecResource (r_MemoryMB (task_Resource task)) (r_DiskMB (task_Resource task))
          (r_MaxPids (task_Resource task)))
       False (buildTaskTags json task)"

text \<open>
  The translation loop: the LRPs that cannot be translated, and the others with their instance
  guid. The generator is called once for every LRP, in order.
\<close>

fun translate_lrps ::
  "(nat \<Rightarrow> string option) \<Rightarrow> StackPathMap \<Rightarrow> nat \<Rightarrow> SchedulingLRP list
   \<Rightarrow> SchedulingLRP list \<times> (SchedulingLRP \<times> string) list" where
  "translate_lrps newGuid stackPathMap i [] = ([], [])"
| "translate_lrps newGuid stackPathMap i (lrp # lrps) =
     (let (failed, ok) = translate_lrps newGuid stackPathMap (Suc i) lrps
      in case newGuid i of
          None \<Rightarrow> (lrp # failed, ok)
        | Some instanceGuid \<Rightarrow>
            (case PathForRootFS stackPathMap (pc_RootFs (lrp_Constraint lrp)) of
               Inl e \<Rightarrow> (lrp # failed, ok)
             | Inr path \<Rightarrow> (failed, (lrp, instanceGuid) # ok)))"

text \<open>The requests that failed, looked up by the guid of their container; the last entry wins.\<close>

definition failed_of :: "(string \<times> 'a) list \<Rightarrow> AllocationFailure list \<Rightarrow> 'a list" where
  "failed_of guidMap failures =
     List.map_filter (\<lambda>f. map_of (rev guidMap) (ar_Guid (af_AllocationRequest f))) failures"

definition request_containers ::
  "exec_client \<Rightarrow> string \<Rightarrow> int \<Rightarrow> AllocationRequest list \<Rightarrow> exec_client \<times> AllocationFailure list" where
  "request_containers client traceID now requests =
     (if requests \<noteq> [] then AllocateContainers client traceID now requests else (client, []))"

definition BatchLRPAllocationRequest ::
  "json_codec \<Rightarrow> (nat \<Rightarrow> string option) \<Rightarrow> StackPathMap \<Rightarrow> exec_client \<Rightarrow> string \<Rightarrow> int \<Rightarrow> bool \<Rightarrow> int
   \<Rightarrow> SchedulingLRP list \<Rightarrow> exec_client \<times> SchedulingLRP list" where
  "BatchLRPAllocationRequest json newGuid stackPathMap client traceID now enableContainerProxy
     proxyMemoryAllocation lrps =
     (let (unallocated, ok) = translate_lrps newGuid stackPathMap 0 lrps;
          requests = map (\<lambda>(lrp, guid). lrp_request json enableContainerProxy proxyMemoryAllocation lrp guid) ok;
          guidMap = map (\<lambda>(lrp, guid). (LRPContainerGuid (key_ProcessGuid (lrp_Key lrp)) guid, lrp)) ok;
          (client, failures) = request_containers client traceID now requests
      in (client, unallocated @ failed_of guidMap failures))"

definition task_translates :: "StackPathMap \<Rightarrow> SchedulingTask \<Rightarrow> bool" where
  "task_translates stackPathMap task =
     (case PathForRootFS stackPathMap (pc_RootFs (task_Constraint task)) of Inl e \<Rightarrow> False | Inr p \<Rightarrow> True)"

definition BatchTaskAllocationRequest ::
  "json_codec \<Rightarrow> StackPathMap \<Rightarrow> exec_client \<Rightarrow> string \<Rightarrow> int \<Rightarrow> SchedulingTask list
   \<Rightarrow> exec_client \<times> SchedulingTask list" where
  "BatchTaskAllocationRequest json stackPathMap client traceID now tasks =
     (let requests = map (task_request json) (filter (task_translates stackPathMap) tasks);
          (client, failures) = request_containers client traceID now requests
      in (client, filter (\<lambda>t. \<not> task_translates stackPathMap t) tasks
                  @ failed_of (map (\<lambda>t. (task_TaskGuid t, t)) tasks) failures))"

subsection \<open>Perform\<close>

datatype perform_error = ErrCellIdMismatch

definition required_memory :: "AuctionCellRep \<Rightarrow> SchedulingLRP \<Rightarrow> int" where
  "required_memory a lrp =
     (if acr_enableContainerProxy a
      then i32 (r_MemoryMB (lrp_Resource lrp) + i32 (acr_proxyMemoryAllocation a))
      else r_MemoryMB (lrp_Resource lrp))"

text \<open>The admission loop: the LRPs whose memory fits what the earlier ones leave, and the others.\<close>

fun admit_lrps ::
  "AuctionCellRep \<Rightarrow> int \<Rightarrow> SchedulingLRP list \<Rightarrow> SchedulingLRP list \<times> SchedulingLRP list" where
  "admit_lrps a remainingMemory [] = ([], [])"
| "admit_lrps a remainingMemory (lrp # lrps) =
     (if required_memory a lrp \<le> remainingMemory
      then let (ok, failed) = admit_lrps a (i32 (remainingMemory - required_memory a lrp)) lrps
           in (lrp # ok, failed)
      else let (ok, failed) = admit_lrps a remainingMemory lrps in (ok, lrp # failed))"

definition sort_by_memory :: "SchedulingLRP list \<Rightarrow> SchedulingLRP list" where
  "sort_by_memory = go_sort (\<lambda>l1 l2. r_MemoryMB (lrp_Resource l1) > r_MemoryMB (lrp_Resource l2))"

definition rep_Perform ::
  "json_codec \<Rightarrow> (nat \<Rightarrow> string option) \<Rightarrow> AuctionCellRep \<Rightarrow> exec_client \<Rightarrow> string \<Rightarrow> int \<Rightarrow> int option
   \<Rightarrow> bool \<Rightarrow> Work \<Rightarrow> exec_client \<times> Work \<times> perform_error option" where
  "rep_Perform json newGuid a client traceID now liveDiskMB evacuating work =
     (if w_CellID work \<noteq> [] \<and> w_CellID work \<noteq> acr_cellID a
      then (client, work, Some ErrCellIdMismatch)
      else let work = work\<lparr>w_LRPs := sort_by_memory (w_LRPs work)\<rparr>;
               remainingMemory = i32 (ex_MemoryMB (RemainingResources liveDiskMB client));
               (lrpRequests, failedLRPs) = admit_lrps a remainingMemory (w_LRPs work)
           in if evacuating then (client, work, None)
              else let (client, unallocatedLRPs) =
                         BatchLRPAllocationRequest json newGuid (acr_stackPathMap a) client traceID now
                           (acr_enableContainerProxy a) (acr_proxyMemoryAllocation a) lrpRequests;
                       (client, failedTasks) =
                         BatchTaskAllocationRequest json (acr_stackPathMap a) client traceID now (w_Tasks work)
                   in (client, empty_work\<lparr>w_LRPs := failedLRPs @ unallocatedLRPs, w_Tasks := failedTasks\<rparr>,
                       None))"

end
