(* ===== verification/Rep_Properties.thy ===== *)
theory Rep_Properties
  imports Rep_Cell
begin

section \<open>Properties of the rep as a cell\<close>

text \<open>
  The work sent to a cell is conserved by \<open>Perform\<close>: what is not returned has a container in the
  executor, and \<open>State\<close> then reports it under the key it was sent with. Root file systems survive
  the way from the bbs to a path of the cell and back.
\<close>

subsection \<open>Lemmas: the batch allocator\<close>

lemma map_filter_keys:
  assumes "\<And>f. f \<in> set fs \<Longrightarrow> \<exists>x. look f = Some x \<and> key x = kf f"
  shows "map key (List.map_filter look fs) = map kf fs"
  using assms
proof (induction fs)
  case (Cons f fs)
  from Cons.prems [of f] obtain x where "look f = Some x" and "key x = kf f" by auto
  with Cons show ?case by (simp add: List.map_filter_simps)
qed (simp add: List.map_filter_simps)

lemma request_containers_eq: "request_containers = AllocateContainers"
  by (auto simp: fun_eq_iff request_containers_def AllocateContainers_def)

context container_allocator
begin

text \<open>
  Requests made from distinct guids: the failures are looked up by guid, so what is reported as
  failed and what has got a container are together what was requested.
\<close>

lemma request_split:
  assumes guid: "\<And>x. ar_Guid (req x) = g x" and dist: "distinct (map g xs)"
    and look: "\<And>x. x \<in> set xs \<Longrightarrow> map_of (rev gm) (g x) = Some (val x)"
  shows "\<exists>oks. set oks \<subseteq> set xs
    \<and> mset (map val xs) = mset (map val oks)
        + mset (failed_of gm (snd (alloc c t now (map req xs))))
    \<and> held (fst (alloc c t now (map req xs))) =
        held c @ map (\<lambda>x. (g x, reserved_node now (req x))) oks"
proof -
  let ?fs = "snd (alloc c t now (map req xs))"
  obtain roks where m: "mset (map req xs) = mset roks + mset (map af_AllocationRequest ?fs)"
      and nodes: "held (fst (alloc c t now (map req xs))) =
        held c @ map (\<lambda>r. (ar_Guid r, reserved_node now r)) roks"
    using answers [of "map req xs" c t now] by blast
  have sub: "set roks \<subseteq> req ` set xs" "af_AllocationRequest ` set ?fs \<subseteq> req ` set xs"
    using arg_cong [OF m, of set_mset] by auto
  define k where "k r = (THE x. x \<in> set xs \<and> g x = ar_Guid r)" for r :: AllocationRequest
  have k: "k (req x) = x" if "x \<in> set xs" for x
    unfolding k_def using that dist by (auto simp: guid distinct_map inj_on_def)
  have inv_req: "map req (map k roks) = roks"
    using sub(1) by (auto intro!: map_idI simp: k)
  have "failed_of gm ?fs = map (val \<circ> k \<circ> af_AllocationRequest) ?fs"
  proof -
    have "map_of (rev gm) (ar_Guid (af_AllocationRequest f)) = Some (val (k (af_AllocationRequest f)))"
      if "f \<in> set ?fs" for f
    proof -
      from that sub(2) obtain x where "x \<in> set xs" and "af_AllocationRequest f = req x" by blast
      then show ?thesis by (simp add: guid look k)
    qed
    then show ?thesis
      unfolding failed_of_def by (induction ?fs) (auto simp: List.map_filter_def)
  qed
  moreover have "map val xs = map (val \<circ> k) (map req xs)" by (auto simp: k)
  then have "mset (map val xs) = image_mset (val \<circ> k) (mset (map req xs))" by (metis mset_map)
  ultimately have "mset (map val xs) = mset (map val (map k roks)) + mset (failed_of gm ?fs)"
    unfolding m by (simp add: multiset.map_comp comp_def)
  moreover have "map (\<lambda>r. (ar_Guid r, reserved_node now r)) roks
      = map (\<lambda>x. (g x, reserved_node now (req x))) (map k roks)"
    by (subst inv_req [symmetric]) (simp add: guid comp_def)
  moreover have "set (map k roks) \<subseteq> set xs" using sub(1) k by auto
  ultimately show ?thesis using nodes by (intro exI [of _ "map k roks"]) simp
qed

lemma failed_of_keys:
  assumes "\<And>x. x \<in> set xs \<Longrightarrow> key x = g x" and "\<And>x. x \<in> set ys \<Longrightarrow> ar_Guid (req x) = g x"
    and "set ys \<subseteq> set xs"
  shows "mset (map key (failed_of (map (\<lambda>x. (g x, x)) xs) (snd (alloc c t now (map req ys)))))
    \<subseteq># mset (map g ys)"
proof -
  let ?gm = "map (\<lambda>x. (g x, x)) xs" and ?fs = "snd (alloc c t now (map req ys))"
  obtain oks where m: "mset (map req ys) = mset oks + mset (map af_AllocationRequest ?fs)"
    using answers [of "map req ys" c t now] by blast
  have found: "\<exists>x \<in> set xs. map_of (rev ?gm) (ar_Guid (af_AllocationRequest f)) = Some x
      \<and> key x = ar_Guid (af_AllocationRequest f)" if "f \<in> set ?fs" for f
  proof -
    have "af_AllocationRequest f \<in> req ` set ys" using arg_cong [OF m, of set_mset] that by auto
    then obtain y where "y \<in> set ys" and y: "ar_Guid (af_AllocationRequest f) = g y"
      using assms(2) by auto
    then have "g y \<in> fst ` set (rev ?gm)" using assms(3) by force
    then obtain x where x: "map_of (rev ?gm) (g y) = Some x"
      by (cases "map_of (rev ?gm) (g y)") (auto simp: map_of_eq_None_iff)
    then have "(g y, x) \<in> set (rev ?gm)" by (rule map_of_SomeD)
    with assms(1) x y show ?thesis by auto
  qed
  have "map key (failed_of ?gm ?fs) = map (ar_Guid \<circ> af_AllocationRequest) ?fs"
    unfolding failed_of_def by (rule map_filter_keys) (use found in auto)
  moreover have "mset (map ar_Guid (map req ys)) = mset (map g ys)"
    using assms(2) by (intro arg_cong [where f = mset]) auto
  moreover have "mset (map ar_Guid (map req ys))
      = image_mset ar_Guid (mset oks) + mset (map (ar_Guid \<circ> af_AllocationRequest) ?fs)"
    using arg_cong [OF m, of "image_mset ar_Guid"] by (simp add: multiset.map_comp comp_def)
  ultimately show ?thesis by simp
qed

end

lemma translate_mset:
  "mset lrps = mset (fst (translate_lrps newGuid m i lrps))
     + mset (map fst (snd (translate_lrps newGuid m i lrps)))"
  by (induction lrps arbitrary: i) (auto simp: split_beta split: option.splits sum.splits)

text \<open>What the generator of instance guids promises: no guid is handed out twice.\<close>

definition fresh_guids :: "(nat \<Rightarrow> string option) \<Rightarrow> bool" where
  "fresh_guids newGuid \<longleftrightarrow> (\<forall>i j g. newGuid i = Some g \<longrightarrow> newGuid j = Some g \<longrightarrow> i = j)"

lemma translate_guids:
  "snd ` set (snd (translate_lrps newGuid m i lrps)) \<subseteq> {g. \<exists>j\<ge>i. newGuid j = Some g}"
proof (induction lrps arbitrary: i)
  case (Cons l lrps)
  have "snd ` set (snd (translate_lrps newGuid m (Suc i) lrps)) \<subseteq> {g. \<exists>j\<ge>i. newGuid j = Some g}"
    using Cons [of "Suc i"] by (auto intro: Suc_leD)
  then show ?case by (auto simp: split_beta split: option.splits sum.splits)
qed simp

lemma translate_distinct:
  assumes "fresh_guids newGuid"
  shows "distinct (map snd (snd (translate_lrps newGuid m i lrps)))"
proof (induction lrps arbitrary: i)
  case (Cons l lrps)
  have "g \<notin> snd ` set (snd (translate_lrps newGuid m (Suc i) lrps))" if "newGuid i = Some g" for g
  proof
    assume "g \<in> snd ` set (snd (translate_lrps newGuid m (Suc i) lrps))"
    with translate_guids obtain j where "Suc i \<le> j" and "newGuid j = Some g" by blast
    with that assms show False unfolding fresh_guids_def by (metis Suc_n_not_le_n)
  qed
  with Cons [of "Suc i"] show ?case
    by (auto simp: split_beta split: option.splits sum.splits)
qed simp

lemma guid_map_look:
  assumes "distinct (map snd ok)" and "x \<in> set ok"
  shows "map_of (rev (map (\<lambda>(l, g). (LRPContainerGuid (key_ProcessGuid (lrp_Key l)) g, l)) ok)) (snd x)
    = Some (fst x)"
proof -
  have "distinct (map fst (rev (map (\<lambda>(l, g). (LRPContainerGuid (key_ProcessGuid (lrp_Key l)) g, l)) ok)))"
    using assms(1) by (simp add: LRPContainerGuid_def rev_map [symmetric] comp_def case_prod_unfold)
  moreover have "(snd x, fst x)
      \<in> set (rev (map (\<lambda>(l, g). (LRPContainerGuid (key_ProcessGuid (lrp_Key l)) g, l)) ok))"
    using assms(2) by (force simp: LRPContainerGuid_def)
  ultimately show ?thesis by (rule map_of_is_SomeI)
qed

definition lrp_node ::
  "json_codec \<Rightarrow> AuctionCellRep \<Rightarrow> int \<Rightarrow> SchedulingLRP \<times> string \<Rightarrow> string \<times> storeNode" where
  "lrp_node json a now = (\<lambda>(l, g). (g, reserved_node now
     (lrp_request json (acr_enableContainerProxy a) (acr_proxyMemoryAllocation a) l g)))"

definition task_node :: "json_codec \<Rightarrow> int \<Rightarrow> SchedulingTask \<Rightarrow> string \<times> storeNode" where
  "task_node json now t = (task_TaskGuid t, reserved_node now (task_request json t))"

lemma BatchLRP_conserves:
  assumes "fresh_guids newGuid"
    and "BatchLRPAllocationRequest json newGuid m c t now (acr_enableContainerProxy a)
           (acr_proxyMemoryAllocation a) lrps = (c', un)"
  shows "\<exists>oks. mset lrps = mset un + mset (map fst oks)
    \<and> nm_nodes (client_nodes c') = nm_nodes (client_nodes c) @ map (lrp_node json a now) oks
    \<and> (\<forall>(l, g) \<in> set oks. \<exists>i. newGuid i = Some g)"
proof -
  obtain failed ok where tr: "translate_lrps newGuid m 0 lrps = (failed, ok)" by fastforce
  let ?req = "\<lambda>(l, g). lrp_request json (acr_enableContainerProxy a) (acr_proxyMemoryAllocation a) l g"
  let ?gm = "map (\<lambda>(l, g). (LRPContainerGuid (key_ProcessGuid (lrp_Key l)) g, l)) ok"
  have dist: "distinct (map snd ok)" using translate_distinct [OF assms(1), of m 0 lrps] tr by simp
  have guid: "ar_Guid (?req x) = snd x" for x
    by (simp add: lrp_request_def NewAllocationRequest_def LRPContainerGuid_def Let_def split_beta)
  obtain oks where sub: "set oks \<subseteq> set ok"
      and oks: "mset (map fst ok) = mset (map fst oks)
        + mset (failed_of ?gm (snd (AllocateContainers c t now (map ?req ok))))"
      and nodes: "nm_nodes (client_nodes (fst (AllocateContainers c t now (map ?req ok)))) =
        nm_nodes (client_nodes c) @ map (\<lambda>x. (snd x, reserved_node now (?req x))) oks"
    using exec_alloc.request_split [of ?req snd ok ?gm fst c t now, OF guid dist guid_map_look [OF dist]] by blast
  have un: "un = failed @ failed_of ?gm (snd (AllocateContainers c t now (map ?req ok)))"
    and c': "c' = fst (AllocateContainers c t now (map ?req ok))"
    using assms(2) by (simp_all add: BatchLRPAllocationRequest_def request_containers_eq tr split_beta Let_def)
  have "mset lrps = mset failed + mset (map fst ok)" using translate_mset [of lrps newGuid m 0] tr by simp
  then have "mset lrps = mset un + mset (map fst oks)"
    using oks by (simp add: un add_ac)
  moreover have "nm_nodes (client_nodes c') = nm_nodes (client_nodes c) @ map (lrp_node json a now) oks"
    using nodes by (simp add: c' lrp_node_def split_beta)
  moreover have "\<exists>i. newGuid i = Some g" if "(l, g) \<in> set oks" for l g
    using that sub translate_guids [of newGuid m 0 lrps] tr by force
  ultimately show ?thesis by (intro exI [of _ oks]) auto
qed

lemma BatchTask_conserves:
  assumes "distinct (map task_TaskGuid tasks)"
    and "BatchTaskAllocationRequest json m c t now tasks = (c', un)"
  shows "\<exists>oks. mset tasks = mset un + mset oks
    \<and> nm_nodes (client_nodes c') = nm_nodes (client_nodes c) @ map (task_node json now) oks"
proof -
  let ?ok = "filter (task_translates m) tasks"
  let ?gm = "map (\<lambda>t. (task_TaskGuid t, t)) tasks"
  have guid: "ar_Guid (task_request json x) = task_TaskGuid x" for x
    by (simp add: task_request_def NewAllocationRequest_def)
  have look: "map_of (rev ?gm) (task_TaskGuid x) = Some x" if "x \<in> set ?ok" for x
    using assms(1) that by (auto intro!: map_of_is_SomeI simp: rev_map [symmetric] comp_def)
  obtain oks where oks: "mset (map (\<lambda>x. x) ?ok) = mset (map (\<lambda>x. x) oks)
        + mset (failed_of ?gm (snd (AllocateContainers c t now (map (task_request json) ?ok))))"
      and nodes: "nm_nodes (client_nodes (fst (AllocateContainers c t now (map (task_request json) ?ok)))) =
        nm_nodes (client_nodes c) @ map (\<lambda>x. (task_TaskGuid x, reserved_node now (task_request json x))) oks"
    using exec_alloc.request_split [of "task_request json" task_TaskGuid ?ok ?gm "\<lambda>x. x" c t now, OF guid _ look]
      assms(1) by (auto simp: distinct_map_filter)
  have "mset tasks = mset (filter (\<lambda>t. \<not> task_translates m t) tasks) + mset ?ok"
    by (induction tasks) auto
  moreover have "un = filter (\<lambda>t. \<not> task_translates m t) tasks
      @ failed_of ?gm (snd (AllocateContainers c t now (map (task_request json) ?ok)))"
    and "c' = fst (AllocateContainers c t now (map (task_request json) ?ok))"
    using assms(2) by (simp_all add: BatchTaskAllocationRequest_def request_containers_eq split_beta Let_def)
  ultimately show ?thesis
    using oks nodes unfolding task_node_def by (intro exI [of _ oks]) (simp only: map_ident mset_append ac_simps)
qed

lemma BatchTask_ids:
  assumes "BatchTaskAllocationRequest json m c t now tasks = (c', un)"
  shows "mset (map task_TaskGuid un) \<subseteq># mset (map task_TaskGuid tasks)"
proof -
  let ?ok = "filter (task_translates m) tasks"
  let ?gm = "map (\<lambda>t. (task_TaskGuid t, t)) tasks"
  let ?failed = "failed_of ?gm (snd (AllocateContainers c t now (map (task_request json) ?ok)))"
  have "mset (map task_TaskGuid ?failed) \<subseteq># mset (map task_TaskGuid ?ok)"
    by (rule exec_alloc.failed_of_keys) (auto simp: task_request_def NewAllocationRequest_def)
  moreover have "mset (map task_TaskGuid tasks)
      = mset (map task_TaskGuid (filter (\<lambda>t. \<not> task_translates m t) tasks)) + mset (map task_TaskGuid ?ok)"
    by (induction tasks) auto
  moreover have "un = filter (\<lambda>t. \<not> task_translates m t) tasks @ ?failed"
    using assms by (simp add: BatchTaskAllocationRequest_def request_containers_eq split_beta Let_def)
  ultimately show ?thesis by (simp add: subset_mset.add_mono)
qed

subsection \<open>Lemmas: Perform\<close>

lemma admit_mset: "mset lrps = mset (fst (admit_lrps a m lrps)) + mset (snd (admit_lrps a m lrps))"
  by (induction lrps arbitrary: m) (auto simp: split_beta)

lemma mset_sort_by_memory: "mset (sort_by_memory lrps) = mset lrps"
  by (simp add: sort_by_memory_def perm_simps)

lemma admit_sum:
  assumes "list_all (\<lambda>l. 0 \<le> required_memory a l) lrps" and "0 \<le> m" and "is_i32 m"
  shows "sum_list (map (required_memory a) (fst (admit_lrps a m lrps))) \<le> m"
  using assms
proof (induction lrps arbitrary: m)
  case (Cons l lrps)
  show ?case
  proof (cases "required_memory a l \<le> m")
    case True
    have r: "is_i32 (m - required_memory a l)" using Cons.prems True by (simp add: is_i32_between)
    with Cons.IH [of "m - required_memory a l"] Cons.prems True
    have "sum_list (map (required_memory a) (fst (admit_lrps a (m - required_memory a l) lrps)))
        \<le> m - required_memory a l" by simp
    with True r show ?thesis by (simp add: split_beta wrap_simps)
  next
    case False
    with Cons show ?thesis by (simp add: split_beta)
  qed
qed simp

lemma Perform_unfold:
  assumes "rep_Perform json newGuid a c t now live False work = (c', failed, None)"
  obtains un c1 ft ok fl where "admit_lrps a (i32 (ex_MemoryMB (RemainingResources live c)))
        (sort_by_memory (w_LRPs work)) = (ok, fl)"
    and "BatchLRPAllocationRequest json newGuid (acr_stackPathMap a) c t now
        (acr_enableContainerProxy a) (acr_proxyMemoryAllocation a) ok = (c1, un)"
    and "BatchTaskAllocationRequest json (acr_stackPathMap a) c1 t now (w_Tasks work) = (c', ft)"
    and "failed = empty_work\<lparr>w_LRPs := fl @ un, w_Tasks := ft\<rparr>"
proof -
  obtain ok fl where ad: "admit_lrps a (i32 (ex_MemoryMB (RemainingResources live c)))
        (sort_by_memory (w_LRPs work)) = (ok, fl)" by fastforce
  obtain c1 un where b: "BatchLRPAllocationRequest json newGuid (acr_stackPathMap a) c t now
        (acr_enableContainerProxy a) (acr_proxyMemoryAllocation a) ok = (c1, un)" by fastforce
  obtain c2 ft where d: "BatchTaskAllocationRequest json (acr_stackPathMap a) c1 t now (w_Tasks work)
      = (c2, ft)" by fastforce
  from assms have "c2 = c'" and "failed = empty_work\<lparr>w_LRPs := fl @ un, w_Tasks := ft\<rparr>"
    by (auto simp: rep_Perform_def ad b d Let_def split: if_splits)
  with that ad b d show thesis by blast
qed

lemma Perform_split:
  assumes "fresh_guids newGuid" and "distinct (map task_TaskGuid (w_Tasks work))"
    and "rep_Perform json newGuid a c t now live False work = (c', failed, None)"
  shows "\<exists>okL okT. mset (w_LRPs work) = mset (w_LRPs failed) + mset (map fst okL)
    \<and> mset (w_Tasks work) = mset (w_Tasks failed) + mset okT
    \<and> nm_nodes (client_nodes c') =
        nm_nodes (client_nodes c) @ map (lrp_node json a now) okL @ map (task_node json now) okT
    \<and> (\<forall>(l, g) \<in> set okL. \<exists>i. newGuid i = Some g)"
proof -
  obtain un c1 ft ok fl where ad: "admit_lrps a (i32 (ex_MemoryMB (RemainingResources live c)))
        (sort_by_memory (w_LRPs work)) = (ok, fl)"
    and b: "BatchLRPAllocationRequest json newGuid (acr_stackPathMap a) c t now
        (acr_enableContainerProxy a) (acr_proxyMemoryAllocation a) ok = (c1, un)"
    and d: "BatchTaskAllocationRequest json (acr_stackPathMap a) c1 t now (w_Tasks work) = (c', ft)"
    and f: "failed = empty_work\<lparr>w_LRPs := fl @ un, w_Tasks := ft\<rparr>"
    using assms(3) by (rule Perform_unfold)
  obtain okL where L: "mset ok = mset un + mset (map fst okL)"
      "nm_nodes (client_nodes c1) = nm_nodes (client_nodes c) @ map (lrp_node json a now) okL"
      "\<forall>(l, g) \<in> set okL. \<exists>i. newGuid i = Some g"
    using BatchLRP_conserves [OF assms(1) b] by blast
  obtain okT where T: "mset (w_Tasks work) = mset ft + mset okT"
      "nm_nodes (client_nodes c') = nm_nodes (client_nodes c1) @ map (task_node json now) okT"
    using BatchTask_conserves [OF assms(2) d] by blast
  have "mset (w_LRPs work) = mset ok + mset fl"
    using admit_mset [of "sort_by_memory (w_LRPs work)" a "i32 (ex_MemoryMB (RemainingResources live c))"]
    by (simp add: ad mset_sort_by_memory)
  with L T f show ?thesis by (intro exI [of _ okL] exI [of _ okT]) simp
qed

subsection \<open>Properties: Perform\<close>

text \<open>
  C20. \<open>Perform\<close> loses nothing and duplicates nothing: the LRPs and tasks of the work are, with their
  multiplicities, those it returns and those it has added a reserved container for; the
  containers that the cell held before stay as they were.
\<close>

theorem Perform_places_or_returns:
  assumes "fresh_guids newGuid" and "distinct (map task_TaskGuid (w_Tasks work))"
    and "rep_Perform json newGuid a c t now live False work = (c', failed, None)"
  shows "\<exists>okL okT. mset (w_LRPs work) = mset (w_LRPs failed) + mset (map fst okL)
    \<and> mset (w_Tasks work) = mset (w_Tasks failed) + mset okT
    \<and> nm_nodes (client_nodes c') =
        nm_nodes (client_nodes c) @ map (lrp_node json a now) okL @ map (task_node json now) okT"
  using Perform_split [OF assms] by blast

text \<open>
  A codec and a rep to run: characters are marked with an \<open>x\<close>, and an \<open>y\<close> ends a string.
\<close>

definition mark_string :: "string \<Rightarrow> string" where
  "mark_string s = concat (map (\<lambda>c. [CHR ''x'', c]) s) @ ''y''"

fun unmark :: "string \<Rightarrow> string \<Rightarrow> string list option" where
  "unmark acc [] = (if acc = [] then Some [] else None)"
| "unmark acc (x # s) =
     (if x = CHR ''y'' then map_option ((#) acc) (unmark [] s)
      else case s of [] \<Rightarrow> None | c # r \<Rightarrow> unmark (acc @ [c]) r)"

definition mark_codec :: json_codec where
  "mark_codec = \<lparr>jc_Marshal = (\<lambda>xs. concat (map mark_string xs)), jc_Unmarshal = unmark []\<rparr>"

lemma unmark_string: "unmark acc (mark_string s @ r) = map_option ((#) (acc @ s)) (unmark [] r)"
  by (induction s arbitrary: acc) (auto simp: mark_string_def)

lemma unmark_marshal: "unmark [] (concat (map mark_string xs)) = Some xs"
  by (induction xs) (simp_all add: unmark_string)

definition tally_guid :: "nat \<Rightarrow> string option" where
  "tally_guid i = Some (replicate (Suc i) (CHR ''g''))"

lemma fresh_tally: "fresh_guids tally_guid"
  by (auto simp: fresh_guids_def tally_guid_def dest: arg_cong [where f = length])

definition demo_rep :: AuctionCellRep where
  "demo_rep = NewAuctionCellRep ''cell'' 0 [] [(''linux'', ''/linux.tar'')] [''docker''] ''z1'' [] [] 4 True"

definition demo_work :: Work where
  "demo_work = empty_work\<lparr>
     w_LRPs := [NewSchedulingLRP [] (NewActualLRPKey ''app'' 0 ''d'') (NewResource 60 10 1)
                  \<lparr>pc_PlacementTags = [''t''], pc_VolumeDrivers = [], pc_RootFs = ''docker:img''\<rparr>,
                NewSchedulingLRP [] (NewActualLRPKey ''app'' 1 ''d'') (NewResource 70 10 1)
                  \<lparr>pc_PlacementTags = [], pc_VolumeDrivers = [], pc_RootFs = ''docker:img''\<rparr>],
     w_Tasks := [NewSchedulingTask ''task'' ''d'' (NewResource 5 1 1)
                  \<lparr>pc_PlacementTags = [], pc_VolumeDrivers = [], pc_RootFs = ''docker:img''\<rparr>]\<rparr>"

definition demo_result :: "exec_client \<times> Work \<times> perform_error option" where
  "demo_result = rep_Perform mark_codec tally_guid demo_rep (NewClient small_cell life_config) [] 0 None
     False demo_work"

lemma demo_no_error: "snd (snd demo_result) = None"
  by (simp add: demo_result_def rep_Perform_def demo_work_def empty_work_def split_beta Let_def)

theorem Perform_places_or_returns_witness:
  "\<exists>okL okT. mset (w_LRPs demo_work) = mset (w_LRPs (fst (snd demo_result))) + mset (map fst okL)
    \<and> mset (w_Tasks demo_work) = mset (w_Tasks (fst (snd demo_result))) + mset okT
    \<and> nm_nodes (client_nodes (fst demo_result)) =
        nm_nodes (client_nodes (NewClient small_cell life_config))
        @ map (lrp_node mark_codec demo_rep 0) okL @ map (task_node mark_codec 0) okT"
proof (rule Perform_places_or_returns [OF fresh_tally, where t = "[]" and live = None])
  show "distinct (map task_TaskGuid (w_Tasks demo_work))"
    by (simp add: demo_work_def NewSchedulingTask_def)
  show "rep_Perform mark_codec tally_guid demo_rep (NewClient small_cell life_config) [] 0 None False demo_work
      = (fst demo_result, fst (snd demo_result), None)"
    using demo_no_error by (simp add: demo_result_def prod_eq_iff)
qed

text \<open>
  The LRPs that \<open>Perform\<close> passes to the allocator fit together: the memory they need with their
  proxies is at most what the executor has left.
\<close>

theorem admitted_within_memory:
  assumes "list_all (\<lambda>l. 0 \<le> required_memory a l) lrps" and "0 \<le> m" and "is_i32 m"
  shows "sum_list (map (required_memory a) (fst (admit_lrps a m (sort_by_memory lrps)))) \<le> m"
  by (rule admit_sum) (use assms in \<open>simp_all add: list_all_iff sort_by_memory_def\<close>)

theorem admitted_within_memory_witness:
  "sum_list (map (required_memory demo_rep) (fst (admit_lrps demo_rep 100 (sort_by_memory (w_LRPs demo_work))))) \<le> 100"
  by (rule admitted_within_memory)
     (simp_all add: demo_work_def demo_rep_def NewAuctionCellRep_def required_memory_def NewSchedulingLRP_def
        NewResource_def empty_work_def i32_def is_i32_def)

subsection \<open>Properties: State\<close>

text \<open>What the JSON codec promises for lists of strings.\<close>

definition json_ok :: "json_codec \<Rightarrow> bool" where
  "json_ok json \<longleftrightarrow> (\<forall>xs. jc_Unmarshal json (jc_Marshal json xs) = Some xs)"

definition key_ok :: "ActualLRPKey \<Rightarrow> bool" where
  "key_ok key \<longleftrightarrow> ActualLRPKey_Validate key = [] \<and> is_i32 (key_Index key)"

lemma key_from_tags:
  assumes "key_ok (lrp_Key l)"
  shows "ActualLRPKeyFromTags (buildLRPTags json l g) = Inr (lrp_Key l)"
proof -
  let ?i = "key_Index (lrp_Key l)"
  have "is_i32 ?i" and v: "ActualLRPKey_Validate (lrp_Key l) = []" using assms by (simp_all add: key_ok_def)
  then have "\<not> 2 ^ 31 - 1 < ?i" and "i32 ?i = ?i" by (simp_all add: is_i32_def wrap_simps)
  moreover have "atoi (itoa ?i) = Some ?i" using \<open>is_i32 ?i\<close> by (intro atoi_itoa is_i32_le_i64)
  moreover have "NewActualLRPKey (key_ProcessGuid (lrp_Key l)) ?i (key_Domain (lrp_Key l)) = lrp_Key l"
    by (simp add: NewActualLRPKey_def)
  ultimately show ?thesis
    using v by (simp add: ActualLRPKeyFromTags_def buildLRPTags_def tags_get_def Let_def)
qed

lemma reserved_Info:
  "co_Tags (Info (reserved_node now r)) = Tags_Copy (ar_Tags r)"
  "co_State (Info (reserved_node now r)) = StateReserved"
  "co_Guid (Info (reserved_node now r)) = ar_Guid r"
  by (simp_all add: Info_def reserved_node_def newStoreNode_def Container_Copy_def
      NewReservedContainerFromAllocationRequest_def NewContainerFromResource_def)

lemma copy_LRPTags: "Tags_Copy (buildLRPTags json l g) = buildLRPTags json l g"
  by (simp add: Tags_Copy_def map_add_all_def buildLRPTags_def)

lemma lrp_request_tags: "ar_Tags (lrp_request json p m l g) = buildLRPTags json l g"
  by (simp add: lrp_request_def NewAllocationRequest_def Let_def)

lemma lrp_node_reported:
  assumes "key_ok (lrp_Key l)" and "json_ok json" and "g \<noteq> []" and "acr_cellID a \<noteq> []"
  shows "\<exists>l'. container_report json a (Info (snd (lrp_node json a now (l, g)))) = Some (Inl l')
    \<and> lrp_Key l' = lrp_Key l \<and> lrp_InstanceGUID l' = g \<and> lrp_State l' = ''CLAIMED''
    \<and> pc_PlacementTags (lrp_Constraint l') = pc_PlacementTags (lrp_Constraint l)
    \<and> pc_VolumeDrivers (lrp_Constraint l') = pc_VolumeDrivers (lrp_Constraint l)"
proof -
  let ?c = "Info (snd (lrp_node json a now (l, g)))"
  have tags: "co_Tags ?c = buildLRPTags json l g" and st: "co_State ?c = StateReserved"
    by (simp_all add: lrp_node_def reserved_Info lrp_request_tags copy_LRPTags)
  have key: "ActualLRPKeyFromTags (co_Tags ?c) = Inr (lrp_Key l)"
    unfolding tags by (rule key_from_tags [OF assms(1)])
  have ikey: "ActualLRPInstanceKeyFromContainer ?c (acr_cellID a)
      = Inr \<lparr>ikey_InstanceGuid = g, ikey_CellId = acr_cellID a\<rparr>"
    using assms(3,4)
    by (simp add: ActualLRPInstanceKeyFromContainer_def tags buildLRPTags_def tags_get_def Let_def
        ActualLRPInstanceKey_Validate_def)
  have cons: "pc_PlacementTags (container_constraint json a ?c) = pc_PlacementTags (lrp_Constraint l)"
      "pc_VolumeDrivers (container_constraint json a ?c) = pc_VolumeDrivers (lrp_Constraint l)"
    using assms(2)
    by (simp_all add: container_constraint_def tags buildLRPTags_def tags_get_def unmarshal_list_def
        json_ok_def)
  have "co_Tags ?c \<noteq> None" "tags_get (co_Tags ?c) ''lifecycle'' = ''lrp''"
    by (simp_all add: tags buildLRPTags_def tags_get_def)
  then have "container_report json a ?c = Some (Inl ((NewSchedulingLRP g (lrp_Key l) (container_resource ?c)
      (container_constraint json a ?c))\<lparr>lrp_State := lrp_state ?c\<rparr>))"
    unfolding container_report_def key ikey by simp
  then show ?thesis by (simp add: NewSchedulingLRP_def cons lrp_state_def st)
qed

lemma State_LRPs:
  assumes "rep_State json a c (Inr drivers) live ev = Inr (st, h)"
    and "(g, n) \<in> set (nm_nodes (client_nodes c))" and "container_report json a (Info n) = Some (Inl l)"
  shows "l \<in> set (cs_LRPs st)"
proof -
  have "Info n \<in> set (ListContainers c)"
    using assms(2) by (force simp: ListContainers_def store_List_def nodeMap_List_def)
  then have "Inl l \<in> set (State_reports json a (ListContainers c))"
    using assms(3) by (force simp: State_reports_def List.map_filter_def)
  then show ?thesis using assms(1) by (force simp: rep_State_def Let_def List.map_filter_def)
qed

text \<open>
  C21. What the auctioneer sent comes back in the next state of the cell: after \<open>Perform\<close> every LRP of
  the work is returned as failed, or \<open>State\<close> reports an LRP with the same process guid, index and
  domain, claimed, with the same placement tags and volume drivers.
\<close>

theorem accepted_work_reported:
  assumes "fresh_guids newGuid" and "\<And>i. newGuid i \<noteq> Some []" and "json_ok json"
    and "acr_cellID a \<noteq> []" and "list_all (\<lambda>l. key_ok (lrp_Key l)) (w_LRPs work)"
    and "distinct (map task_TaskGuid (w_Tasks work))"
    and "rep_Perform json newGuid a c t now live False work = (c', failed, None)"
    and "rep_State json a c' (Inr drivers) live' ev = Inr (st, h)"
  shows "list_all (\<lambda>l. l \<in> set (w_LRPs failed) \<or>
      list_ex (\<lambda>l'. lrp_Key l' = lrp_Key l \<and> lrp_State l' = ''CLAIMED''
        \<and> pc_PlacementTags (lrp_Constraint l') = pc_PlacementTags (lrp_Constraint l)
        \<and> pc_VolumeDrivers (lrp_Constraint l') = pc_VolumeDrivers (lrp_Constraint l)) (cs_LRPs st))
    (w_LRPs work)"
  unfolding list_all_iff
proof
  obtain okL okT where m: "mset (w_LRPs work) = mset (w_LRPs failed) + mset (map fst okL)"
      and nodes: "nm_nodes (client_nodes c') =
        nm_nodes (client_nodes c) @ map (lrp_node json a now) okL @ map (task_node json now) okT"
      and guids: "\<forall>(l, g) \<in> set okL. \<exists>i. newGuid i = Some g"
    using Perform_split [OF assms(1,6,7)] by blast
  fix l assume l: "l \<in> set (w_LRPs work)"
  then have "l \<in> set (w_LRPs failed) \<or> l \<in> fst ` set okL"
    using arg_cong [OF m, of set_mset] by auto
  then show "l \<in> set (w_LRPs failed) \<or>
      list_ex (\<lambda>l'. lrp_Key l' = lrp_Key l \<and> lrp_State l' = ''CLAIMED''
        \<and> pc_PlacementTags (lrp_Constraint l') = pc_PlacementTags (lrp_Constraint l)
        \<and> pc_VolumeDrivers (lrp_Constraint l') = pc_VolumeDrivers (lrp_Constraint l)) (cs_LRPs st)"
  proof
    assume "l \<in> fst ` set okL"
    then obtain g where g: "(l, g) \<in> set okL" by force
    with guids assms(2) have "g \<noteq> []" by fastforce
    have "key_ok (lrp_Key l)" using assms(5) l by (simp add: list_all_iff)
    from lrp_node_reported [OF this assms(3) \<open>g \<noteq> []\<close> assms(4), of now]
    obtain l' where rep: "container_report json a (Info (snd (lrp_node json a now (l, g)))) = Some (Inl l')"
        and l': "lrp_Key l' = lrp_Key l" "lrp_State l' = ''CLAIMED''"
          "pc_PlacementTags (lrp_Constraint l') = pc_PlacementTags (lrp_Constraint l)"
          "pc_VolumeDrivers (lrp_Constraint l') = pc_VolumeDrivers (lrp_Constraint l)" by blast
    have "(fst (lrp_node json a now (l, g)), snd (lrp_node json a now (l, g))) \<in> set (nm_nodes (client_nodes c'))"
      using g by (force simp: nodes)
    from State_LRPs [OF assms(8) this rep] l' show ?thesis by (auto simp: list_ex_iff)
  qed simp
qed

theorem accepted_work_reported_witness:
  "(case rep_State mark_codec demo_rep (fst demo_result) (Inr []) None False of
      Inl e \<Rightarrow> False
    | Inr (st, h) \<Rightarrow>
        list_all (\<lambda>l. l \<in> set (w_LRPs (fst (snd demo_result))) \<or>
          list_ex (\<lambda>l'. lrp_Key l' = lrp_Key l \<and> lrp_State l' = ''CLAIMED''
            \<and> pc_PlacementTags (lrp_Constraint l') = pc_PlacementTags (lrp_Constraint l)
            \<and> pc_VolumeDrivers (lrp_Constraint l') = pc_VolumeDrivers (lrp_Constraint l)) (cs_LRPs st))
        (w_LRPs demo_work))"
proof -
  obtain st h where st: "rep_State mark_codec demo_rep (fst demo_result) (Inr []) None False = Inr (st, h)"
    by (simp add: rep_State_def Let_def)
  have run: "rep_Perform mark_codec tally_guid demo_rep (NewClient small_cell life_config) [] 0 None False demo_work
      = (fst demo_result, fst (snd demo_result), None)"
    using demo_no_error by (simp add: demo_result_def prod_eq_iff)
  have "json_ok mark_codec" by (simp add: json_ok_def mark_codec_def unmark_marshal)
  moreover have "acr_cellID demo_rep \<noteq> []" by (simp add: demo_rep_def NewAuctionCellRep_def)
  moreover have "list_all (\<lambda>l. key_ok (lrp_Key l)) (w_LRPs demo_work)"
    by (simp add: demo_work_def key_ok_def NewSchedulingLRP_def NewActualLRPKey_def
        ActualLRPKey_Validate_def is_i32_def empty_work_def)
  moreover have "distinct (map task_TaskGuid (w_Tasks demo_work))"
    by (simp add: demo_work_def NewSchedulingTask_def)
  ultimately show ?thesis
    using accepted_work_reported [OF fresh_tally _ _ _ _ _ run st] by (simp add: st tally_guid_def)
qed

text \<open>
  A process index below the range of 32 bits is not refused: only the upper end is checked before
  the conversion, so the tag of index -4294967295 is read as the valid index 1.
\<close>

theorem process_index_wraps:
  "ActualLRPKeyFromTags (Some [(''process-guid'', ''app''), (''process-index'', ''-4294967295''),
      (''domain'', ''d'')])
   = Inr (NewActualLRPKey ''app'' 1 ''d'')"
proof -
  have "''-4294967295'' = itoa (- 4294967295)" by code_simp
  then have "atoi ''-4294967295'' = Some (- 4294967295)"
    using atoi_itoa [of "- 4294967295"] by (simp add: is_i64_def)
  then show ?thesis
    by (simp add: ActualLRPKeyFromTags_def tags_get_def i32_def ActualLRPKey_Validate_def NewActualLRPKey_def)
qed

subsection \<open>Properties: root file systems\<close>

definition plain_path :: "string \<Rightarrow> bool" where
  "plain_path v \<longleftrightarrow> has_prefix ''/'' v \<and> \<not> has_prefix ''//'' v \<and> \<not> contains_ctl v
     \<and> CHR ''%'' \<notin> set v \<and> CHR ''#'' \<notin> set v \<and> CHR ''?'' \<notin> set v"

definition stack_name :: "string \<Rightarrow> bool" where
  "stack_name k \<longleftrightarrow> \<not> has_prefix ''/'' k \<and> \<not> contains_ctl k \<and> CHR ''#'' \<notin> set k \<and> CHR ''?'' \<notin> set k"

lemma unescape_plain: "CHR ''%'' \<notin> set s \<Longrightarrow> unescape EncodePath s = Some s"
  by (induction s) (auto simp: host_like_def)

lemma plain_path_Cons:
  assumes "plain_path v"
  obtains r where "v = CHR ''/'' # r"
  using assms by (cases v) (auto simp: plain_path_def has_prefix_def)

lemma parse_rest_plain:
  assumes "plain_path v"
  shows "parse_rest scheme v q = Some \<lparr>Scheme = scheme, Opaque = [], Path = v, RawQuery = q\<rparr>"
  using assms by (simp add: parse_rest_def plain_path_def unescape_plain)

lemma url_Parse_path:
  assumes "plain_path v"
  shows "url_Parse v = Some \<lparr>Scheme = [], Opaque = [], Path = v, RawQuery = []\<rparr>"
proof -
  obtain r where v: "v = CHR ''/'' # r" using assms by (rule plain_path_Cons)
  have "get_scheme v = Some ([], v)"
    by (simp add: get_scheme_def v is_letter_def is_digit_def code_def)
  moreover have "v \<noteq> ''*''" by (simp add: v)
  moreover have "cut (CHR ''#'') v = (v, [])" and "split_query v = (v, [])" and "\<not> contains_ctl v"
    using assms by (simp_all add: plain_path_def cut_none split_query_none)
  ultimately show ?thesis
    using parse_rest_plain [OF assms, of "[]" "[]"] by (simp add: url_Parse_def parse_no_fragment_def)
qed

lemma split_query_once:
  assumes "CHR ''?'' \<notin> set s" and "q \<noteq> []"
  shows "split_query (s @ ''?'' @ q) = (s, q)"
proof -
  let ?r = "s @ ''?'' @ q"
  have "\<not> (last ?r = CHR ''?'' \<and> length (filter (\<lambda>c. c = CHR ''?'') ?r) = 1)"
  proof
    assume a: "last ?r = CHR ''?'' \<and> length (filter (\<lambda>c. c = CHR ''?'') ?r) = 1"
    with assms(2) have "CHR ''?'' \<in> set q" by (metis append_is_Nil_conv last_appendR last_in_set)
    then have "filter (\<lambda>c. c = CHR ''?'') q \<noteq> []" by (auto simp: filter_empty_conv)
    with a show False by simp
  qed
  then have "split_query ?r = cut (CHR ''?'') ?r" by (auto simp: split_query_def)
  then show ?thesis using assms(1) by (simp add: cut_def)
qed

lemma url_Parse_layer_path:
  assumes "plain_path v" and "q \<noteq> []" and "CHR ''#'' \<notin> set q" and "\<not> contains_ctl q"
  shows "url_Parse (''preloaded+layer:'' @ v @ ''?'' @ q) =
           Some \<lparr>Scheme = ''preloaded+layer'', Opaque = [], Path = v, RawQuery = q\<rparr>"
proof -
  let ?r = "v @ ''?'' @ q"
  have "get_scheme (''preloaded+layer:'' @ ?r) = Some (''preloaded+layer'', ?r)"
    by (simp add: get_scheme_def is_letter_def is_digit_def code_def)
  moreover have "\<not> contains_ctl (''preloaded+layer:'' @ ?r)"
    using assms by (auto simp: contains_ctl_def code_def plain_path_def)
  moreover have "cut (CHR ''#'') (''preloaded+layer:'' @ ?r) = (''preloaded+layer:'' @ ?r, [])"
    using assms by (simp add: cut_none plain_path_def)
  moreover have "split_query ?r = (v, q)"
    by (rule split_query_once) (use assms in \<open>simp_all add: plain_path_def\<close>)
  ultimately show ?thesis
    using parse_rest_plain [OF assms(1), of "''preloaded+layer''" q]
    by (simp add: url_Parse_def parse_no_fragment_def)
qed

lemma find_stack_path:
  assumes "(k, v) \<in> set m" and "distinct (map snd m)" and "Path u = v"
  shows "find_stack v u m = ''preloaded:'' @ k"
  using assms by (induction m) (auto simp: image_iff split: if_splits)

lemma find_stack_layer:
  assumes "(k, v) \<in> set m" and "distinct (map snd m)" and "p \<notin> snd ` set m" and "Path u = v"
  shows "find_stack p u m = ''preloaded+layer:'' @ k @ ''?'' @ RawQuery u"
  using assms by (induction m) (auto simp: image_iff split: if_splits)

text \<open>
  A preloaded root file system, with or without a layer on top, survives the way to the cell and
  back: \<open>PathForRootFS\<close> finds a path for it, and \<open>rootFSURLFromPath\<close>, with which \<open>State\<close> reports the
  containers, turns that path into the root file system that was asked for.
\<close>

theorem rootfs_roundtrip:
  assumes "map_of m k = Some v" and "distinct (map snd m)" and "list_all plain_path (map snd m)"
    and "stack_name k" and "q \<noteq> []" and "CHR ''#'' \<notin> set q" and "\<not> contains_ctl q"
  shows "(case PathForRootFS m (''preloaded:'' @ k) of
            Inl e \<Rightarrow> False | Inr path \<Rightarrow> rootFSURLFromPath path m = ''preloaded:'' @ k)
    \<and> (case PathForRootFS m (''preloaded+layer:'' @ k @ ''?'' @ q) of
            Inl e \<Rightarrow> False | Inr path \<Rightarrow> rootFSURLFromPath path m = ''preloaded+layer:'' @ k @ ''?'' @ q)"
proof
  have mem: "(k, v) \<in> set m" using assms(1) by (rule map_of_SomeD)
  with assms(3) have plain: "plain_path v" by (force simp: list_all_iff)
  have "PathForRootFS m (''preloaded:'' @ k) = Inr v"
    using assms(1,4) by (simp add: PathForRootFS_def url_Parse_preloaded [simplified] stack_name_def)
  moreover have "rootFSURLFromPath v m = ''preloaded:'' @ k"
    using find_stack_path [OF mem assms(2)] by (simp add: rootFSURLFromPath_def url_Parse_path [OF plain])
  ultimately show "case PathForRootFS m (''preloaded:'' @ k) of
      Inl e \<Rightarrow> False | Inr path \<Rightarrow> rootFSURLFromPath path m = ''preloaded:'' @ k" by simp
  let ?p = "''preloaded+layer:'' @ v @ ''?'' @ q"
  have "PathForRootFS m (''preloaded+layer:'' @ k @ ''?'' @ q) = Inr ?p"
    using assms(1,4-7)
    by (simp add: PathForRootFS_def url_Parse_preloaded_layer [simplified] stack_name_def)
  moreover have "?p \<notin> snd ` set m"
    using assms(3) by (auto simp: list_all_iff plain_path_def has_prefix_def dest!: bspec)
  then have "rootFSURLFromPath ?p m = ''preloaded+layer:'' @ k @ ''?'' @ q"
    using find_stack_layer [OF mem assms(2), of ?p]
    by (simp add: rootFSURLFromPath_def url_Parse_layer_path [OF plain assms(5-7), simplified])
  ultimately show "case PathForRootFS m (''preloaded+layer:'' @ k @ ''?'' @ q) of
      Inl e \<Rightarrow> False | Inr path \<Rightarrow> rootFSURLFromPath path m = ''preloaded+layer:'' @ k @ ''?'' @ q" by simp
qed

theorem rootfs_roundtrip_witness:
  "case PathForRootFS [(''linux'', ''/linux.tar'')] ''preloaded:linux'' of
     Inl e \<Rightarrow> False | Inr path \<Rightarrow> rootFSURLFromPath path [(''linux'', ''/linux.tar'')] = ''preloaded:linux''"
proof -
  have "list_all plain_path (map snd [(''linux'', ''/linux.tar'')])" and "stack_name ''linux''"
    by (simp_all add: plain_path_def stack_name_def has_prefix_def contains_ctl_def code_def)
  then show ?thesis
    using rootfs_roundtrip [of "[(''linux'', ''/linux.tar'')]" "''linux''" "''/linux.tar''" "''l''"]
    by (simp add: contains_ctl_def code_def split: sum.splits)
qed

end
