(* ===== verification/Rep_Handlers.thy ===== *)
theory Rep_Handlers
  imports Rep_Properties
begin

section \<open>The rep on the network (rep/handlers, rep/client.go, rep/evacuation/evacuation\_context)\<close>

text \<open>
  The HTTP handlers of a rep, its dispatch of routes, and the client with which the auctioneer and
  the bbs call it. A handler maps the state of the rep, the parameters of the route and the body of
  the request to a new state and a response. Bodies are values of an arbitrary type; the JSON codecs
  between them and the model's records are the fields of \<open>wire\<close>. What a request meets on the cell
  (clock, drivers, guids, garden) is the record \<open>site_env\<close>. Request metrics and logs are left out.
\<close>

subsection \<open>Evacuation context\<close>

text \<open>The channel \<open>evacuated\<close> is closed or not; closing it is the only event.\<close>

record evacuationContext =
  ec_evacuated :: bool

definition evacuation_New :: evacuationContext where
  "evacuation_New = \<lparr>ec_evacuated = False\<rparr>"

definition Evacuate :: "evacuationContext \<Rightarrow> evacuationContext" where
  "Evacuate e = (if ec_evacuated e then e else e\<lparr>ec_evacuated := True\<rparr>)"

definition Evacuating :: "evacuationContext \<Rightarrow> bool" where
  "Evacuating e = (if ec_evacuated e then True else False)"

subsection \<open>Requests and responses\<close>

record 'b http_response =
  hr_StatusCode :: int
  hr_Body :: "'b option"

record LRPUpdate =
  lu_InstanceGUID :: string
  lu_Key :: ActualLRPKey
  lu_InternalRoutes :: "string list option"
  lu_MetricTags :: Tags

definition NewLRPUpdate :: "string \<Rightarrow> ActualLRPKey \<Rightarrow> string list option \<Rightarrow> Tags \<Rightarrow> LRPUpdate" where
  "NewLRPUpdate instanceGUID key internalRoutes metricTags =
     \<lparr>lu_InstanceGUID = instanceGUID, lu_Key = key, lu_InternalRoutes = internalRoutes,
      lu_MetricTags = metricTags\<rparr>"

record 'b wire =
  wi_MarshalWork :: "Work \<Rightarrow> 'b option"
  wi_UnmarshalWork :: "'b \<Rightarrow> Work option"
  wi_MarshalState :: "CellState \<Rightarrow> 'b option"
  wi_UnmarshalState :: "'b \<Rightarrow> CellState option"
  wi_MarshalUpdate :: "LRPUpdate \<Rightarrow> 'b option"
  wi_UnmarshalUpdate :: "'b \<Rightarrow> LRPUpdate option"
  wi_MarshalMetrics :: "string LRPMetric list \<times> string TaskMetric list \<Rightarrow> 'b option"

text \<open>What is relied on of JSON: what one side encodes, the other decodes.\<close>

definition wire_ok :: "'b wire \<Rightarrow> bool" where
  "wire_ok w \<longleftrightarrow>
     (\<forall>x b. wi_MarshalWork w x = Some b \<longrightarrow> wi_UnmarshalWork w b = Some x)
   \<and> (\<forall>x b. wi_MarshalState w x = Some b \<longrightarrow> wi_UnmarshalState w b = Some x)
   \<and> (\<forall>x b. wi_MarshalUpdate w x = Some b \<longrightarrow> wi_UnmarshalUpdate w b = Some x)"

record site_env =
  se_json :: json_codec
  se_newGuid :: "nat \<Rightarrow> string option"
  se_now :: int
  se_liveDiskMB :: "int option"
  se_listDrivers :: "string + string list"
  se_node :: node_env
  se_exitErr :: run_error
  se_cachedMetrics :: "(string \<times> string) list"

record rep_site =
  rs_rep :: AuctionCellRep
  rs_client :: exec_client
  rs_evacuation :: evacuationContext

definition FormValue :: "str_map \<Rightarrow> string \<Rightarrow> string" where
  "FormValue params k = (case map_of params k of None \<Rightarrow> [] | Some v \<Rightarrow> v)"

abbreviation status :: "int \<Rightarrow> 'b http_response" where
  "status n \<equiv> \<lparr>hr_StatusCode = n, hr_Body = None\<rparr>"

subsection \<open>Handlers\<close>

definition perform_ServeHTTP ::
  "'b wire \<Rightarrow> site_env \<Rightarrow> string \<Rightarrow> 'b option \<Rightarrow> rep_site \<Rightarrow> rep_site \<times> 'b http_response" where
  "perform_ServeHTTP w env traceID body s =
     (case Option.bind body (wi_UnmarshalWork w) of
        None \<Rightarrow> (s, status 400)
      | Some work \<Rightarrow>
          (case rep_Perform (se_json env) (se_newGuid env) (rs_rep s) (rs_client s) traceID (se_now env)
                  (se_liveDiskMB env) (Evacuating (rs_evacuation s)) work of
             (client, failedWork, Some e) \<Rightarrow> (s\<lparr>rs_client := client\<rparr>, status 500)
           | (client, failedWork, None) \<Rightarrow>
               (s\<lparr>rs_client := client\<rparr>, \<lparr>hr_StatusCode = 200, hr_Body = wi_MarshalWork w failedWork\<rparr>)))"

definition state_ServeHTTP :: "'b wire \<Rightarrow> site_env \<Rightarrow> rep_site \<Rightarrow> 'b http_response" where
  "state_ServeHTTP w env s =
     (case rep_State (se_json env) (rs_rep s) (rs_client s) (se_listDrivers env) (se_liveDiskMB env)
             (Evacuating (rs_evacuation s)) of
        Inl e \<Rightarrow> status 500
      | Inr (state, healthy) \<Rightarrow>
          \<lparr>hr_StatusCode = (if healthy then 200 else 503), hr_Body = wi_MarshalState w state\<rparr>)"

definition stopLRP_ServeHTTP :: "string \<Rightarrow> str_map \<Rightarrow> rep_site \<Rightarrow> rep_site \<times> 'b http_response" where
  "stopLRP_ServeHTTP traceID params s =
     (let processGuid = FormValue params '':process_guid'';
          instanceGuid = FormValue params '':instance_guid''
      in if processGuid = [] then (s, status 400)
         else if instanceGuid = [] then (s, status 400)
         else case StopContainer (rs_client s) traceID (LRPContainerGuid processGuid instanceGuid) of
             (client, Some e) \<Rightarrow> (s\<lparr>rs_client := client\<rparr>, status 500)
           | (client, None) \<Rightarrow> (s\<lparr>rs_client := client\<rparr>, status 202))"

text \<open>The deletion runs after the response has been sent; its outcome does not change it.\<close>

definition cancelTask_ServeHTTP ::
  "site_env \<Rightarrow> string \<Rightarrow> str_map \<Rightarrow> rep_site \<Rightarrow> rep_site \<times> 'b http_response" where
  "cancelTask_ServeHTTP env traceID params s =
     (let (client, err) = DeleteContainer (se_node env) (rs_client s) traceID
            (FormValue params '':task_guid'') (se_exitErr env)
      in (s\<lparr>rs_client := client\<rparr>, status 202))"

text \<open>\<open>None\<close> is a handler that blocks on the lock of the container.\<close>

definition updateLRP_ServeHTTP ::
  "'b wire \<Rightarrow> site_env \<Rightarrow> str_map \<Rightarrow> 'b option \<Rightarrow> rep_site \<Rightarrow> (rep_site \<times> 'b http_response) option" where
  "updateLRP_ServeHTTP w env params body s =
     (let processGuid = FormValue params '':process_guid'';
          instanceGuid = FormValue params '':instance_guid''
      in if processGuid = [] then Some (s, status 400)
         else if instanceGuid = [] then Some (s, status 400)
         else case Option.bind body (wi_UnmarshalUpdate w) of
             None \<Rightarrow> Some (s, status 400)
           | Some lrpUpdate \<Rightarrow>
               (case UpdateContainer (se_node env) (rs_client s)
                       (NewUpdateRequest (LRPContainerGuid processGuid instanceGuid)
                          (lu_InternalRoutes lrpUpdate) (lu_MetricTags lrpUpdate)) of
                  None \<Rightarrow> None
                | Some (client, Some e) \<Rightarrow> Some (s\<lparr>rs_client := client\<rparr>, status 500)
                | Some (client, None) \<Rightarrow> Some (s\<lparr>rs_client := client\<rparr>, status 202)))"

definition evacuation_ServeHTTP :: "rep_site \<Rightarrow> rep_site \<times> 'b http_response" where
  "evacuation_ServeHTTP s = (s\<lparr>rs_evacuation := Evacuate (rs_evacuation s)\<rparr>, status 202)"

definition ping_ServeHTTP :: "'b http_response" where
  "ping_ServeHTTP = status 200"

definition health_ServeHTTP :: "rep_site \<Rightarrow> 'b http_response" where
  "health_ServeHTTP s = (if \<not> cl_healthy (rs_client s) then status 503 else status 200)"

definition containerMetrics_ServeHTTP :: "'b wire \<Rightarrow> site_env \<Rightarrow> rep_site \<Rightarrow> 'b http_response" where
  "containerMetrics_ServeHTTP w env s =
     \<lparr>hr_StatusCode = 200,
      hr_Body = wi_MarshalMetrics w (rep_Metrics (rs_rep s) (se_cachedMetrics env) (rs_client s))\<rparr>"

definition rep_Reset :: "AuctionCellRep \<Rightarrow> string option" where
  "rep_Reset a = Some ''not-a-simulation-rep''"

definition reset_ServeHTTP :: "rep_site \<Rightarrow> 'b http_response" where
  "reset_ServeHTTP s = (case rep_Reset (rs_rep s) of Some e \<Rightarrow> status 500 | None \<Rightarrow> status 200)"

text \<open>
  \<open>New\<close>: the handlers of the network listener (\<open>secure\<close>) and of the local one; a route that a
  listener does not have is not found.
\<close>

definition handlers_New ::
  "'b wire \<Rightarrow> bool \<Rightarrow> site_env \<Rightarrow> string \<Rightarrow> string \<Rightarrow> str_map \<Rightarrow> 'b option \<Rightarrow> rep_site
   \<Rightarrow> (rep_site \<times> 'b http_response) option" where
  "handlers_New w secure env traceID route params body s =
     (if secure then
        (if route = ''STATE'' then Some (s, state_ServeHTTP w env s)
         else if route = ''ContainerMetrics'' then Some (s, containerMetrics_ServeHTTP w env s)
         else if route = ''PERFORM'' then Some (perform_ServeHTTP w env traceID body s)
         else if route = ''RESET'' then Some (s, reset_ServeHTTP s)
         else if route = ''StopLRPInstance'' then Some (stopLRP_ServeHTTP traceID params s)
         else if route = ''UpdateLRPInstance'' then updateLRP_ServeHTTP w env params body s
         else if route = ''UpdateLRPInstance_r0'' then updateLRP_ServeHTTP w env params body s
         else if route = ''CancelTask'' then Some (cancelTask_ServeHTTP env traceID params s)
         else Some (s, status 404))
      else
        (if route = ''Ping'' then Some (s, ping_ServeHTTP)
         else if route = ''Evacuate'' then Some (evacuation_ServeHTTP s)
         else Some (s, status 404)))"

subsection \<open>The client\<close>

datatype http_error = ErrMarshal | ErrRequest | ErrStatus int | ErrDecode

text \<open>
  \<open>send\<close> builds and sends a request to a route and threads the state of the other side; no
  response is a request that could not be built or sent or was not answered.
\<close>

type_synonym ('s, 'b) transport =
  "string \<Rightarrow> str_map \<Rightarrow> 'b option \<Rightarrow> 's \<Rightarrow> 's \<times> 'b http_response option"

definition client_State :: "'b wire \<Rightarrow> ('s, 'b) transport \<Rightarrow> 's \<Rightarrow> 's \<times> (http_error + CellState)" where
  "client_State w send s =
     (case send ''STATE'' [] None s of
        (s, None) \<Rightarrow> (s, Inl ErrRequest)
      | (s, Some resp) \<Rightarrow>
          if hr_StatusCode resp \<noteq> 200 then (s, Inl (ErrStatus (hr_StatusCode resp)))
          else (case Option.bind (hr_Body resp) (wi_UnmarshalState w) of
                  None \<Rightarrow> (s, Inl ErrDecode) | Some state \<Rightarrow> (s, Inr state)))"

definition client_Perform :: "'b wire \<Rightarrow> ('s, 'b) transport \<Rightarrow> Work \<Rightarrow> 's \<Rightarrow> 's \<times> (http_error + Work)" where
  "client_Perform w send work s =
     (case wi_MarshalWork w work of
        None \<Rightarrow> (s, Inl ErrMarshal)
      | Some body \<Rightarrow>
          (case send ''PERFORM'' [] (Some body) s of
             (s, None) \<Rightarrow> (s, Inl ErrRequest)
           | (s, Some resp) \<Rightarrow>
               if hr_StatusCode resp \<noteq> 200 then (s, Inl (ErrStatus (hr_StatusCode resp)))
               else (case Option.bind (hr_Body resp) (wi_UnmarshalWork w) of
                       None \<Rightarrow> (s, Inl ErrDecode) | Some failedWork \<Rightarrow> (s, Inr failedWork))))"

definition updateLRPInstanceRoute_r0 ::
  "'b wire \<Rightarrow> ('s, 'b) transport \<Rightarrow> LRPUpdate \<Rightarrow> 's \<Rightarrow> 's \<times> http_error option" where
  "updateLRPInstanceRoute_r0 w send update s =
     (case wi_MarshalUpdate w update of
        None \<Rightarrow> (s, Some ErrMarshal)
      | Some body \<Rightarrow>
          (case send ''UpdateLRPInstance_r0''
                  [('':process_guid'', key_ProcessGuid (lu_Key update)),
                   ('':instance_guid'', lu_InstanceGUID update)] (Some body) s of
             (s, None) \<Rightarrow> (s, Some ErrRequest)
           | (s, Some resp) \<Rightarrow>
               if hr_StatusCode resp = 404 then (s, None)
               else if hr_StatusCode resp \<noteq> 202 then (s, Some (ErrStatus (hr_StatusCode resp)))
               else (s, None)))"

definition client_UpdateLRPInstance ::
  "'b wire \<Rightarrow> ('s, 'b) transport \<Rightarrow> LRPUpdate \<Rightarrow> 's \<Rightarrow> 's \<times> http_error option" where
  "client_UpdateLRPInstance w send update s =
     (case wi_MarshalUpdate w update of
        None \<Rightarrow> (s, Some ErrMarshal)
      | Some body \<Rightarrow>
          (case send ''UpdateLRPInstance''
                  [('':process_guid'', key_ProcessGuid (lu_Key update)),
                   ('':instance_guid'', lu_InstanceGUID update)] (Some body) s of
             (s, None) \<Rightarrow> (s, Some ErrRequest)
           | (s, Some resp) \<Rightarrow>
               if hr_StatusCode resp = 404 then
                 (if lu_InternalRoutes update \<noteq> None
                  then updateLRPInstanceRoute_r0 w send (update\<lparr>lu_MetricTags := None\<rparr>) s
                  else (s, None))
               else if hr_StatusCode resp \<noteq> 202 then (s, Some (ErrStatus (hr_StatusCode resp)))
               else (s, None)))"

definition stopParamsFromLRP :: "ActualLRPKey \<Rightarrow> ActualLRPInstanceKey \<Rightarrow> str_map" where
  "stopParamsFromLRP key instanceKey =
     [('':process_guid'', key_ProcessGuid key), ('':instance_guid'', ikey_InstanceGuid instanceKey),
      ('':index'', itoa (key_Index key))]"

definition client_StopLRPInstance ::
  "('s, 'b) transport \<Rightarrow> ActualLRPKey \<Rightarrow> ActualLRPInstanceKey \<Rightarrow> 's \<Rightarrow> 's \<times> http_error option" where
  "client_StopLRPInstance send key instanceKey s =
     (case send ''StopLRPInstance'' (stopParamsFromLRP key instanceKey) None s of
        (s, None) \<Rightarrow> (s, Some ErrRequest)
      | (s, Some resp) \<Rightarrow>
          if hr_StatusCode resp \<noteq> 202 then (s, Some (ErrStatus (hr_StatusCode resp))) else (s, None))"

definition client_CancelTask :: "('s, 'b) transport \<Rightarrow> string \<Rightarrow> 's \<Rightarrow> 's \<times> http_error option" where
  "client_CancelTask send taskGuid s =
     (case send ''CancelTask'' [('':task_guid'', taskGuid)] None s of
        (s, None) \<Rightarrow> (s, Some ErrRequest)
      | (s, Some resp) \<Rightarrow>
          if hr_StatusCode resp \<noteq> 202 then (s, Some (ErrStatus (hr_StatusCode resp))) else (s, None))"

subsection \<open>Choosing the address of a rep\<close>

record TLSConfig =
  tls_RequireTLS :: bool
  tls_CertFile :: string
  tls_KeyFile :: string
  tls_CaCertFile :: string

definition hasCreds :: "TLSConfig \<Rightarrow> bool" where
  "hasCreds config \<longleftrightarrow> tls_CaCertFile config \<noteq> [] \<and> tls_KeyFile config \<noteq> [] \<and> tls_CertFile config \<noteq> []"

datatype pick_error = ErrParseURL | ErrNoCertificates | ErrTLSRequired

definition pickURL :: "TLSConfig \<Rightarrow> string \<Rightarrow> string \<Rightarrow> pick_error + string" where
  "pickURL config address repURL =
     (case (if repURL = [] then Some False
            else map_option (\<lambda>u. Scheme u = ''https'') (url_Parse repURL)) of
        None \<Rightarrow> Inl ErrParseURL
      | Some secure \<Rightarrow>
          if \<not> tls_RequireTLS config \<and> \<not> hasCreds config then
            (if secure then Inl ErrNoCertificates
             else if repURL \<noteq> [] then Inr repURL else Inr address)
          else if \<not> tls_RequireTLS config then (if repURL \<noteq> [] then Inr repURL else Inr address)
          else if \<not> secure then Inl ErrTLSRequired
          else Inr repURL)"

end
