(* ===== verification/Rep_Admission.thy ===== *)
theory Rep_Admission
  imports Rep_Handlers Auction_Conservation
begin

section \<open>Work that fits is accepted\<close>

text \<open>
  The bridge between the auctioneer and the rep: work that fits what a cell reports in its state
  and whose root file systems the cell has announced is allocated completely by the rep's
  \<open>Perform\<close>; none of it comes back as failed. This holds for cells without container proxies: the
  memory of the proxies is not part of what the auctioneer reserves.
\<close>

subsection \<open>What a list of requests asks for\<close>

definition request_memory :: "AllocationRequest list \<Rightarrow> int" where
  "request_memory rs = sum_list (map (er_MemoryMB \<circ> ar_Resource) rs)"

definition request_disk :: "AllocationRequest list \<Rightarrow> int" where
  "request_disk rs = sum_list (map (er_DiskMB \<circ> ar_Resource) rs)"

subsection \<open>Lemmas: requests that fit\<close>

text \<open>The store has room for a list of requests with new guids: none of them is refused.\<close>

definition sendable :: "AllocationRequest \<Rightarrow> bool" where
  "sendable r \<longleftrightarrow> ar_Guid r \<noteq> [] \<and> resource_nonneg (ar_Resource r)"

definition room_for :: "nodeMap \<Rightarrow> AllocationRequest list \<Rightarrow> bool" where
  "room_for m rs \<longleftrightarrow> resources_typed (nm_remainingResources m)
     \<and> request_memory rs \<le> ex_MemoryMB (nm_remainingResources m)
     \<and> request_disk rs \<le> ex_DiskMB (nm_remainingResources m)
     \<and> int (length rs) \<le> ex_Containers (nm_remainingResources m)
     \<and> list_all sendable rs \<and> distinct (map ar_Guid rs @ containerGuids m)"

lemma request_append:
  "request_memory (rs @ rs') = request_memory rs + request_memory rs'"
  "request_disk (rs @ rs') = request_disk rs + request_disk rs'"
  by (simp_all add: request_memory_def request_disk_def)

lemma request_nonneg: "list_all sendable rs \<Longrightarrow> 0 \<le> request_memory rs \<and> 0 \<le> request_disk rs"
  by (induction rs) (auto simp: request_memory_def request_disk_def sendable_def resource_nonneg_def)

lemma allocate_one_fits:
  assumes "room_for (cs_containers cs) (r # rs @ rs')"
  shows "snd (allocate_one t now r (cs, fs)) = fs"
    and "room_for (cs_containers (fst (allocate_one t now r (cs, fs)))) (rs @ rs')"
proof -
  let ?m = "cs_containers cs" and ?n = "reserved_node now r"
  have n: "co_Guid (Info ?n) = ar_Guid r" "co_Resource (Info ?n) = ar_Resource r"
    by (simp_all add: reserved_Info) (simp add: Info_def reserved_node_def newStoreNode_def Container_Copy_def
      NewReservedContainerFromAllocationRequest_def NewContainerFromResource_def)
  have fr: "\<not> nodeMap_Contains ?m (ar_Guid r)" and g: "ar_Guid r \<noteq> []" and nn: "resource_nonneg (ar_Resource r)"
    using assms by (auto simp: room_for_def nodeMap_Contains_def containerGuids_def map_of_eq_None_iff sendable_def)
  have tail: "0 \<le> request_memory (rs @ rs')" "0 \<le> request_disk (rs @ rs')"
    using assms request_nonneg [of "rs @ rs'"] by (simp_all add: room_for_def)
  let ?r = "nm_remainingResources ?m"
  have can: "canSubtract ?r (ar_Resource r)"
    using assms tail by (auto simp: canSubtract_def room_for_def request_memory_def request_disk_def)
  have bounds: "is_i64 (ex_MemoryMB ?r - er_MemoryMB (ar_Resource r))" "is_i64 (ex_DiskMB ?r - er_DiskMB (ar_Resource r))"
     "is_i64 (ex_Containers ?r - 1)"
    using assms can nn by (auto simp: room_for_def resources_typed_def canSubtract_def resource_nonneg_def intro!: is_i64_sub)
  obtain m' where m': "nodeMap_Add ?m ?n = Inr m'"
    and rem: "nm_remainingResources m' = ?r\<lparr>ex_MemoryMB := ex_MemoryMB ?r - er_MemoryMB (ar_Resource r),
       ex_DiskMB := ex_DiskMB ?r - er_DiskMB (ar_Resource r), ex_Containers := ex_Containers ?r - 1\<rparr>"
    and gs: "containerGuids m' = containerGuids ?m @ [ar_Guid r]"
    using fr can bounds by (simp add: nodeMap_Add_def n ExecutorResources_Subtract_def Let_def wrap_simps containerGuids_def update_None nodeMap_Contains_def)
  show "snd (allocate_one t now r (cs, fs)) = fs"
    using g m' by (simp add: allocate_one_def AllocationRequest_Validate_def Reserve_def Let_def reserved_node_def)
  have "cs_containers (fst (allocate_one t now r (cs, fs))) = m'"
    using g m' by (simp add: allocate_one_def AllocationRequest_Validate_def Reserve_def Let_def reserved_node_def)
  then show "room_for (cs_containers (fst (allocate_one t now r (cs, fs)))) (rs @ rs')"
    using assms bounds by (auto simp: room_for_def rem gs request_memory_def request_disk_def resources_typed_def)
qed

lemma AllocateContainers_fits:
  assumes "room_for (client_nodes c) (rs @ rs')"
  shows "snd (AllocateContainers c t now rs) = [] \<and> room_for (client_nodes (fst (AllocateContainers c t now rs))) rs'"
proof -
  have "room_for (cs_containers cs) (rs @ rs') \<Longrightarrow> snd (fold (allocate_one t now) rs (cs, fs)) = fs
      \<and> room_for (cs_containers (fst (fold (allocate_one t now) rs (cs, fs)))) rs'" for cs fs
  proof (induction rs arbitrary: cs)
    case (Cons r rs)
    have "allocate_one t now r (cs, fs) = (fst (allocate_one t now r (cs, fs)), fs)"
      using allocate_one_fits(1) [OF Cons.prems [simplified], of t now fs] by (simp add: prod_eq_iff)
    with Cons.IH [OF allocate_one_fits(2) [OF Cons.prems [simplified]], of t now fs] show ?case
      by (metis fold_simps(2))
  qed simp
  from this [OF assms, of "[]"] show ?thesis by (simp add: AllocateContainers_def split_beta Let_def)
qed

lemma translate_all:
  assumes "\<And>i. newGuid i \<noteq> None"
    and "list_all (\<lambda>l. \<not> isl (PathForRootFS m (pc_RootFs (lrp_Constraint l)))) lrps"
  shows "\<exists>ok. translate_lrps newGuid m i lrps = ([], ok) \<and> map fst ok = lrps"
  using assms(2)
proof (induction lrps arbitrary: i)
  case (Cons l lrps)
  obtain g p where "newGuid i = Some g" and "PathForRootFS m (pc_RootFs (lrp_Constraint l)) = Inr p"
    using assms(1) [of i] Cons.prems by (cases "PathForRootFS m (pc_RootFs (lrp_Constraint l))") auto
  moreover obtain ok where "translate_lrps newGuid m (Suc i) lrps = ([], ok)" "map fst ok = lrps"
    using Cons by auto
  ultimately show ?case by simp
qed simp

lemma admit_all:
  assumes "list_all (\<lambda>l. 0 \<le> required_memory a l) lrps"
    and "sum_list (map (required_memory a) lrps) \<le> m" and "is_i32 m"
  shows "admit_lrps a m lrps = (lrps, [])"
  using assms
proof (induction lrps arbitrary: m)
  case (Cons l lrps)
  have nn: "0 \<le> sum_list (map (required_memory a) lrps)"
    using Cons.prems(1) by (intro sum_list_nonneg) (auto simp: list_all_iff)
  with Cons.prems have le: "required_memory a l \<le> m" by simp
  have r: "is_i32 (m - required_memory a l)" using Cons.prems le by (simp add: is_i32_between)
  with Cons.IH [of "m - required_memory a l"] Cons.prems le show ?case by (simp add: wrap_simps)
qed simp

subsection \<open>Lemmas: root file systems that the cell has announced\<close>

lemma providers_path:
  assumes "RootFSProviders_Match (rootFSProviders m arb) u"
  shows "Scheme u \<in> {''preloaded'', ''preloaded+layer''} \<Longrightarrow> Opaque u \<in> fst ` set m"
  using assms by (auto simp: RootFSProviders_Match_def rootFSProviders_def Let_def update_conv')

lemma matched_path:
  assumes "acr_rootFSProviders a = rootFSProviders (acr_stackPathMap a) arb"
    and "cs_RootFSProviders st = acr_rootFSProviders a" and "CellState_MatchRootFS st rootfs"
  shows "\<not> isl (PathForRootFS (acr_stackPathMap a) rootfs)"
proof -
  obtain u where u: "url_Parse rootfs = Some u" and "RootFSProviders_Match (rootFSProviders (acr_stackPathMap a) arb) u"
    using assms by (auto simp: CellState_MatchRootFS_def split: option.splits)
  from providers_path [OF this(2)] show ?thesis
    by (auto simp: PathForRootFS_def u map_of_eq_None_iff split: option.splits)
qed

subsection \<open>Lemmas: the batches\<close>

text \<open>The generator of instance guids works and hands out guids that are not in use.\<close>

definition guids_apart :: "(nat \<Rightarrow> string option) \<Rightarrow> string list \<Rightarrow> bool" where
  "guids_apart newGuid taken \<longleftrightarrow> fresh_guids newGuid
     \<and> (\<forall>i. \<exists>g. newGuid i = Some g \<and> g \<noteq> [] \<and> g \<notin> set taken)"

lemma guids_apart_mono: "guids_apart newGuid ys \<Longrightarrow> set xs \<subseteq> set ys \<Longrightarrow> guids_apart newGuid xs"
  unfolding guids_apart_def by (meson in_mono)

lemma BatchLRP_accepts:
  assumes "\<not> p" and "guids_apart newGuid (map ar_Guid rs' @ containerGuids (client_nodes c))"
    and "list_all (\<lambda>l. \<not> isl (PathForRootFS m (pc_RootFs (lrp_Constraint l)))) lrps"
    and "list_all (\<lambda>l. Resource_Valid (lrp_Resource l)) lrps"
    and "room_for (client_nodes c) rs'"
    and "sum_list (map (r_MemoryMB \<circ> lrp_Resource) lrps) + request_memory rs' \<le> ex_MemoryMB (nm_remainingResources (client_nodes c))"
    and "sum_list (map (r_DiskMB \<circ> lrp_Resource) lrps) + request_disk rs' \<le> ex_DiskMB (nm_remainingResources (client_nodes c))"
    and "int (length lrps + length rs') \<le> ex_Containers (nm_remainingResources (client_nodes c))"
  shows "snd (BatchLRPAllocationRequest json newGuid m c t now p pm lrps) = []
    \<and> room_for (client_nodes (fst (BatchLRPAllocationRequest json newGuid m c t now p pm lrps))) rs'"
proof -
  obtain ok where ok: "translate_lrps newGuid m 0 lrps = ([], ok)" "map fst ok = lrps"
    using translate_all [OF _ assms(3), of newGuid 0] assms(2) by (force simp: guids_apart_def)
  let ?req = "\<lambda>(l, g). lrp_request json p pm l g"
  have req: "ar_Guid (?req x) = snd x" "ar_Resource (?req x) = NewExecResource (r_MemoryMB (lrp_Resource (fst x)))
     (r_DiskMB (lrp_Resource (fst x))) (r_MaxPids (lrp_Resource (fst x)))" for x
    using assms(1) by (simp_all add: lrp_request_def NewAllocationRequest_def LRPContainerGuid_def Let_def split_beta)
  have dist: "distinct (map snd ok)"
    using translate_distinct [of newGuid m 0 lrps] assms(2) ok(1) by (simp add: guids_apart_def)
  have new: "g \<noteq> [] \<and> g \<notin> set (map ar_Guid rs' @ containerGuids (client_nodes c))" if g: "g \<in> snd ` set ok" for g
  proof -
    obtain j where "newGuid j = Some g" using g translate_guids [of newGuid m 0 lrps] ok(1) by auto
    with assms(2) show ?thesis unfolding guids_apart_def by (metis option.inject)
  qed
  have lrps: "lrps = map fst ok" using ok(2) by simp
  have sums: "request_memory (map ?req ok) = sum_list (map (r_MemoryMB \<circ> lrp_Resource) lrps)"
     "request_disk (map ?req ok) = sum_list (map (r_DiskMB \<circ> lrp_Resource) lrps)"
    unfolding request_memory_def request_disk_def lrps map_map comp_def req NewExecResource_def by simp_all
  have "sendable (?req x)" if "x \<in> set ok" for x
    unfolding sendable_def req using assms(4) new that
    by (auto simp: lrps list_all_iff resource_nonneg_def NewExecResource_def Resource_Valid_def)
  then have send: "list_all sendable (map ?req ok)" unfolding list_all_iff set_map by blast
  have gs: "map ar_Guid (map ?req ok) = map snd ok" unfolding map_map comp_def req ..
  have "room_for (client_nodes c) (map ?req ok @ rs')"
    using assms(5-8) dist new send unfolding room_for_def request_append sums map_append gs lrps
    by auto
  from AllocateContainers_fits [OF this, of t now] show ?thesis
    by (simp add: BatchLRPAllocationRequest_def request_containers_eq ok(1) split_beta Let_def failed_of_def List.map_filter_simps)
qed

lemma task_translates_isl: "task_translates m t \<longleftrightarrow> \<not> isl (PathForRootFS m (pc_RootFs (task_Constraint t)))"
  by (simp add: task_translates_def split: sum.split)

lemma BatchTask_accepts:
  assumes "list_all (task_translates m) tasks"
    and "room_for (client_nodes c) (map (task_request json) tasks)"
  shows "snd (BatchTaskAllocationRequest json m c t now tasks) = []"
proof -
  have "filter (task_translates m) tasks = tasks" and "filter (\<lambda>t. \<not> task_translates m t) tasks = []"
    using assms(1) by (auto simp: list_all_iff filter_empty_conv)
  moreover have "snd (AllocateContainers c t now (map (task_request json) tasks)) = []"
    using AllocateContainers_fits [of c "map (task_request json) tasks" "[]"] assms(2) by simp
  ultimately show ?thesis
    by (simp add: BatchTaskAllocationRequest_def request_containers_eq split_beta Let_def failed_of_def
        List.map_filter_simps)
qed

text \<open>What the auctioneer checks of the work it sends to a cell in the state \<open>st\<close>.\<close>

definition fitting_work :: "CellState \<Rightarrow> Work \<Rightarrow> bool" where
  "fitting_work st w \<longleftrightarrow>
     list_all Resource_Valid (work_resources w)
   \<and> list_all (\<lambda>l. CellState_MatchRootFS st (pc_RootFs (lrp_Constraint l))) (w_LRPs w)
   \<and> list_all (\<lambda>t. CellState_MatchRootFS st (pc_RootFs (task_Constraint t))) (w_Tasks w)
   \<and> work_memory w \<le> rs_MemoryMB (cs_AvailableResources st)
   \<and> work_disk w \<le> rs_DiskMB (cs_AvailableResources st)
   \<and> work_size w \<le> rs_Containers (cs_AvailableResources st)"

text \<open>A cell whose numbers survive the conversion to 32 bits in its reported state.\<close>

definition small_capacity :: "ExecutorResources \<Rightarrow> bool" where
  "small_capacity tot \<longleftrightarrow> is_i32 (ex_MemoryMB tot) \<and> is_i32 (ex_DiskMB tot) \<and> is_i64 (ex_Containers tot)
     \<and> 0 \<le> ex_MemoryMB tot \<and> 0 \<le> ex_DiskMB tot \<and> 0 \<le> ex_Containers tot"

definition new_tasks :: "exec_client \<Rightarrow> Work \<Rightarrow> bool" where
  "new_tasks c w \<longleftrightarrow> distinct (map task_TaskGuid (w_Tasks w) @ containerGuids (client_nodes c))
     \<and> list_all (\<lambda>t. task_TaskGuid t \<noteq> []) (w_Tasks w)"

lemma reach_store_inv:
  assumes "exec_reach tot cfg c" and "small_capacity tot"
  shows "store_inv tot cfg (client_nodes c)"
proof -
  have "resources_typed tot" using assms(2) by (simp add: small_capacity_def resources_typed_def is_i32_le_i64)
  then show ?thesis using exec_reach_inv [OF assms(1)] assms(2) by (simp add: small_capacity_def)
qed

lemma reported_resources:
  assumes "exec_reach tot cfg c" and "small_capacity tot" and "pred_option ((\<le>) 0) live"
  defines "r \<equiv> nm_remainingResources (client_nodes c)"
  shows "resources_typed r" and "is_i32 (ex_MemoryMB r)" and "ex_MemoryMB (RemainingResources live c) = ex_MemoryMB r"
    and "rs_MemoryMB (convertResources (RemainingResources live c)) = ex_MemoryMB r"
    and "rs_DiskMB (convertResources (RemainingResources live c)) \<le> ex_DiskMB r"
    and "rs_Containers (convertResources (RemainingResources live c)) = ex_Containers r"
proof -
  have inv: "store_inv tot cfg (client_nodes c)" by (rule reach_store_inv [OF assms(1,2)])
  then have "balanced tot (client_nodes c)" and n: "nodes_ok cfg (client_nodes c)" by (simp_all add: store_inv_def)
  then have "0 \<le> ex_MemoryMB r" "ex_MemoryMB r \<le> ex_MemoryMB tot" "0 \<le> ex_DiskMB r" "ex_DiskMB r \<le> ex_DiskMB tot"
    using used_nonneg [OF n] by (auto simp: balanced_def r_def Let_def)
  moreover from this have "is_i32 (ex_MemoryMB r)" "is_i32 (ex_DiskMB r)"
    using assms(2) by (simp_all add: small_capacity_def is_i32_def)
  ultimately show "resources_typed r" and "is_i32 (ex_MemoryMB r)"
    and mem: "ex_MemoryMB (RemainingResources live c) = ex_MemoryMB r"
    and "rs_MemoryMB (convertResources (RemainingResources live c)) = ex_MemoryMB r"
    and "rs_DiskMB (convertResources (RemainingResources live c)) \<le> ex_DiskMB r"
    and "rs_Containers (convertResources (RemainingResources live c)) = ex_Containers r"
    using store_inv_typed [OF inv] assms(3)
    by (auto simp: r_def RemainingResources_def convertResources_def Let_def wrap_simps is_i32_def split: option.splits)
qed

subsection \<open>Lemmas: Perform\<close>

lemma reported_bounds:
  assumes "exec_reach tot cfg c" and "small_capacity tot" and "pred_option ((\<le>) 0) live"
  shows "Resources_typed (convertResources (RemainingResources live c))"
    and "Resources_nonneg (convertResources (RemainingResources live c))"
proof -
  let ?r = "nm_remainingResources (client_nodes c)"
  have "store_inv tot cfg (client_nodes c)" by (rule reach_store_inv [OF assms(1,2)])
  then have b: "balanced tot (client_nodes c)" and n: "nodes_ok cfg (client_nodes c)" by (simp_all add: store_inv_def)
  then have "0 \<le> ex_MemoryMB ?r" "0 \<le> ex_DiskMB ?r" "ex_DiskMB ?r \<le> ex_DiskMB tot" "0 \<le> ex_Containers ?r" "is_i32 (ex_DiskMB ?r)"
    using used_nonneg [OF n] assms(2) by (auto simp: balanced_def Let_def small_capacity_def is_i32_def)
  with reported_resources [OF assms] assms(3)
  show "Resources_typed (convertResources (RemainingResources live c))"
    and "Resources_nonneg (convertResources (RemainingResources live c))"
    by (auto simp: Resources_typed_def Resources_nonneg_def resources_typed_def RemainingResources_def
        convertResources_def Let_def wrap_simps is_i32_def split: option.splits)
qed

lemma rep_State_fields:
  assumes "rep_State json a c drivers live ev = Inr (st, h)"
  shows "cs_AvailableResources st = convertResources (RemainingResources live c)"
    and "cs_RootFSProviders st = acr_rootFSProviders a" and "cs_CellID st = acr_cellID a"
    and "cs_Evacuating st = ev" and "h = cl_healthy c"
  using assms by (auto simp: rep_State_def Let_def split: sum.splits)

lemma Perform_accepts:
  assumes "acr_rootFSProviders a = rootFSProviders (acr_stackPathMap a) arb" and proxy: "\<not> acr_enableContainerProxy a"
    and "exec_reach tot cfg c" and "small_capacity tot" and "pred_option ((\<le>) 0) live"
    and st: "rep_State json a c drivers live False = Inr (st, healthy)"
    and fit: "fitting_work st work" and "w_CellID work \<in> {[], acr_cellID a}" and tasks: "new_tasks c work"
    and guids: "guids_apart newGuid (map task_TaskGuid (w_Tasks work) @ containerGuids (client_nodes c))"
  shows "\<exists>c'. rep_Perform json newGuid a c t now live False work = (c', empty_work, None)"
proof -
  note r = reported_resources [OF assms(3-5)]
  let ?m = "acr_stackPathMap a" and ?lrps = "sort_by_memory (w_LRPs work)" and ?ts = "map (task_request json) (w_Tasks work)"
  have sort: "sum_list (map f ?lrps) = sum_list (map f (w_LRPs work))" for f :: "SchedulingLRP \<Rightarrow> int"
    using mset_sort_by_memory [of "w_LRPs work"] by (metis mset_map sum_mset_sum_list)
  have lrps: "set ?lrps = set (w_LRPs work)" "length ?lrps = length (w_LRPs work)"
    using mset_sort_by_memory [of "w_LRPs work"] by (metis set_mset_mset, metis size_mset)
  note av = rep_State_fields(1,2) [OF st]
  have valid: "list_all (\<lambda>l. Resource_Valid (lrp_Resource l)) ?lrps"
    using fit by (auto simp: fitting_work_def work_resources_def list_all_iff lrps)
  have paths: "list_all (\<lambda>l. \<not> isl (PathForRootFS ?m (pc_RootFs (lrp_Constraint l)))) ?lrps"
      "list_all (task_translates ?m) (w_Tasks work)"
    using fit matched_path [OF assms(1) av(2)]
    by (auto simp: fitting_work_def list_all_iff lrps task_translates_isl)
  have req: "request_memory ?ts = sum_list (map (r_MemoryMB \<circ> task_Resource) (w_Tasks work))"
      "request_disk ?ts = sum_list (map (r_DiskMB \<circ> task_Resource) (w_Tasks work))"
      "map ar_Guid ?ts = map task_TaskGuid (w_Tasks work)"
    by (simp_all add: request_memory_def request_disk_def task_request_def NewAllocationRequest_def
        NewExecResource_def comp_def)
  have fits: "sum_list (map (r_MemoryMB \<circ> lrp_Resource) ?lrps) + request_memory ?ts
        \<le> ex_MemoryMB (nm_remainingResources (client_nodes c))"
      "sum_list (map (r_DiskMB \<circ> lrp_Resource) ?lrps) + request_disk ?ts
        \<le> ex_DiskMB (nm_remainingResources (client_nodes c))"
      "int (length ?lrps + length ?ts) \<le> ex_Containers (nm_remainingResources (client_nodes c))"
    using fit r(4-6) by (simp_all add: fitting_work_def av work_defs sort req lrps comp_def)
  have nn: "0 \<le> sum_list (map (r_MemoryMB \<circ> lrp_Resource) ?lrps)" "0 \<le> sum_list (map (r_DiskMB \<circ> lrp_Resource) ?lrps)"
    using valid by (auto simp: list_all_iff Resource_Valid_def intro!: sum_list_nonneg)
  have "list_all sendable ?ts"
    using tasks fit by (auto simp: list_all_iff sendable_def new_tasks_def fitting_work_def work_resources_def
        task_request_def NewAllocationRequest_def NewExecResource_def resource_nonneg_def Resource_Valid_def)
  then have room: "room_for (client_nodes c) ?ts"
    using fits nn r(1) tasks unfolding room_for_def req by (simp add: new_tasks_def)
  have rq: "required_memory a = r_MemoryMB \<circ> lrp_Resource" using proxy by (simp add: required_memory_def fun_eq_iff)
  have "0 \<le> request_memory ?ts" using request_nonneg \<open>list_all sendable ?ts\<close> by blast
  then have adm: "admit_lrps a (i32 (ex_MemoryMB (RemainingResources live c))) ?lrps = (?lrps, [])"
    using fits(1) valid r(2,3) by (intro admit_all) (auto simp: rq wrap_simps list_all_iff Resource_Valid_def)
  note b = BatchLRP_accepts [OF proxy guids [folded req(3)] paths(1) valid room fits, of json t now "acr_proxyMemoryAllocation a"]
  from b BatchTask_accepts [OF paths(2), of _ json t now] adm assms(8) show ?thesis
    by (auto simp: rep_Perform_def Let_def split_beta empty_work_def)
qed

lemma Perform_returns_ids:
  assumes "fresh_guids newGuid" and "rep_Perform json newGuid a c t now live ev work = (c', failed, None)"
  shows "mset (lrp_ids failed) \<subseteq># mset (lrp_ids work) \<and> mset (task_ids failed) \<subseteq># mset (task_ids work)"
proof (cases ev)
  case True
  with assms(2) have "failed = work\<lparr>w_LRPs := sort_by_memory (w_LRPs work)\<rparr>"
    by (auto simp: rep_Perform_def Let_def split_beta split: if_splits)
  moreover have "mset (map LRP_Identifier (sort_by_memory (w_LRPs work))) = mset (map LRP_Identifier (w_LRPs work))"
    using mset_sort_by_memory by (metis mset_map)
  ultimately show ?thesis by simp
next
  case False
  obtain un c1 ft ok fl where ad: "admit_lrps a (i32 (ex_MemoryMB (RemainingResources live c)))
        (sort_by_memory (w_LRPs work)) = (ok, fl)"
    and b: "BatchLRPAllocationRequest json newGuid (acr_stackPathMap a) c t now
        (acr_enableContainerProxy a) (acr_proxyMemoryAllocation a) ok = (c1, un)"
    and d: "BatchTaskAllocationRequest json (acr_stackPathMap a) c1 t now (w_Tasks work) = (c', ft)"
    and f: "failed = empty_work\<lparr>w_LRPs := fl @ un, w_Tasks := ft\<rparr>"
    using assms(2) False by (auto elim: Perform_unfold)
  have "mset (w_LRPs work) = mset ok + mset fl"
    using admit_mset [of "sort_by_memory (w_LRPs work)" a "i32 (ex_MemoryMB (RemainingResources live c))"]
    by (simp add: ad mset_sort_by_memory)
  moreover obtain oks :: "(SchedulingLRP \<times> string) list" where "mset ok = mset un + mset (map fst oks)"
    using BatchLRP_conserves [OF assms(1) b] by blast
  ultimately have "mset (fl @ un) \<subseteq># mset (w_LRPs work)" by (simp add: ac_simps)
  then have "mset (lrp_ids failed) \<subseteq># mset (lrp_ids work)"
    using image_mset_subseteq_mono [of "mset (fl @ un)" _ LRP_Identifier] by (simp add: f)
  moreover have "mset (task_ids failed) \<subseteq># mset (task_ids work)"
    using BatchTask_ids [OF d] by (simp add: f Task_Identifier_def [abs_def])
  ultimately show ?thesis ..
qed

end
