(* ===== verification/Cluster.thy ===== *)
theory Cluster
  imports Auction_Runner Operation_Queue Rep_Admission
begin

section \<open>Auctioneer, reps and executors together\<close>

text \<open>
  The parameters \<open>State\<close> and \<open>Perform\<close> of the scheduler are filled with the real path of a request:
  the rep client of the auctioneer, the network, the handler of the rep, the rep and its
  executor. \<open>sites\<close> gives the rep behind every client address, \<open>env\<close> what a request meets there,
  and \<open>lost\<close> tells whose answers the network loses.
\<close>

text \<open>A handler that blocks gives no answer.\<close>

definition site_transport :: "'b wire \<Rightarrow> site_env \<Rightarrow> bool \<Rightarrow> (rep_site, 'b) transport" where
  "site_transport w env lost route params body s =
     (case handlers_New w True env [] route params body s of
        None \<Rightarrow> (s, None)
      | Some (s', resp) \<Rightarrow> (s', if lost then None else Some resp))"

definition cluster_State ::
  "'b wire \<Rightarrow> (client \<Rightarrow> site_env) \<Rightarrow> (client \<Rightarrow> bool) \<Rightarrow> (client \<Rightarrow> rep_site) \<Rightarrow> client \<Rightarrow> CellState option" where
  "cluster_State w env lost sites cl =
     (case snd (client_State w (site_transport w (env cl) (lost cl)) (sites cl)) of
        Inl e \<Rightarrow> None | Inr st \<Rightarrow> Some st)"

definition cluster_Perform ::
  "'b wire \<Rightarrow> (client \<Rightarrow> site_env) \<Rightarrow> (client \<Rightarrow> bool) \<Rightarrow> (client \<Rightarrow> rep_site) \<Rightarrow> client \<Rightarrow> Work \<Rightarrow> Work option" where
  "cluster_Perform w env lost sites cl work =
     (case snd (client_Perform w (site_transport w (env cl) (lost cl)) work (sites cl)) of
        Inl e \<Rightarrow> None | Inr failed \<Rightarrow> Some failed)"

subsection \<open>Lemmas: what the network hands over\<close>

lemma cluster_Perform_Some:
  assumes "wire_ok w" and "cluster_Perform w env lost sites cl work = Some failed"
  obtains c' where "rep_Perform (se_json (env cl)) (se_newGuid (env cl)) (rs_rep (sites cl)) (rs_client (sites cl)) []
     (se_now (env cl)) (se_liveDiskMB (env cl)) (Evacuating (rs_evacuation (sites cl))) work = (c', failed, None)"
proof -
  let ?p = "rep_Perform (se_json (env cl)) (se_newGuid (env cl)) (rs_rep (sites cl)) (rs_client (sites cl)) []
     (se_now (env cl)) (se_liveDiskMB (env cl)) (Evacuating (rs_evacuation (sites cl)))"
  obtain body where body: "wi_MarshalWork w work = Some body"
    using assms(2) by (auto simp: cluster_Perform_def client_Perform_def split: option.splits)
  obtain c' f e where p: "?p work = (c', f, e)" by (metis prod_cases3)
  from body assms(1) have "wi_UnmarshalWork w body = Some work" by (simp add: wire_ok_def)
  with assms(2) body p have "e = None" and "Option.bind (wi_MarshalWork w f) (wi_UnmarshalWork w) = Some failed"
    by (auto simp: cluster_Perform_def client_Perform_def site_transport_def handlers_New_def perform_ServeHTTP_def
        split: option.splits if_splits)
  with assms(1) have "f = failed" by (auto simp: wire_ok_def bind_eq_Some_conv)
  with p \<open>e = None\<close> that show thesis by blast
qed

lemma cluster_State_Some:
  assumes "wire_ok w" and "cluster_State w env lost sites cl = Some st"
  shows "rep_State (se_json (env cl)) (rs_rep (sites cl)) (rs_client (sites cl)) (se_listDrivers (env cl))
      (se_liveDiskMB (env cl)) (Evacuating (rs_evacuation (sites cl))) = Inr (st, True)"
proof -
  let ?s = "rep_State (se_json (env cl)) (rs_rep (sites cl)) (rs_client (sites cl)) (se_listDrivers (env cl))
      (se_liveDiskMB (env cl)) (Evacuating (rs_evacuation (sites cl)))"
  note defs = cluster_State_def client_State_def site_transport_def handlers_New_def state_ServeHTTP_def
  consider e where "?s = Inl e" | st' h where "?s = Inr (st', h)" by (metis sum.exhaust prod.exhaust)
  then show ?thesis
  proof cases
    case 1
    with assms(2) show ?thesis by (simp add: defs split: if_splits)
  next
    case 2
    with assms(2) have h and "Option.bind (wi_MarshalState w st') (wi_UnmarshalState w) = Some st"
      by (auto simp: defs split: if_splits option.splits)
    with assms(1) have "st' = st" by (auto simp: wire_ok_def bind_eq_Some_conv)
    with 2 \<open>h\<close> show ?thesis by simp
  qed
qed

subsection \<open>Lemmas: cells whose state is current\<close>

text \<open>
  A site that keeps its promises for a request: it runs without container proxies, its numbers
  fit the width of the reported state, its executor is in a reachable state, the tasks of the
  request are new to it, and its generator of guids works.
\<close>

definition ready_site :: 
  "AuctionRequest \<Rightarrow> ExecutorResources \<Rightarrow> node_config \<Rightarrow> string list \<Rightarrow> site_env \<Rightarrow> rep_site \<Rightarrow> bool" where
  "ready_site req tot cfg arb env s \<longleftrightarrow>
     acr_rootFSProviders (rs_rep s) = rootFSProviders (acr_stackPathMap (rs_rep s)) arb
   \<and> \<not> acr_enableContainerProxy (rs_rep s) \<and> acr_cellID (rs_rep s) \<noteq> []
   \<and> exec_reach tot cfg (rs_client s) \<and> small_capacity tot \<and> pred_option ((\<le>) 0) (se_liveDiskMB env)
   \<and> list_all (\<lambda>a. ta_id a \<noteq> [] \<and> ta_id a \<notin> set (containerGuids (client_nodes (rs_client s)))) (req_Tasks req)
   \<and> guids_apart (se_newGuid env) (map ta_id (req_Tasks req) @ containerGuids (client_nodes (rs_client s)))"


text \<open>A cell built from the state that its site reports.\<close>

definition fresh_cell :: "site_env \<Rightarrow> rep_site \<Rightarrow> Cell \<Rightarrow> bool" where
  "fresh_cell env s c \<longleftrightarrow> (\<exists>drivers. rep_State (se_json env) (rs_rep s) (rs_client s) drivers (se_liveDiskMB env) False
      = Inr (cell_state c, True)) \<and> \<not> Evacuating (rs_evacuation s)
   \<and> w_CellID (cell_workToCommit c) = acr_cellID (rs_rep s)
   \<and> w_LRPs (cell_workToCommit c) = [] \<and> w_Tasks (cell_workToCommit c) = []"

lemma fresh_accounted:
  assumes "ready_site req tot cfg arb env s" and "fresh_cell env s c"
  shows "cell_accounted (cs_AvailableResources (cell_state c)) c"
proof -
  obtain drivers where "rep_State (se_json env) (rs_rep s) (rs_client s) drivers (se_liveDiskMB env) False
      = Inr (cell_state c, True)"
    using assms(2) by (auto simp: fresh_cell_def)
  from rep_State_fields(1) [OF this] reported_bounds [of tot cfg "rs_client s" "se_liveDiskMB env"] assms show ?thesis
    by (simp add: cell_accounted_def ready_site_def fresh_cell_def work_defs)
qed

lemma site_accepts:
  assumes ready: "ready_site req tot cfg arb env s" and fresh: "fresh_cell env s c0" and same: "same_cell c0 c"
    and orig: "work_from req c0 (cell_workToCommit c)" and valid: "valid_request req"
    and acc: "cell_accounted (cs_AvailableResources (cell_state c0)) c"
    and dist: "distinct (map task_TaskGuid (w_Tasks (cell_workToCommit c)))"
  shows "\<exists>c'. rep_Perform (se_json env) (se_newGuid env) (rs_rep s) (rs_client s) t now (se_liveDiskMB env) False (cell_workToCommit c)
      = (c', empty_work, None)"
proof -
  let ?w = "cell_workToCommit c" and ?held = "containerGuids (client_nodes (rs_client s))"
  obtain drivers where st: "rep_State (se_json env) (rs_rep s) (rs_client s) drivers (se_liveDiskMB env) False = Inr (cell_state c0, True)"
    using fresh by (auto simp: fresh_cell_def)
  have tasks: "task_TaskGuid ` set (w_Tasks ?w) \<subseteq> ta_id ` set (req_Tasks req)"
    using orig by (force simp: work_from_def list_all_iff Task_Identifier_def)
  have "fitting_work (cell_state c0) ?w"
    using orig valid cell_accounted_bounds [OF acc]
    by (auto simp: fitting_work_def work_from_def valid_request_def list_all_iff work_resources_def cell_matches_def
        MatchRootFS_def)
  moreover have "distinct ?held"
    using ready reach_store_inv by (auto simp: ready_site_def store_inv_def nodes_ok_def containerGuids_def)
  then have "new_tasks (rs_client s) ?w"
    using ready tasks dist by (fastforce simp: new_tasks_def ready_site_def list_all_iff)
  moreover have "guids_apart (se_newGuid env) (map task_TaskGuid (w_Tasks ?w) @ ?held)"
    by (rule guids_apart_mono [of _ "map ta_id (req_Tasks req) @ ?held"])
       (use ready tasks in \<open>auto simp: ready_site_def\<close>)
  moreover have "w_CellID ?w \<in> {[], acr_cellID (rs_rep s)}"
    using fresh same by (simp add: fresh_cell_def same_cell_def)
  ultimately show ?thesis
    using ready by (intro Perform_accepts [OF _ _ _ _ _ st]) (auto simp: ready_site_def)
qed

definition wire_total :: "'b wire \<Rightarrow> bool" where
  "wire_total w \<longleftrightarrow> (\<forall>x. wi_MarshalWork w x \<noteq> None)"

lemma cluster_Perform_accepted:
  assumes "wire_ok w" and "wire_total w" and "\<not> lost cl"
    and "rep_Perform (se_json (env cl)) (se_newGuid (env cl)) (rs_rep (sites cl)) (rs_client (sites cl)) []
      (se_now (env cl)) (se_liveDiskMB (env cl)) (Evacuating (rs_evacuation (sites cl))) work = (c', failed, None)"
  shows "cluster_Perform w env lost sites cl work = Some failed"
proof -
  obtain b1 where "wi_MarshalWork w work = Some b1"
    using assms(2) unfolding wire_total_def by blast
  moreover obtain b2 where "wi_MarshalWork w failed = Some b2"
    using assms(2) unfolding wire_total_def by blast
  moreover from calculation assms(1) have "wi_UnmarshalWork w b1 = Some work" "wi_UnmarshalWork w b2 = Some failed"
    by (simp_all add: wire_ok_def)
  ultimately show ?thesis
    using assms(3,4) by (simp add: cluster_Perform_def client_Perform_def site_transport_def handlers_New_def
        perform_ServeHTTP_def)
qed

lemma built_fresh:
  assumes "wire_ok w" and "fetchStateAndBuildZones (cluster_State w env lost sites) clients weight = (zs, st)"
    and "p \<in> set (zone_ptrs zs)"
  defines "cl \<equiv> cell_client (st p)"
  shows "cl \<in> snd ` set clients" and "\<not> lost cl"
    and "acr_cellID (rs_rep (sites cl)) \<noteq> [] \<Longrightarrow> fresh_cell (env cl) (sites cl) (st p)"
proof -
  obtain guid state where g: "(guid, cl) \<in> set clients" and st: "cluster_State w env lost sites cl = Some state"
    and ev: "\<not> cs_Evacuating state" and id: "cs_CellID state \<in> {[], guid}" and cell: "cell_state (st p) = state"
    and w: "w_CellID (cell_workToCommit (st p)) = guid"
    using built_cell [OF assms(2,3)] unfolding cl_def by metis
  note S = cluster_State_Some [OF assms(1) st]
  note f = rep_State_fields [OF S]
  show "cl \<in> snd ` set clients" using g by force
  show "\<not> lost cl"
    using st by (auto simp: cluster_State_def client_State_def site_transport_def split: option.splits sum.splits prod.splits)
  assume "acr_cellID (rs_rep (sites cl)) \<noteq> []"
  moreover have "w_LRPs (cell_workToCommit (st p)) = [] \<and> w_Tasks (cell_workToCommit (st p)) = []"
    using built_idle [OF assms(2)] assms(3) unfolding idle_cells_def list_all_iff by blast
  ultimately show "fresh_cell (env cl) (sites cl) (st p)"
    using S f ev id cell w unfolding fresh_cell_def by auto
qed

text \<open>One cell after the auctions: its commit has nothing to give back.\<close>

lemma commit_accepted:
  assumes wire: "wire_ok w" "wire_total w" and lost: "\<not> lost (cell_client c0)"
    and ready: "ready_site req tot cfg arb (env (cell_client c0)) (sites (cell_client c0))"
    and fresh: "fresh_cell (env (cell_client c0)) (sites (cell_client c0)) c0"
    and same: "same_cell c0 c" and orig: "work_from req c0 (cell_workToCommit c)" and valid: "valid_request req"
    and acc: "cell_accounted (cs_AvailableResources (cell_state c0)) c"
    and dist: "distinct (task_ids (cell_workToCommit c))"
  shows "w_LRPs (Commit (cluster_Perform w env lost sites) c) = []
    \<and> w_Tasks (Commit (cluster_Perform w env lost sites) c) = []"
proof -
  let ?cl = "cell_client c0"
  have "distinct (map task_TaskGuid (w_Tasks (cell_workToCommit c)))"
    using dist by (simp add: Task_Identifier_def [abs_def])
  then have "\<exists>c'. rep_Perform (se_json (env ?cl)) (se_newGuid (env ?cl)) (rs_rep (sites ?cl)) (rs_client (sites ?cl)) []
      (se_now (env ?cl)) (se_liveDiskMB (env ?cl)) False (cell_workToCommit c) = (c', empty_work, None)"
    by (rule site_accepts [OF ready fresh same orig valid acc])
  then have "cluster_Perform w env lost sites (cell_client c) (cell_workToCommit c) = Some empty_work"
    using cluster_Perform_accepted [where env = env and sites = sites and lost = lost, OF wire lost] same fresh
    by (auto simp: same_cell_def fresh_cell_def)
  then show ?thesis by (simp add: Commit_def empty_work_def)
qed

subsection \<open>Two cells to run\<close>

datatype demo_body = BWork Work | BState CellState | BUpdate LRPUpdate | BMetrics "string LRPMetric list \<times> string TaskMetric list"

definition demo_wire :: "demo_body wire" where
  "demo_wire = \<lparr>wi_MarshalWork = (\<lambda>x. Some (BWork x)),
     wi_UnmarshalWork = (\<lambda>b. case b of BWork x \<Rightarrow> Some x | _ \<Rightarrow> None),
     wi_MarshalState = (\<lambda>x. Some (BState x)),
     wi_UnmarshalState = (\<lambda>b. case b of BState x \<Rightarrow> Some x | _ \<Rightarrow> None),
     wi_MarshalUpdate = (\<lambda>x. Some (BUpdate x)),
     wi_UnmarshalUpdate = (\<lambda>b. case b of BUpdate x \<Rightarrow> Some x | _ \<Rightarrow> None),
     wi_MarshalMetrics = (\<lambda>x. Some (BMetrics x))\<rparr>"

lemma demo_wire_ok: "wire_ok demo_wire" "wire_total demo_wire"
  by (auto simp: wire_ok_def wire_total_def demo_wire_def)

definition duo_env :: "client \<Rightarrow> site_env" where
  "duo_env cl = \<lparr>se_json = mark_codec, se_newGuid = tally_guid, se_now = 0, se_liveDiskMB = None,
     se_listDrivers = Inr [], se_node = calm_env, se_exitErr = NoErr, se_cachedMetrics = []\<rparr>"

definition duo_capacity :: ExecutorResources where
  "duo_capacity = NewExecutorResources 512 1024 8"

definition duo_sites :: "client \<Rightarrow> rep_site" where
  "duo_sites cl = \<lparr>rs_rep = NewAuctionCellRep (if cl = 0 then ''cell-a'' else ''cell-b'') (int cl) []
       [(''cflinuxfs4'', ''/cflinuxfs4.tar'')] [''docker''] ''z1'' [] [] 0 False,
     rs_client = NewClient duo_capacity life_config, rs_evacuation = evacuation_New\<rparr>"

definition duo_clients :: "(string \<times> client) list" where
  "duo_clients = [(''cell-a'', 0), (''cell-b'', 1)]"

definition duo_zones :: "zones \<times> cell_store" where
  "duo_zones = fetchStateAndBuildZones (cluster_State demo_wire duo_env (\<lambda>cl. False) duo_sites) duo_clients (Fin 0)"

definition duo_scheduler :: Scheduler where
  "duo_scheduler = dep_scheduler\<lparr>s_zones := fst duo_zones\<rparr>"

lemma duo_fetch:
  "fetchStateAndBuildZones (cluster_State demo_wire duo_env (\<lambda>cl. False) duo_sites) duo_clients (Fin 0)
     = (s_zones duo_scheduler, snd duo_zones)"
  by (simp add: duo_scheduler_def duo_zones_def)

lemma duo_fresh: "fresh_guids (se_newGuid (duo_env cl))"
  by (simp add: duo_env_def fresh_tally)

lemma duo_ready: "ready_site dep_request duo_capacity life_config [''docker''] (duo_env cl) (duo_sites cl)"
proof -
  have "guids_apart tally_guid [''job'']"
    by (auto simp: guids_apart_def fresh_tally tally_guid_def dest: arg_cong [where f = hd])
  moreover have "map ta_id (req_Tasks dep_request) = [''job'']"
    by (simp add: dep_request_def dep_task_def NewTaskAuction_def NewSchedulingTask_def Task_Identifier_def)
  moreover have "containerGuids (client_nodes (NewClient duo_capacity life_config)) = []"
    by (simp add: containerGuids_def NewClient_def newNodeMap_def)
  ultimately show ?thesis
    by (auto simp: ready_site_def duo_sites_def duo_env_def NewAuctionCellRep_def exec_reach.started small_capacity_def
        duo_capacity_def NewExecutorResources_def is_i32_def is_i64_def list_all_iff)
qed

lemma duo_zones_nonempty: "s_zones duo_scheduler \<noteq> []"
proof -
  let ?S = "cluster_State demo_wire duo_env (\<lambda>cl. False) duo_sites"
  have "accepted_cell ?S (''cell-a'', 0) \<noteq> None"
    by (simp add: accepted_cell_def cluster_State_def client_State_def site_transport_def handlers_New_def
        state_ServeHTTP_def rep_State_def duo_env_def duo_sites_def demo_wire_def NewAuctionCellRep_def
        NewClient_def evacuation_New_def Evacuating_def Let_def)
  then have "List.map_filter (accepted_cell ?S) duo_clients \<noteq> []"
    by (auto simp: duo_clients_def List.map_filter_simps)
  then show ?thesis using fetchStateAndBuildZones_facts(2) [OF duo_fetch] by auto
qed

end
