(* ===== verification/Rep_Generator.thy ===== *)
theory Rep_Generator
  imports Rep_Handlers Operation_Queue
begin

section \<open>Operations of the rep (rep/generator, rep/generator/internal)\<close>

text \<open>
  The generator compares the containers of the executor with the LRPs and tasks the bbs holds for
  the cell and makes one operation per guid; executing an operation reports the state of one
  container to the bbs and drives the container through the executor. The bbs is a collaborator: it
  answers each call depending on all calls so far (\<open>bbs_client\<close>), and the state records the calls.
  \<open>sync.Map\<close> is the list of guids it holds. Logs and metrics are left out; the log line that an
  evacuation sends to an application is kept, because the code takes care to send it once.
\<close>

subsection \<open>The bbs as the rep calls it\<close>

datatype bbs_error =
    Error_ActualLRPCannotBeClaimed
  | Error_ActualLRPCannotBeStarted
  | Error_InvalidStateTransition
  | Error_ResourceNotFound
  | Error_Other string

datatype bbs_call =
    ClaimActualLRP ActualLRPKey ActualLRPInstanceKey
  | StartActualLRP ActualLRPKey ActualLRPInstanceKey ActualLRPNetInfo "string list" Tags bool string
  | CrashActualLRP ActualLRPKey ActualLRPInstanceKey string
  | RemoveActualLRP ActualLRPKey ActualLRPInstanceKey
  | RemoveEvacuatingActualLRP ActualLRPKey ActualLRPInstanceKey
  | EvacuateClaimedActualLRP ActualLRPKey ActualLRPInstanceKey
  | EvacuateRunningActualLRP ActualLRPKey ActualLRPInstanceKey ActualLRPNetInfo "string list" Tags bool string
  | EvacuateStoppedActualLRP ActualLRPKey ActualLRPInstanceKey
  | EvacuateCrashedActualLRP ActualLRPKey ActualLRPInstanceKey string
  | DesiredLRPByProcessGuid string
  | StartTask string string
  | TaskByGuid string
  | CompleteTask string string bool string string
  | RejectTask string string

text \<open>Each field answers the last call of a history of calls.\<close>

record bbs_client =
  bb_error :: "bbs_call list \<Rightarrow> bbs_error option"
  bb_keepContainer :: "bbs_call list \<Rightarrow> bool"
  bb_changed :: "bbs_call list \<Rightarrow> bool"
  bb_desired :: "bbs_call list \<Rightarrow> DesiredLRP"
  bb_task :: "bbs_call list \<Rightarrow> string \<times> TaskDefinition"

text \<open>
  The stream of a result file: a tar header that may not be readable, then the entry: the size the
  header announces and the pieces in which the bytes arrive, \<open>Inl\<close> being a failing read.
\<close>

record tar_entry =
  te_nb :: nat
  te_pieces :: "(string + string) list"

record gen_env =
  ge_bbs :: bbs_client
  ge_conv :: conv_env
  ge_node :: node_env
  ge_exitErr :: run_error
  ge_streamOut :: "string \<Rightarrow> string \<Rightarrow> string + tar_entry"
  ge_cellID :: string
  ge_availabilityZone :: string
  ge_stackPathMap :: StackPathMap
  ge_layeringMode :: string

record gen_state =
  gn_client :: exec_client
  gn_calls :: "bbs_call list"
  gn_evacuatedContainers :: "string list"
  gn_appLogs :: "(string \<times> string \<times> str_map) list"

definition call_bbs :: "gen_env \<Rightarrow> bbs_call \<Rightarrow> gen_state \<Rightarrow> gen_state \<times> bbs_error option" where
  "call_bbs env call s =
     (s\<lparr>gn_calls := gn_calls s @ [call]\<rparr>, bb_error (ge_bbs env) (gn_calls s @ [call]))"

subsection \<open>The container delegate\<close>

definition delegate_GetContainer :: "string \<Rightarrow> gen_state \<Rightarrow> Container option" where
  "delegate_GetContainer guid s =
     (case GetContainer (gn_client s) guid of Inl e \<Rightarrow> None | Inr container \<Rightarrow> Some container)"

definition delegate_DeleteContainer :: "gen_env \<Rightarrow> string \<Rightarrow> string \<Rightarrow> gen_state \<Rightarrow> gen_state \<times> bool" where
  "delegate_DeleteContainer env traceID guid s =
     (let (c, err) = DeleteContainer (ge_node env) (gn_client s) traceID guid (ge_exitErr env)
      in (s\<lparr>gn_client := c\<rparr>, err = None))"

definition delegate_StopContainer :: "string \<Rightarrow> string \<Rightarrow> gen_state \<Rightarrow> gen_state \<times> bool" where
  "delegate_StopContainer traceID guid s =
     (let (c, err) = StopContainer (gn_client s) traceID guid in (s\<lparr>gn_client := c\<rparr>, err = None))"

definition delegate_RunContainer :: "gen_env \<Rightarrow> string \<Rightarrow> RunRequest \<Rightarrow> gen_state \<Rightarrow> gen_state \<times> bool" where
  "delegate_RunContainer env traceID req s =
     (let (c, err) = RunContainer (gn_client s) traceID req;
          s = s\<lparr>gn_client := c\<rparr>
      in if err \<noteq> None then (fst (delegate_DeleteContainer env traceID (rq_Guid req) s), False)
         else (s, True))"

text \<open>
  \<open>tar.Reader.Read\<close> of a regular entry into a buffer of \<open>k\<close> bytes: it never reads past the
  announced size, and reports the end together with or after the last byte.
\<close>

datatype read_error = EOF | ErrUnexpectedEOF | ReadError string

definition tar_Read :: "nat \<Rightarrow> tar_entry \<Rightarrow> string \<times> read_error option \<times> tar_entry" where
  "tar_Read k e =
     (let b = min k (te_nb e);
          (data, err, pieces) =
            (if b = 0 then ([], None, te_pieces e)
             else case te_pieces e of
                 [] \<Rightarrow> ([], Some EOF, [])
               | Inl m # rest \<Rightarrow> ([], Some (ReadError m), rest)
               | Inr p # rest \<Rightarrow>
                   if length p \<le> b then (p, None, rest) else (take b p, None, Inr (drop b p) # rest));
          nb = te_nb e - length data;
          e' = \<lparr>te_nb = nb, te_pieces = pieces\<rparr>
      in if err = Some EOF \<and> nb > 0 then (data, Some ErrUnexpectedEOF, e')
         else if err = None \<and> nb = 0 then (data, Some EOF, e')
         else (data, err, e'))"

definition MAX_RESULT_SIZE :: nat where
  "MAX_RESULT_SIZE = 1024 * 50"

datatype fetch_error = ErrExecutor exec_error | ErrTar string | ErrResultFileTooLarge | ErrRead read_error

definition entry_left :: "tar_entry \<Rightarrow> nat" where
  "entry_left e = sum_list (map (\<lambda>p. case p of Inl m \<Rightarrow> 1 | Inr d \<Rightarrow> Suc (length d)) (te_pieces e))"

lemma tar_Read_progress:
  "tar_Read k e = (data, None, e') \<Longrightarrow> 0 < k \<Longrightarrow> entry_left e' < entry_left e"
  by (auto simp: tar_Read_def Let_def entry_left_def split: if_splits list.splits sum.splits)

text \<open>The loop over the buffer; the bytes read so far never exceed the limit at its head.\<close>

function read_result :: "tar_entry \<Rightarrow> string \<Rightarrow> fetch_error + string" where
  "read_result e buf =
     (if length buf > MAX_RESULT_SIZE then Inl ErrResultFileTooLarge
      else case tar_Read (MAX_RESULT_SIZE + 1 - length buf) e of (data, readErr, e') \<Rightarrow>
        let buf = buf @ data
        in if length buf > MAX_RESULT_SIZE then Inl ErrResultFileTooLarge
           else case readErr of
               None \<Rightarrow> read_result e' buf
             | Some EOF \<Rightarrow> Inr buf
             | Some err \<Rightarrow> Inl (ErrRead err))"
  by pat_completeness auto
termination
  by (relation "measure (entry_left \<circ> fst)") (auto dest!: sym [of _ "tar_Read _ _"] tar_Read_progress)

declare read_result.simps [simp del]

definition FetchContainerResultFile :: "gen_env \<Rightarrow> string \<Rightarrow> string \<Rightarrow> gen_state \<Rightarrow> fetch_error + string" where
  "FetchContainerResultFile env guid filename s =
     (case store_GetFiles (cl_store (gn_client s)) guid (\<lambda>gc. ge_streamOut env gc filename) of
        Inl e \<Rightarrow> Inl (ErrExecutor e)
      | Inr (Inl m) \<Rightarrow> Inl (ErrTar m)
      | Inr (Inr e) \<Rightarrow> read_result e [])"

subsection \<open>LRP containers\<close>

text \<open>\<open>lrpContainer\<close>: a container with the keys its tags give.\<close>

record lrpContainer =
  lrc_Key :: ActualLRPKey
  lrc_InstanceKey :: ActualLRPInstanceKey
  lrc_Container :: Container

definition newLRPContainer :: "gen_env \<Rightarrow> Container \<Rightarrow> rep_error + lrpContainer" where
  "newLRPContainer env container =
     (case ActualLRPKeyFromTags (co_Tags container) of
        Inl e \<Rightarrow> Inl e
      | Inr lrpKey \<Rightarrow>
          (case ActualLRPInstanceKeyFromContainer container (ge_cellID env) of
             Inl e \<Rightarrow> Inl e
           | Inr instanceKey \<Rightarrow>
               Inr \<lparr>lrc_Key = lrpKey, lrc_InstanceKey = instanceKey, lrc_Container = container\<rparr>))"

abbreviation lrc_Guid :: "lrpContainer \<Rightarrow> string" where
  "lrc_Guid c \<equiv> co_Guid (lrc_Container c)"

definition internal_routes :: "Container \<Rightarrow> string list" where
  "internal_routes c = (case ri_InternalRoutes (co_RunInfo c) of None \<Rightarrow> [] | Some rs \<Rightarrow> rs)"

subsection \<open>The ordinary processor\<close>

definition claimLRPContainer :: "gen_env \<Rightarrow> string \<Rightarrow> lrpContainer \<Rightarrow> gen_state \<Rightarrow> gen_state \<times> bool" where
  "claimLRPContainer env traceID c s =
     (case call_bbs env (ClaimActualLRP (lrc_Key c) (lrc_InstanceKey c)) s of
        (s, None) \<Rightarrow> (s, True)
      | (s, Some bbsErr) \<Rightarrow>
          (if bbsErr = Error_ActualLRPCannotBeClaimed
           then fst (delegate_DeleteContainer env traceID (lrc_Guid c) s) else s, False))"

definition ordinary_processReservedContainer ::
  "gen_env \<Rightarrow> string \<Rightarrow> lrpContainer \<Rightarrow> gen_state \<Rightarrow> gen_state" where
  "ordinary_processReservedContainer env traceID c s =
     (case claimLRPContainer env traceID c s of
        (s, False) \<Rightarrow> s
      | (s, True) \<Rightarrow>
          (case call_bbs env (DesiredLRPByProcessGuid (key_ProcessGuid (lrc_Key c))) s of
             (s, Some err) \<Rightarrow> s
           | (s, None) \<Rightarrow>
               (case NewRunRequestFromDesiredLRP (ge_conv env) (lrc_Guid c)
                       (bb_desired (ge_bbs env) (gn_calls s)) (lrc_Key c) (lrc_InstanceKey c)
                       (ge_stackPathMap env) (ge_layeringMode env) of
                  Inl err \<Rightarrow> s
                | Inr runReq \<Rightarrow>
                    (case delegate_RunContainer env traceID runReq s of
                       (s, True) \<Rightarrow> s
                     | (s, False) \<Rightarrow> fst (call_bbs env (RemoveActualLRP (lrc_Key c) (lrc_InstanceKey c)) s)))))"

definition ordinary_processInitializingContainer ::
  "gen_env \<Rightarrow> string \<Rightarrow> lrpContainer \<Rightarrow> gen_state \<Rightarrow> gen_state" where
  "ordinary_processInitializingContainer env traceID c s = fst (claimLRPContainer env traceID c s)"

definition ordinary_processCreatedContainer ::
  "gen_env \<Rightarrow> string \<Rightarrow> lrpContainer \<Rightarrow> gen_state \<Rightarrow> gen_state" where
  "ordinary_processCreatedContainer env traceID c s = fst (claimLRPContainer env traceID c s)"

definition ordinary_processRunningContainer ::
  "gen_env \<Rightarrow> string \<Rightarrow> lrpContainer \<Rightarrow> gen_state \<Rightarrow> gen_state" where
  "ordinary_processRunningContainer env traceID c s =
     (let co = lrc_Container c in
      case ActualLRPNetInfoFromContainer co of
        Inl err \<Rightarrow> s
      | Inr netInfo \<Rightarrow>
          (case call_bbs env (StartActualLRP (lrc_Key c) (lrc_InstanceKey c) netInfo (internal_routes co)
                  (mc_Tags (ri_MetricsConfig (co_RunInfo co))) (co_Routable co) (ge_availabilityZone env)) s of
             (s, bbsErr) \<Rightarrow>
               if bbsErr = Some Error_ActualLRPCannotBeStarted
               then fst (delegate_StopContainer traceID (lrc_Guid c) s) else s))"

definition ordinary_processCompletedContainer ::
  "gen_env \<Rightarrow> string \<Rightarrow> lrpContainer \<Rightarrow> gen_state \<Rightarrow> gen_state" where
  "ordinary_processCompletedContainer env traceID c s =
     (let result = co_RunResult (lrc_Container c);
          s = (if rr_Stopped result
               then fst (call_bbs env (RemoveActualLRP (lrc_Key c) (lrc_InstanceKey c)) s)
               else fst (call_bbs env (CrashActualLRP (lrc_Key c) (lrc_InstanceKey c)
                           (rr_FailureReason result)) s))
      in fst (delegate_DeleteContainer env traceID (lrc_Guid c) s))"

definition ordinary_Process :: "gen_env \<Rightarrow> string \<Rightarrow> Container \<Rightarrow> gen_state \<Rightarrow> gen_state" where
  "ordinary_Process env traceID container s =
     (case newLRPContainer env container of
        Inl err \<Rightarrow> s
      | Inr c \<Rightarrow>
          (case co_State container of
             StateReserved \<Rightarrow> ordinary_processReservedContainer env traceID c s
           | StateInitializing \<Rightarrow> ordinary_processInitializingContainer env traceID c s
           | StateCreated \<Rightarrow> ordinary_processCreatedContainer env traceID c s
           | StateRunning \<Rightarrow> ordinary_processRunningContainer env traceID c s
           | StateCompleted \<Rightarrow> ordinary_processCompletedContainer env traceID c s
           | StateInvalid \<Rightarrow> s))"

subsection \<open>The evacuation processor\<close>

definition evacuateClaimedLRPContainer :: "gen_env \<Rightarrow> string \<Rightarrow> lrpContainer \<Rightarrow> gen_state \<Rightarrow> gen_state" where
  "evacuateClaimedLRPContainer env traceID c s =
     (let s = fst (call_bbs env (EvacuateClaimedActualLRP (lrc_Key c) (lrc_InstanceKey c)) s)
      in fst (delegate_DeleteContainer env traceID (lrc_Guid c) s))"


definition GetSourceNameAndTagsForLogging :: "LogConfig \<Rightarrow> string \<times> str_map" where
  "GetSourceNameAndTagsForLogging l =
     (let sourceName = (if lc_SourceName l = [] then ''LOG'' else lc_SourceName l);
          tags = (case lc_Tags l of None \<Rightarrow> [] | Some ts \<Rightarrow> ts);
          tags = (if map_of tags ''source_id'' = None then AList.update ''source_id'' (lc_Guid l) tags else tags);
          tags = (if map_of tags ''instance_id'' = None
                  then AList.update ''instance_id'' (itoa (lc_Index l)) tags else tags)
      in (sourceName, tags))"

definition SendAppLog :: "string \<Rightarrow> LogConfig \<Rightarrow> gen_state \<Rightarrow> gen_state" where
  "SendAppLog msg logConfig s =
     s\<lparr>gn_appLogs := gn_appLogs s @ [(msg, GetSourceNameAndTagsForLogging logConfig)]\<rparr>"

definition log_replacement :: "gen_env \<Rightarrow> lrpContainer \<Rightarrow> gen_state \<Rightarrow> gen_state" where
  "log_replacement env c s =
     (if lrc_Guid c \<in> set (gn_evacuatedContainers s) then s
      else SendAppLog (''Cell '' @ ge_cellID env @ '' requesting replacement for instance ''
                 @ ikey_InstanceGuid (lrc_InstanceKey c))
             (ri_LogConfig (co_RunInfo (lrc_Container c)))
             (s\<lparr>gn_evacuatedContainers := lrc_Guid c # gn_evacuatedContainers s\<rparr>))"

definition evacuation_processRunningContainer ::
  "gen_env \<Rightarrow> string \<Rightarrow> lrpContainer \<Rightarrow> gen_state \<Rightarrow> gen_state" where
  "evacuation_processRunningContainer env traceID c s =
     (let co = lrc_Container c in
      case ActualLRPNetInfoFromContainer co of
        Inl err \<Rightarrow> s
      | Inr netInfo \<Rightarrow>
          (let s = log_replacement env c s;
               (s, err) = call_bbs env (EvacuateRunningActualLRP (lrc_Key c) (lrc_InstanceKey c) netInfo
                  (internal_routes co) (mc_Tags (ri_MetricsConfig (co_RunInfo co))) (co_Routable co)
                  (ge_availabilityZone env)) s
           in if \<not> bb_keepContainer (ge_bbs env) (gn_calls s)
              then fst (delegate_DeleteContainer env traceID (lrc_Guid c) s) else s))"

definition evacuation_processCompletedContainer ::
  "gen_env \<Rightarrow> string \<Rightarrow> lrpContainer \<Rightarrow> gen_state \<Rightarrow> gen_state" where
  "evacuation_processCompletedContainer env traceID c s =
     (let result = co_RunResult (lrc_Container c);
          s = (if rr_Stopped result
               then fst (call_bbs env (EvacuateStoppedActualLRP (lrc_Key c) (lrc_InstanceKey c)) s)
               else fst (call_bbs env (EvacuateCrashedActualLRP (lrc_Key c) (lrc_InstanceKey c)
                           (rr_FailureReason result)) s))
      in fst (delegate_DeleteContainer env traceID (lrc_Guid c) s))"

definition evacuation_Process :: "gen_env \<Rightarrow> string \<Rightarrow> Container \<Rightarrow> gen_state \<Rightarrow> gen_state" where
  "evacuation_Process env traceID container s =
     (case newLRPContainer env container of
        Inl err \<Rightarrow> s
      | Inr c \<Rightarrow>
          (case co_State container of
             StateReserved \<Rightarrow> evacuateClaimedLRPContainer env traceID c s
           | StateInitializing \<Rightarrow> evacuateClaimedLRPContainer env traceID c s
           | StateCreated \<Rightarrow> evacuateClaimedLRPContainer env traceID c s
           | StateRunning \<Rightarrow> evacuation_processRunningContainer env traceID c s
           | StateCompleted \<Rightarrow> evacuation_processCompletedContainer env traceID c s
           | StateInvalid \<Rightarrow> s))"

definition lrp_Process :: "gen_env \<Rightarrow> bool \<Rightarrow> string \<Rightarrow> Container \<Rightarrow> gen_state \<Rightarrow> gen_state" where
  "lrp_Process env evacuating traceID container s =
     (if evacuating then evacuation_Process env traceID container s
      else ordinary_Process env traceID container s)"

subsection \<open>The task processor\<close>

definition startTask :: "gen_env \<Rightarrow> string \<Rightarrow> string \<Rightarrow> gen_state \<Rightarrow> gen_state \<times> bool" where
  "startTask env traceID guid s =
     (case call_bbs env (StartTask guid (ge_cellID env)) s of
        (s, Some bbsErr) \<Rightarrow>
          (if bbsErr = Error_InvalidStateTransition \<or> bbsErr = Error_ResourceNotFound
           then fst (delegate_DeleteContainer env traceID guid s) else s, False)
      | (s, None) \<Rightarrow> (s, bb_changed (ge_bbs env) (gn_calls s)))"

definition task_processActiveContainer :: "gen_env \<Rightarrow> string \<Rightarrow> Container \<Rightarrow> gen_state \<Rightarrow> gen_state" where
  "task_processActiveContainer env traceID container s =
     (case startTask env traceID (co_Guid container) s of
        (s, False) \<Rightarrow> s
      | (s, True) \<Rightarrow>
          (case call_bbs env (TaskByGuid (co_Guid container)) s of
             (s, Some err) \<Rightarrow> s
           | (s, None) \<Rightarrow>
               (let (taskGuid, task) = bb_task (ge_bbs env) (gn_calls s) in
                case NewRunRequestFromTask (ge_conv env) taskGuid task (ge_stackPathMap env)
                       (ge_layeringMode env) of
                  Inl err \<Rightarrow> s
                | Inr runReq \<Rightarrow>
                    (case delegate_RunContainer env traceID runReq s of
                       (s, True) \<Rightarrow> s
                     | (s, False) \<Rightarrow>
                         fst (call_bbs env (CompleteTask (co_Guid container) (ge_cellID env) True
                                ''failed to run container'' []) s)))))"

definition completeTask :: "gen_env \<Rightarrow> Container \<Rightarrow> gen_state \<Rightarrow> gen_state" where
  "completeTask env container s =
     (let rr = co_RunResult container; guid = co_Guid container; cellID = ge_cellID env in
      if rr_Failed rr \<and> rr_Retryable rr
      then fst (call_bbs env (RejectTask guid (rr_FailureReason rr)) s)
      else
        let resultFile = tags_get (co_Tags container) ''result-file'';
            fetched = (if resultFile = [] then Inr []
                       else FetchContainerResultFile env guid resultFile s)
        in if isl fetched \<and> \<not> rr_Failed rr
           then fst (call_bbs env (CompleteTask guid cellID True ''failed to fetch result'' []) s)
           else
             let result = (case fetched of Inl e \<Rightarrow> [] | Inr r \<Rightarrow> r)
             in case call_bbs env (CompleteTask guid cellID (rr_Failed rr) (rr_FailureReason rr) result) s of
                  (s, err) \<Rightarrow>
                    if err = Some Error_InvalidStateTransition
                    then fst (call_bbs env (CompleteTask guid cellID True ''invalid state transition'' []) s)
                    else s)"

definition task_processCompletedContainer :: "gen_env \<Rightarrow> string \<Rightarrow> Container \<Rightarrow> gen_state \<Rightarrow> gen_state" where
  "task_processCompletedContainer env traceID container s =
     fst (delegate_DeleteContainer env traceID (co_Guid container) (completeTask env container s))"

definition task_Process :: "gen_env \<Rightarrow> string \<Rightarrow> Container \<Rightarrow> gen_state \<Rightarrow> gen_state" where
  "task_Process env traceID container s =
     (case co_State container of
        StateReserved \<Rightarrow> task_processActiveContainer env traceID container s
      | StateInitializing \<Rightarrow> task_processActiveContainer env traceID container s
      | StateCreated \<Rightarrow> task_processActiveContainer env traceID container s
      | StateRunning \<Rightarrow> task_processActiveContainer env traceID container s
      | StateCompleted \<Rightarrow> task_processCompletedContainer env traceID container s
      | StateInvalid \<Rightarrow> s)"

subsection \<open>Operations\<close>

datatype operation =
    ResidualInstanceLRPOperation string ActualLRPKey ActualLRPInstanceKey
  | ResidualEvacuatingLRPOperation string ActualLRPKey ActualLRPInstanceKey
  | ResidualJointLRPOperation string ActualLRPKey ActualLRPInstanceKey
  | ResidualTaskOperation string string string
  | ContainerOperation string string

fun op_Key :: "operation \<Rightarrow> string" where
  "op_Key (ResidualInstanceLRPOperation traceID key ikey) = ikey_InstanceGuid ikey"
| "op_Key (ResidualEvacuatingLRPOperation traceID key ikey) = ikey_InstanceGuid ikey"
| "op_Key (ResidualJointLRPOperation traceID key ikey) = ikey_InstanceGuid ikey"
| "op_Key (ResidualTaskOperation traceID taskGuid cellId) = taskGuid"
| "op_Key (ContainerOperation traceID guid) = guid"

definition lrp_container_exists :: "ActualLRPKey \<Rightarrow> ActualLRPInstanceKey \<Rightarrow> gen_state \<Rightarrow> bool" where
  "lrp_container_exists key ikey s =
     (delegate_GetContainer (LRPContainerGuid (key_ProcessGuid key) (ikey_InstanceGuid ikey)) s \<noteq> None)"

definition residualInstance_Execute ::
  "gen_env \<Rightarrow> ActualLRPKey \<Rightarrow> ActualLRPInstanceKey \<Rightarrow> gen_state \<Rightarrow> gen_state" where
  "residualInstance_Execute env key ikey s =
     (if lrp_container_exists key ikey s then s
      else fst (call_bbs env (RemoveActualLRP key ikey) s))"

definition residualEvacuating_Execute ::
  "gen_env \<Rightarrow> ActualLRPKey \<Rightarrow> ActualLRPInstanceKey \<Rightarrow> gen_state \<Rightarrow> gen_state" where
  "residualEvacuating_Execute env key ikey s =
     (if lrp_container_exists key ikey s then s
      else fst (call_bbs env (RemoveEvacuatingActualLRP key ikey) s))"

definition residualJoint_Execute ::
  "gen_env \<Rightarrow> ActualLRPKey \<Rightarrow> ActualLRPInstanceKey \<Rightarrow> gen_state \<Rightarrow> gen_state" where
  "residualJoint_Execute env key ikey s =
     (if lrp_container_exists key ikey s then s
      else fst (call_bbs env (RemoveEvacuatingActualLRP key ikey)
                 (fst (call_bbs env (RemoveActualLRP key ikey) s))))"

definition residualTask_Execute :: "gen_env \<Rightarrow> string \<Rightarrow> string \<Rightarrow> gen_state \<Rightarrow> gen_state" where
  "residualTask_Execute env taskGuid cellId s =
     (if delegate_GetContainer taskGuid s \<noteq> None then s
      else fst (call_bbs env (CompleteTask taskGuid cellId True ''task container does not exist''
                 ''task container does not exist'') s))"

definition container_Execute :: "gen_env \<Rightarrow> bool \<Rightarrow> string \<Rightarrow> string \<Rightarrow> gen_state \<Rightarrow> gen_state" where
  "container_Execute env evacuating traceID guid s =
     (case delegate_GetContainer guid s of
        None \<Rightarrow> s
      | Some container \<Rightarrow>
          (let lifecycle = tags_get (co_Tags container) ''lifecycle''
           in if lifecycle = ''lrp'' then lrp_Process env evacuating traceID container s
              else if lifecycle = ''task'' then task_Process env traceID container s
              else s))"

lemmas Execute_defs [simp] = residualInstance_Execute_def residualEvacuating_Execute_def
  residualJoint_Execute_def residualTask_Execute_def container_Execute_def

text \<open>The method \<open>Execute\<close> of the interface, dispatched on the operation.\<close>

fun op_Execute :: "gen_env \<Rightarrow> bool \<Rightarrow> operation \<Rightarrow> gen_state \<Rightarrow> gen_state" where
  "op_Execute env evacuating (ResidualInstanceLRPOperation traceID key ikey) s = residualInstance_Execute env key ikey s"
| "op_Execute env evacuating (ResidualEvacuatingLRPOperation traceID key ikey) s = residualEvacuating_Execute env key ikey s"
| "op_Execute env evacuating (ResidualJointLRPOperation traceID key ikey) s = residualJoint_Execute env key ikey s"
| "op_Execute env evacuating (ResidualTaskOperation traceID taskGuid cellId) s = residualTask_Execute env taskGuid cellId s"
| "op_Execute env evacuating (ContainerOperation traceID guid) s = container_Execute env evacuating traceID guid s"

subsection \<open>The generator\<close>

datatype presence = ActualLRP_Ordinary | ActualLRP_Evacuating | ActualLRP_Suspect

record ActualLRP =
  al_Key :: ActualLRPKey
  al_InstanceKey :: ActualLRPInstanceKey
  al_Presence :: presence

definition index_by :: "('a \<Rightarrow> string) \<Rightarrow> 'a list \<Rightarrow> (string \<times> 'a) list" where
  "index_by key xs = fold (\<lambda>x m. AList.update (key x) x m) xs []"

definition lrp_guid :: "ActualLRP \<Rightarrow> string" where
  "lrp_guid lrp = ikey_InstanceGuid (al_InstanceKey lrp)"

text \<open>\<open>batch[guid] = op\<close> unless the guid already has an operation.\<close>

definition add_missing :: "(string \<times> operation) list \<Rightarrow> (string \<times> operation) list \<Rightarrow> (string \<times> operation) list" where
  "add_missing ops batch =
     fold (\<lambda>(guid, op) batch. if map_of batch guid \<noteq> None then batch else AList.update guid op batch) ops batch"

definition operationFromContainer :: "string \<Rightarrow> string \<Rightarrow> operation" where
  "operationFromContainer traceID guid = ContainerOperation traceID guid"

definition batch_of ::
  "string \<Rightarrow> Container list \<Rightarrow> ActualLRP list \<Rightarrow> string list \<Rightarrow> (string \<times> operation) list" where
  "batch_of cellID foundContainers lrps foundTasks =
     (let traceID = [];
          containers = index_by co_Guid foundContainers;
          evacuatingLRPs = index_by lrp_guid (filter (\<lambda>l. al_Presence l = ActualLRP_Evacuating) lrps);
          instanceLRPs = index_by lrp_guid (filter (\<lambda>l. al_Presence l \<noteq> ActualLRP_Evacuating) lrps);
          tasks = index_by (\<lambda>t. t) foundTasks;
          batch = map (\<lambda>(guid, c). (guid, operationFromContainer traceID guid)) containers;
          batch = add_missing (map (\<lambda>(guid, lrp).
              (guid, if map_of evacuatingLRPs guid \<noteq> None
                     then ResidualJointLRPOperation traceID (al_Key lrp) (al_InstanceKey lrp)
                     else ResidualInstanceLRPOperation traceID (al_Key lrp) (al_InstanceKey lrp)))
            instanceLRPs) batch;
          batch = add_missing (map (\<lambda>(guid, lrp).
              (guid, ResidualEvacuatingLRPOperation traceID (al_Key lrp) (al_InstanceKey lrp)))
            evacuatingLRPs) batch
      in add_missing (map (\<lambda>(guid, t). (guid, ResidualTaskOperation traceID guid cellID)) tasks) batch)"

definition BatchOperations ::
  "string \<Rightarrow> string + ActualLRP list \<Rightarrow> string + string list \<Rightarrow> exec_client
   \<Rightarrow> string list + (string \<times> operation) list" where
  "BatchOperations cellID lrps tasks c =
     (let errs = (case lrps of Inl e \<Rightarrow> [''failed to retrieve lrps: '' @ e] | Inr _ \<Rightarrow> [])
               @ (case tasks of Inl e \<Rightarrow> [''failed to retrieve tasks: '' @ e] | Inr _ \<Rightarrow> [])
      in if errs \<noteq> [] then Inl errs
         else Inr (batch_of cellID (ListContainers c) (projr lrps) (projr tasks)))"

text \<open>The goroutine of \<open>OperationStream\<close>: one operation per lifecycle event, in order.\<close>

definition OperationStream :: "exec_event list \<Rightarrow> operation list" where
  "OperationStream events =
     map (\<lambda>e. operationFromContainer (event_TraceID e) (co_Guid (event_Container e))) events"


subsection \<open>Lemmas: what an operation may change\<close>

definition only_at :: "string \<Rightarrow> exec_client \<Rightarrow> exec_client \<Rightarrow> bool" where
  "only_at g c c' \<longleftrightarrow>
     (\<forall>h. h \<noteq> g \<longrightarrow> map_of (nm_nodes (client_nodes c')) h = map_of (nm_nodes (client_nodes c)) h)"

text \<open>An application is told once about the evacuation of each of its containers.\<close>

definition told_once :: "gen_state \<Rightarrow> bool" where
  "told_once s \<longleftrightarrow> distinct (gn_evacuatedContainers s)
     \<and> length (gn_appLogs s) = length (gn_evacuatedContainers s)"

abbreviation client_ok :: "ExecutorResources \<Rightarrow> exec_client \<Rightarrow> bool" where
  "client_ok tot c \<equiv> store_inv tot (client_config c) (client_nodes c)"

definition gen_moves :: "ExecutorResources \<Rightarrow> string \<Rightarrow> gen_state \<Rightarrow> gen_state \<Rightarrow> bool" where
  "gen_moves tot g s s' \<longleftrightarrow>
     exec_step\<^sup>*\<^sup>* (gn_client s) (gn_client s')
   \<and> prefix (gn_calls s) (gn_calls s')
   \<and> (told_once s \<longrightarrow> told_once s')
   \<and> (client_ok tot (gn_client s) \<longrightarrow> only_at g (gn_client s) (gn_client s'))"

named_theorems gen_intros \<open>operations move the state of one container\<close>

lemma exec_steps_ok: "exec_step\<^sup>*\<^sup>* c c' \<Longrightarrow> client_ok tot c \<Longrightarrow> client_ok tot c'"
proof (induction rule: rtranclp_induct)
  case (step d e)
  with exec_step_moves [OF step(2), of tot] show ?case by (simp add: store_moves_def)
qed simp

lemma gen_moves_refl [gen_intros]: "gen_moves tot g s s"
  by (simp add: gen_moves_def only_at_def)

lemma gen_moves_trans: "gen_moves tot g s s' \<Longrightarrow> gen_moves tot g s' s'' \<Longrightarrow> gen_moves tot g s s''"
  unfolding gen_moves_def only_at_def using exec_steps_ok
  by (metis prefix_order.trans rtranclp_trans)

lemma gen_moves_call [gen_intros]: "gen_moves tot g s (fst (call_bbs env call s))"
  by (simp add: gen_moves_def call_bbs_def only_at_def told_once_def)

lemma client_ok_guid:
  "client_ok tot c \<Longrightarrow> map_of (nm_nodes (client_nodes c)) g = Some n \<Longrightarrow> co_Guid (sn_info n) = g"
  by (auto simp: store_inv_def nodes_ok_def list_all_iff dest: map_of_SomeD)

lemma on_node_only:
  "h \<noteq> g \<Longrightarrow> map_of (nm_nodes (cs_containers (fst (on_node cs g f)))) h = map_of (nm_nodes (cs_containers cs)) h"
  by (auto simp: on_node_def put_node_def split_beta Let_def update_conv' split: sum.splits)

lemma Remove_only:
  assumes "\<And>n. map_of (nm_nodes m) g = Some n \<Longrightarrow> co_Guid (sn_info n) = g"
  shows "map_of (nm_nodes (nodeMap_Remove m g)) h = (if h = g then None else map_of (nm_nodes m) h)"
  using assms by (auto simp: nodeMap_Remove_def Info_def delete_conv' split: option.splits)

lemma on_node_inv:
  assumes "store_inv tot (cs_config cs) (cs_containers cs)" and "\<And>n. node_moves (cs_config cs) n (fst (f n))"
  shows "store_inv tot (cs_config cs) (cs_containers (fst (on_node cs g f)))"
  using on_node_moves [OF assms(2), of tot g] assms(1) by (simp add: store_moves_def)

lemma store_Destroy_nodes:
  assumes "store_inv tot (cs_config cs) (cs_containers cs)"
  shows "map_of (nm_nodes (cs_containers (fst (store_Destroy env cs t g err)))) h =
     (if h \<noteq> g then map_of (nm_nodes (cs_containers cs)) h
      else if snd (store_Destroy env cs t g err) = None then None
      else map_of (nm_nodes (cs_containers (fst (on_node cs g (\<lambda>n. node_Destroy env n t err))))) g)"
proof -
  let ?f = "\<lambda>n. node_Destroy env n t err"
  obtain cs' e where r: "on_node cs g ?f = (cs', e)" by fastforce
  have inv: "store_inv tot (cs_config cs) (cs_containers cs')"
    using on_node_inv [OF assms, of ?f g] by (simp add: r node_moves_destroy)
  have "co_Guid (sn_info n) = g" if "map_of (nm_nodes (cs_containers cs')) g = Some n" for n
    using inv that by (auto simp: store_inv_def nodes_ok_def list_all_iff dest: map_of_SomeD)
  note rm = Remove_only [of "cs_containers cs'" g, OF this]
  show ?thesis
    using on_node_only [of h g cs ?f] by (cases e) (auto simp: store_Destroy_def r rm)
qed

lemma gen_moves_delete [gen_intros]: "gen_moves tot g s (fst (delegate_DeleteContainer env t g s))"
proof -
  have step: "exec_step (gn_client s) (fst (DeleteContainer (ge_node env) (gn_client s) t g (ge_exitErr env)))"
    by (rule exec_step.delete)
  show ?thesis
    using step store_Destroy_nodes [of tot "cl_store (gn_client s)"]
    by (auto simp: gen_moves_def delegate_DeleteContainer_def DeleteContainer_def only_at_def told_once_def
        split_beta Let_def)
qed

lemma gen_moves_stop [gen_intros]: "gen_moves tot g s (fst (delegate_StopContainer t g s))"
proof -
  have step: "exec_step (gn_client s) (fst (StopContainer (gn_client s) t g))" by (rule exec_step.stop)
  then show ?thesis
    by (auto simp: gen_moves_def delegate_StopContainer_def StopContainer_def store_Stop_def only_at_def
        told_once_def on_node_only split_beta Let_def)
qed

lemma gen_moves_run:
  assumes "rq_Guid req = g"
  shows "gen_moves tot g s (fst (delegate_RunContainer env t req s))"
proof -
  let ?s = "s\<lparr>gn_client := fst (RunContainer (gn_client s) t req)\<rparr>"
  have step: "exec_step (gn_client s) (fst (RunContainer (gn_client s) t req))" by (rule exec_step.run)
  have "gen_moves tot g s ?s"
    using step assms
    by (auto simp: gen_moves_def RunContainer_def store_Initialize_def only_at_def told_once_def split_beta
        on_node_only split: prod.splits option.splits)
  moreover from this have "gen_moves tot g s (fst (delegate_DeleteContainer env t g ?s))"
    by (rule gen_moves_trans [OF _ gen_moves_delete])
  ultimately show ?thesis using assms by (simp add: delegate_RunContainer_def Let_def split_beta)
qed


lemma bind_result_Inr: "bind_result r f = Inr y \<longleftrightarrow> (\<exists>x. r = Inr x \<and> f x = Inr y)"
  by (cases r) (auto simp: bind_result_def)

lemma run_request_guid:
  "NewRunRequestFromDesiredLRP cv g d key ikey sp lm = Inr req \<Longrightarrow> rq_Guid req = g"
  unfolding NewRunRequestFromDesiredLRP_def Let_def split_beta bind_result_Inr
  by (elim exE conjE) (auto simp: NewRunRequest_def)

lemma task_request_guid: "NewRunRequestFromTask cv g d sp lm = Inr req \<Longrightarrow> rq_Guid req = g"
  unfolding NewRunRequestFromTask_def Let_def split_beta bind_result_Inr
  by (elim exE conjE) (auto simp: NewRunRequest_def)

lemma gen_moves_claim [gen_intros]: "gen_moves tot (lrc_Guid c) s (fst (claimLRPContainer env t c s))"
proof -
  let ?call = "ClaimActualLRP (lrc_Key c) (lrc_InstanceKey c)"
  have called: "gen_moves tot (lrc_Guid c) s (fst (call_bbs env ?call s))" by (intro gen_intros)
  have "gen_moves tot (lrc_Guid c) s
      (fst (delegate_DeleteContainer env t (lrc_Guid c) (fst (call_bbs env ?call s))))"
    by (rule gen_moves_trans [OF called gen_moves_delete])
  with called show ?thesis
    by (cases "call_bbs env ?call s") (auto simp: claimLRPContainer_def split: option.splits)
qed

lemma gen_moves_log [gen_intros]: "gen_moves tot g s (log_replacement env c s)"
  by (auto simp: gen_moves_def log_replacement_def SendAppLog_def only_at_def told_once_def)

lemma gen_moves_ordinary_reserved [gen_intros]:
  "gen_moves tot (lrc_Guid c) s (ordinary_processReservedContainer env t c s)"
proof -
  let ?g = "lrc_Guid c"
  obtain s1 b where c1: "claimLRPContainer env t c s = (s1, b)" by fastforce
  have m1: "gen_moves tot ?g s s1" using gen_moves_claim [of tot c s env t] c1 by simp
  let ?call = "DesiredLRPByProcessGuid (key_ProcessGuid (lrc_Key c))"
  obtain s2 e where c2: "call_bbs env ?call s1 = (s2, e)" by fastforce
  have m2: "gen_moves tot ?g s1 s2" using gen_moves_call [of tot ?g s1 env ?call] c2 by simp
  show ?thesis
  proof (cases "NewRunRequestFromDesiredLRP (ge_conv env) ?g (bb_desired (ge_bbs env) (gn_calls s2))
           (lrc_Key c) (lrc_InstanceKey c) (ge_stackPathMap env) (ge_layeringMode env)")
    case (Inl err)
    then show ?thesis using m1 gen_moves_trans [OF m1 m2]
      by (auto simp: ordinary_processReservedContainer_def c1 c2 split: bool.splits option.splits)
  next
    case (Inr req)
    obtain s3 ok where c3: "delegate_RunContainer env t req s2 = (s3, ok)" by fastforce
    have m3: "gen_moves tot ?g s2 s3"
      using gen_moves_run [OF run_request_guid [OF Inr], of tot s2 env t] c3 by simp
    let ?call = "RemoveActualLRP (lrc_Key c) (lrc_InstanceKey c)"
    have m4: "gen_moves tot ?g s3 (fst (call_bbs env ?call s3))" by (intro gen_intros)
    note m12 = gen_moves_trans [OF m1 m2] and m123 = gen_moves_trans [OF gen_moves_trans [OF m1 m2] m3]
    show ?thesis using m1 m12 m123 gen_moves_trans [OF m123 m4]
      by (auto simp: ordinary_processReservedContainer_def c1 c2 c3 Inr split: bool.splits option.splits)
  qed
qed

lemma gen_moves_call_then:
  "gen_moves tot g (fst (call_bbs env call s)) s' \<Longrightarrow> gen_moves tot g s s'"
  using gen_moves_trans gen_moves_call by blast

lemma gen_moves_call_delete [gen_intros]:
  "gen_moves tot g s (fst (delegate_DeleteContainer env t g (fst (call_bbs env call s))))"
  by (rule gen_moves_call_then, rule gen_moves_delete)

lemma newLRPContainer_container: "newLRPContainer env co = Inr c \<Longrightarrow> lrc_Container c = co"
  by (auto simp: newLRPContainer_def split: sum.splits)

lemma gen_moves_ordinary: "gen_moves tot (co_Guid co) s (ordinary_Process env t co s)"
proof (cases "newLRPContainer env co")
  case (Inl e)
  then show ?thesis by (simp add: ordinary_Process_def gen_intros)
next
  case (Inr c)
  note [simp] = newLRPContainer_container [OF Inr]
  have running: "gen_moves tot (co_Guid co) s (ordinary_processRunningContainer env t c s)"
    using gen_moves_call_then [OF gen_moves_stop] gen_moves_call
    by (auto simp: ordinary_processRunningContainer_def call_bbs_def Let_def gen_intros split: sum.splits)
  show ?thesis
    using Inr running gen_moves_ordinary_reserved [of tot c s env t] gen_moves_claim [of tot c s env t]
      gen_moves_call_delete [of tot "co_Guid co" s env t]
    by (cases "co_State co")
       (auto simp: ordinary_Process_def ordinary_processInitializingContainer_def gen_intros
          ordinary_processCreatedContainer_def ordinary_processCompletedContainer_def Let_def)
qed

lemma gen_moves_evacuation: "gen_moves tot (co_Guid co) s (evacuation_Process env t co s)"
proof (cases "newLRPContainer env co")
  case (Inl e)
  then show ?thesis by (simp add: evacuation_Process_def gen_intros)
next
  case (Inr c)
  note [simp] = newLRPContainer_container [OF Inr]
  let ?s = "log_replacement env c s"
  have log: "gen_moves tot (co_Guid co) s s'" if "gen_moves tot (co_Guid co) ?s s'" for s'
    using gen_moves_trans [OF gen_moves_log that] .
  have running: "gen_moves tot (co_Guid co) s (evacuation_processRunningContainer env t c s)"
    using log [OF gen_moves_call] log [OF gen_moves_call_delete]
    by (auto simp: evacuation_processRunningContainer_def Let_def split_beta gen_intros split: sum.splits)
  show ?thesis
    using Inr running gen_moves_call_delete [of tot "co_Guid co" s env t]
    by (cases "co_State co")
       (auto simp: evacuation_Process_def gen_intros evacuateClaimedLRPContainer_def
          evacuation_processCompletedContainer_def Let_def)
qed

text \<open>What is relied on of the bbs: it returns the task it was asked for.\<close>

definition bbs_ok :: "bbs_client \<Rightarrow> bool" where
  "bbs_ok b \<longleftrightarrow> (\<forall>calls guid. fst (bb_task b (calls @ [TaskByGuid guid])) = guid)"

lemma gen_moves_startTask: "gen_moves tot g s (fst (startTask env t g s))"
  using gen_moves_call [of tot g s env "StartTask g (ge_cellID env)"]
    gen_moves_call_delete [of tot g s env t "StartTask g (ge_cellID env)"]
  by (cases "call_bbs env (StartTask g (ge_cellID env)) s") (auto simp: startTask_def split: option.splits)

lemma gen_moves_active:
  assumes "bbs_ok (ge_bbs env)"
  shows "gen_moves tot (co_Guid co) s (task_processActiveContainer env t co s)"
proof -
  let ?g = "co_Guid co"
  obtain s1 b where c1: "startTask env t ?g s = (s1, b)" by fastforce
  have m1: "gen_moves tot ?g s s1" using gen_moves_startTask [of tot ?g s env t] c1 by simp
  obtain s2 e where c2: "call_bbs env (TaskByGuid ?g) s1 = (s2, e)" by fastforce
  have m2: "gen_moves tot ?g s1 s2" using gen_moves_call [of tot ?g s1 env "TaskByGuid ?g"] c2 by simp
  have "gn_calls s2 = gn_calls s1 @ [TaskByGuid ?g]" using c2 by (auto simp: call_bbs_def)
  then obtain task where c3: "bb_task (ge_bbs env) (gn_calls s2) = (?g, task)"
    using assms by (metis bbs_ok_def prod.collapse)
  show ?thesis
  proof (cases "NewRunRequestFromTask (ge_conv env) ?g task (ge_stackPathMap env) (ge_layeringMode env)")
    case (Inl err)
    then show ?thesis using m1 gen_moves_trans [OF m1 m2]
      by (auto simp: task_processActiveContainer_def c1 c2 c3 split: bool.splits option.splits)
  next
    case (Inr req)
    obtain s3 ok where c4: "delegate_RunContainer env t req s2 = (s3, ok)" by fastforce
    have m3: "gen_moves tot ?g s2 s3"
      using gen_moves_run [OF task_request_guid [OF Inr], of tot s2 env t] c4 by simp
    note m12 = gen_moves_trans [OF m1 m2]
    note m123 = gen_moves_trans [OF m12 m3]
    show ?thesis using m1 m12 m123 gen_moves_trans [OF m123 gen_moves_call]
      by (auto simp: task_processActiveContainer_def c1 c2 c3 c4 Inr split: bool.splits option.splits)
  qed
qed

lemma completeTask_client [simp]: "gn_client (completeTask env co s) = gn_client s"
  by (auto simp: completeTask_def call_bbs_def Let_def)

lemma gen_moves_completeTask: "gen_moves tot g s (completeTask env co s)"
  by (auto simp: gen_moves_def completeTask_def call_bbs_def only_at_def told_once_def Let_def)

lemma gen_moves_task:
  assumes "bbs_ok (ge_bbs env)"
  shows "gen_moves tot (co_Guid co) s (task_Process env t co s)"
proof -
  have "gen_moves tot (co_Guid co) s (task_processCompletedContainer env t co s)"
    unfolding task_processCompletedContainer_def
    by (rule gen_moves_trans [OF gen_moves_completeTask gen_moves_delete])
  then show ?thesis
    using gen_moves_active [OF assms, of tot co s t]
    by (cases "co_State co") (auto simp: task_Process_def gen_intros)
qed

lemma delegate_Get_nodes:
  "delegate_GetContainer g s = map_option Info (map_of (nm_nodes (client_nodes (gn_client s))) g)"
  by (auto simp: delegate_GetContainer_def GetContainer_def store_Get_def nodeMap_Get_def split: option.splits)

lemma op_Execute_moves:
  assumes "bbs_ok (ge_bbs env)" and ok: "client_ok tot (gn_client s)"
  shows "gen_moves tot (op_Key op) s (op_Execute env ev op s)"
proof (cases op)
  case (ContainerOperation t g)
  have guid: "co_Guid co = g" if "delegate_GetContainer g s = Some co" for co
    using that client_ok_guid [OF ok] by (auto simp: delegate_Get_nodes Info_def)
  show ?thesis
    using gen_moves_ordinary gen_moves_evacuation gen_moves_task [OF assms(1)]
    by (auto simp: ContainerOperation lrp_Process_def Let_def gen_intros guid [symmetric] split: option.splits)
next
  case (ResidualJointLRPOperation t key ikey)
  then show ?thesis using gen_moves_call_then [OF gen_moves_call] by (auto simp: gen_intros)
qed (auto simp: gen_intros)

subsection \<open>Lemmas: the result file\<close>

lemma tar_Read_data:
  assumes "\<forall>p \<in> set (te_pieces e). \<not> isl p" and "te_nb e \<le> length (concat (map projr (te_pieces e)))"
    and "0 < k" and r: "tar_Read k e = (data, err, e')"
  shows "length data \<le> k \<and> length data \<le> te_nb e \<and> te_nb e' = te_nb e - length data
    \<and> concat (map projr (te_pieces e)) = data @ concat (map projr (te_pieces e'))
    \<and> (\<forall>p \<in> set (te_pieces e'). \<not> isl p)
    \<and> err = (if te_nb e' = 0 then Some EOF else None)"
proof (cases "te_pieces e")
  case Nil
  with assms(2-) show ?thesis by (auto simp: tar_Read_def)
next
  case (Cons p rest)
  with assms(1) obtain d where p: "p = Inr d" by (cases p) auto
  with Cons assms(1,3) r show ?thesis by (auto simp: tar_Read_def Let_def split: if_splits)
qed

lemma read_result_exact:
  assumes "\<forall>p \<in> set (te_pieces e). \<not> isl p" and "te_nb e \<le> length (concat (map projr (te_pieces e)))"
    and "length buf \<le> MAX_RESULT_SIZE"
  shows "read_result e buf =
    (if length buf + te_nb e \<le> MAX_RESULT_SIZE
     then Inr (buf @ take (te_nb e) (concat (map projr (te_pieces e)))) else Inl ErrResultFileTooLarge)"
  using assms
proof (induction e buf rule: read_result.induct)
  case (1 e buf)
  obtain data err e' where r: "tar_Read (MAX_RESULT_SIZE + 1 - length buf) e = (data, err, e')"
    by (cases "tar_Read (MAX_RESULT_SIZE + 1 - length buf) e") auto
  note d = tar_Read_data [OF 1(2,3) _ r]
  have k: "0 < MAX_RESULT_SIZE + 1 - length buf" using 1(4) by simp
  note d = d [OF k]
  let ?all = "concat (map projr (te_pieces e))" and ?rest = "concat (map projr (te_pieces e'))"
  have unfold: "read_result e buf =
      (if length (buf @ data) > MAX_RESULT_SIZE then Inl ErrResultFileTooLarge
       else case err of
           None \<Rightarrow> read_result e' (buf @ data)
         | Some EOF \<Rightarrow> Inr (buf @ data)
         | Some err \<Rightarrow> Inl (ErrRead err))"
    using 1(4) by (subst read_result.simps, subst r) (simp add: Let_def)
  have split: "take (te_nb e) ?all = data @ take (te_nb e') ?rest" using d by simp
  show ?case
  proof (cases "length (buf @ data) > MAX_RESULT_SIZE")
    case True
    with d 1(4) show ?thesis by (simp add: unfold)
  next
    case False
    show ?thesis
    proof (cases "te_nb e' = 0")
      case True
      with False d 1(4) split show ?thesis by (simp add: unfold)
    next
      case nb: False
      have "read_result e' (buf @ data) =
        (if length (buf @ data) + te_nb e' \<le> MAX_RESULT_SIZE
         then Inr ((buf @ data) @ take (te_nb e') ?rest) else Inl ErrResultFileTooLarge)"
        by (rule 1(1) [OF _ r [symmetric] refl refl])
          (use False d nb 1 in \<open>auto simp: not_less\<close>)
      with False nb d 1(4) split show ?thesis by (simp add: unfold)
    qed
  qed
qed

subsection \<open>Lemmas: batches\<close>

lemma map_of_index_by: "map_of (index_by key xs) g = find (\<lambda>x. key x = g) (rev xs)"
proof (induction xs rule: rev_induct)
  case Nil
  show ?case by (simp add: index_by_def)
next
  case (snoc x xs)
  then show ?case by (auto simp: index_by_def update_conv')
qed

lemma distinct_index_by: "distinct (map fst (index_by key xs))"
  unfolding index_by_def by (induction xs rule: rev_induct) (auto simp: distinct_update)

lemma map_of_add_missing:
  "map_of (add_missing ops batch) g = (case map_of batch g of Some op \<Rightarrow> Some op | None \<Rightarrow> map_of ops g)"
proof (induction ops arbitrary: batch)
  case Nil
  show ?case by (simp add: add_missing_def split: option.splits)
next
  case (Cons o' ops)
  obtain h op where o': "o' = (h, op)" by (cases o')
  have step: "add_missing (o' # ops) batch =
      add_missing ops (if map_of batch h \<noteq> None then batch else AList.update h op batch)"
    by (simp add: add_missing_def o')
  show ?case unfolding step Cons.IH by (auto simp: o' update_conv' split: option.splits)
qed

lemma distinct_add_missing: "distinct (map fst batch) \<Longrightarrow> distinct (map fst (add_missing ops batch))"
proof (induction ops arbitrary: batch)
  case (Cons o' ops)
  obtain h op where o': "o' = (h, op)" by (cases o')
  have step: "add_missing (o' # ops) batch =
      add_missing ops (if map_of batch h \<noteq> None then batch else AList.update h op batch)"
    by (simp add: add_missing_def o')
  show ?case unfolding step by (rule Cons.IH) (simp add: Cons.prems distinct_update)
qed (simp add: add_missing_def)

lemma map_of_map_pair: "map_of (map (\<lambda>(g, x). (g, f g x)) xs) g = map_option (f g) (map_of xs g)"
  by (induction xs) auto

abbreviation instance_lrp :: "ActualLRP list \<Rightarrow> string \<Rightarrow> ActualLRP option" where
  "instance_lrp lrps g \<equiv>
     find (\<lambda>l. lrp_guid l = g) (rev (filter (\<lambda>l. al_Presence l \<noteq> ActualLRP_Evacuating) lrps))"

abbreviation evacuating_lrp :: "ActualLRP list \<Rightarrow> string \<Rightarrow> ActualLRP option" where
  "evacuating_lrp lrps g \<equiv>
     find (\<lambda>l. lrp_guid l = g) (rev (filter (\<lambda>l. al_Presence l = ActualLRP_Evacuating) lrps))"

lemma batch_of_distinct: "distinct (map fst (batch_of cell cs lrps tasks))"
  unfolding batch_of_def Let_def
  by (intro distinct_add_missing) (simp add: distinct_index_by comp_def case_prod_unfold)

lemma batch_of_lookup:
  "map_of (batch_of cell cs lrps tasks) g =
     (if \<exists>c \<in> set cs. co_Guid c = g then Some (ContainerOperation [] g)
      else case (instance_lrp lrps g, evacuating_lrp lrps g) of
          (Some l, Some _) \<Rightarrow> Some (ResidualJointLRPOperation [] (al_Key l) (al_InstanceKey l))
        | (Some l, None) \<Rightarrow> Some (ResidualInstanceLRPOperation [] (al_Key l) (al_InstanceKey l))
        | (None, Some l) \<Rightarrow> Some (ResidualEvacuatingLRPOperation [] (al_Key l) (al_InstanceKey l))
        | (None, None) \<Rightarrow> if g \<in> set tasks then Some (ResidualTaskOperation [] g cell) else None)"
proof -
  have cs: "find (\<lambda>c. co_Guid c = g) (rev cs) = None \<longleftrightarrow> \<not> (\<exists>c \<in> set cs. co_Guid c = g)"
    by (auto simp: find_None_iff)
  have tasks: "find (\<lambda>t. t = g) (rev tasks) = None \<longleftrightarrow> g \<notin> set tasks" by (auto simp: find_None_iff)
  show ?thesis
    unfolding batch_of_def Let_def map_of_add_missing map_of_map_pair map_of_index_by
    using cs tasks by (auto simp: operationFromContainer_def split: option.splits)
qed

lemma batch_of_key: "(g, op) \<in> set (batch_of cell cs lrps tasks) \<Longrightarrow> op_Key op = g"
proof -
  assume "(g, op) \<in> set (batch_of cell cs lrps tasks)"
  then have "map_of (batch_of cell cs lrps tasks) g = Some op"
    using batch_of_distinct by (simp add: map_of_eq_Some_iff)
  then show ?thesis
    unfolding batch_of_lookup
    by (auto simp: find_Some_iff lrp_guid_def split: if_splits option.splits)
qed

end
