(* ===== verification/Rep_Harmonizer.thy ===== *)
theory Rep_Harmonizer
  imports Rep_Generator
begin

section \<open>Harmonising a cell with the bbs (rep/harmonizer, rep/evacuation)\<close>

text \<open>
  The loops that drive the operations of the rep: the bulker pushes a batch of operations onto the
  queue at every tick, the event consumer one per event of the executor, the evacuator waits for
  the containers to go, and the cleanup deletes what is left at shutdown. A \<open>select\<close> is a case
  distinction on the event that arrives. The step relation \<open>harmonizer_step\<close> interleaves pushes,
  completed operations and the executor's own steps.
\<close>

subsection \<open>The bulker and the event consumer\<close>

record Bulker =
  bu_pollInterval :: int
  bu_evacuationPollInterval :: int

record bulker_run =
  br_interval :: int
  br_timer :: int
  br_notified :: bool

datatype bulker_event = TimerFired | EvacuateNotified | Signalled

definition bulker_init :: "Bulker \<Rightarrow> bulker_run" where
  "bulker_init b = \<lparr>br_interval = bu_pollInterval b, br_timer = bu_pollInterval b, br_notified = False\<rparr>"

definition push_all :: "operation list \<Rightarrow> operation multiQueue \<Rightarrow> operation multiQueue" where
  "push_all ops q = fold (run_push op_Key) ops q"

definition bulker_sync ::
  "string list + (string \<times> operation) list \<Rightarrow> operation multiQueue \<Rightarrow> operation multiQueue" where
  "bulker_sync result q = (case result of Inl batchError \<Rightarrow> q | Inr ops \<Rightarrow> push_all (map snd ops) q)"

text \<open>One turn of the loop of \<open>Run\<close>; \<open>None\<close> is its return. A second notification cannot arrive.\<close>

definition bulker_turn ::
  "Bulker \<Rightarrow> bulker_event \<Rightarrow> string list + (string \<times> operation) list \<Rightarrow> bulker_run \<times> operation multiQueue
   \<Rightarrow> (bulker_run \<times> operation multiQueue) option" where
  "bulker_turn b event result = (\<lambda>(r, q).
     case event of
       Signalled \<Rightarrow> None
     | TimerFired \<Rightarrow> Some (r\<lparr>br_timer := br_interval r\<rparr>, bulker_sync result q)
     | EvacuateNotified \<Rightarrow>
         if br_notified r then Some (r, q)
         else Some (r\<lparr>br_notified := True, br_interval := bu_evacuationPollInterval b,
                     br_timer := bu_evacuationPollInterval b\<rparr>, bulker_sync result q))"

datatype stream_item = StreamOp operation | StreamClosed | StreamSignal

fun consumer_Run :: "stream_item list \<Rightarrow> operation multiQueue \<Rightarrow> operation multiQueue" where
  "consumer_Run [] q = q"
| "consumer_Run (StreamOp op # items) q = consumer_Run items (run_push op_Key op q)"
| "consumer_Run (StreamClosed # items) q = q"
| "consumer_Run (StreamSignal # items) q = q"

subsection \<open>The evacuator\<close>

datatype evacuator_event = EvSignal | EvNotify | EvTimeout | EvPoll exec_client

datatype evacuator_exit = ExitSignalled | ExitEvacuated | ExitTimeout

definition allContainersEvacuated :: "exec_client \<Rightarrow> bool" where
  "allContainersEvacuated c = (ListContainers c = [])"

text \<open>After the notification: the goroutine \<open>evacuate\<close> polls while \<open>Run\<close> waits for it.\<close>

fun evacuator_wait :: "evacuator_event list \<Rightarrow> evacuator_exit option" where
  "evacuator_wait [] = None"
| "evacuator_wait (EvSignal # es) = Some ExitSignalled"
| "evacuator_wait (EvTimeout # es) = Some ExitTimeout"
| "evacuator_wait (EvPoll c # es) =
     (if allContainersEvacuated c then Some ExitEvacuated else evacuator_wait es)"
| "evacuator_wait (EvNotify # es) = evacuator_wait es"

fun evacuator_Run :: "evacuator_event list \<Rightarrow> evacuator_exit option" where
  "evacuator_Run [] = None"
| "evacuator_Run (EvSignal # es) = Some ExitSignalled"
| "evacuator_Run (EvNotify # es) = evacuator_wait es"
| "evacuator_Run (e # es) = evacuator_Run es"

subsection \<open>The cleanup\<close>

definition NewEvacuationCleanup_exitTimeout :: "int \<Rightarrow> int \<Rightarrow> int" where
  "NewEvacuationCleanup_exitTimeout gracefulShutdownInterval proxyReloadDuration =
     i64 (gracefulShutdownInterval + proxyReloadDuration + 5 * 10 ^ 9)"

definition stranded :: "ActualLRP list \<Rightarrow> int" where
  "stranded actualLRPs = int (length (filter (\<lambda>l. al_Presence l = ActualLRP_Evacuating) actualLRPs))"

definition log_timeout :: "gen_env \<Rightarrow> Container \<Rightarrow> gen_state \<Rightarrow> gen_state" where
  "log_timeout env container s =
     SendAppLog (''Cell '' @ ge_cellID env @ '' reached evacuation timeout for instance '' @ co_Guid container)
       (ri_LogConfig (co_RunInfo container)) s"

text \<open>The goroutines that delete the containers may run in any order: \<open>order\<close> is a permutation.\<close>

definition deleteRunningContainers :: "gen_env \<Rightarrow> string list \<Rightarrow> gen_state \<Rightarrow> gen_state" where
  "deleteRunningContainers env order s =
     fold (\<lambda>guid s. fst (delegate_DeleteContainer env [] guid s)) order
       (fold (log_timeout env) (ListContainers (gn_client s)) s)"

text \<open>The states of the executor when \<open>checkRunningContainers\<close> looks before the exit timer fires.\<close>

definition checkRunningContainers :: "exec_client list \<Rightarrow> bool" where
  "checkRunningContainers looks = (\<exists>c \<in> set looks. ListContainers c = [])"

definition cleanup_Run ::
  "gen_env \<Rightarrow> string + ActualLRP list \<Rightarrow> string list \<Rightarrow> (exec_client \<Rightarrow> exec_client list) \<Rightarrow> gen_state
   \<Rightarrow> gen_state \<times> int option \<times> string option" where
  "cleanup_Run env actualLRPs order looks s =
     (case actualLRPs of
        Inl err \<Rightarrow> (s, None, Some err)
      | Inr lrps \<Rightarrow>
          (let s = deleteRunningContainers env order s
           in (s, Some (stranded lrps),
               if checkRunningContainers (looks (gn_client s)) then None
               else Some ''failed-to-cleanup-all-containers'')))"

subsection \<open>The harmonizer as a system\<close>

inductive harmonizer_step ::
  "gen_state \<times> operation multiQueue \<Rightarrow> gen_state \<times> operation multiQueue option \<Rightarrow> bool" where
  bulk: "harmonizer_step (s, q) (s, Some (bulker_sync (BatchOperations cellID lrps tasks (gn_client s)) q))"
| event: "harmonizer_step (s, q) (s, Some (consumer_Run (map StreamOp (OperationStream events)) q))"
| execute: "op \<in> set (mq_running q) \<Longrightarrow> bbs_ok (ge_bbs env) \<Longrightarrow>
    harmonizer_step (s, q) (op_Execute env evacuating op s,
      run_complete (op_Key op) (q\<lparr>mq_running := remove1 op (mq_running q)\<rparr>))"
| executor: "exec_step (gn_client s) c \<Longrightarrow> harmonizer_step (s, q) (s\<lparr>gn_client := c\<rparr>, Some q)"

inductive harmonizer_reach ::
  "ExecutorResources \<Rightarrow> node_config \<Rightarrow> int \<Rightarrow> gen_state \<times> operation multiQueue option \<Rightarrow> bool" for tot cfg cap where
  started: "harmonizer_reach tot cfg cap
     (\<lparr>gn_client = NewClient tot cfg, gn_calls = [], gn_evacuatedContainers = [], gn_appLogs = []\<rparr>,
      Some (NewSlidingQueue cap))"
| step: "harmonizer_reach tot cfg cap (s, Some q) \<Longrightarrow> harmonizer_step (s, q) sq \<Longrightarrow>
     harmonizer_reach tot cfg cap sq"

inductive_cases harmonizer_stepE: "harmonizer_step (s, q) sq"

subsection \<open>Lemmas: running a batch\<close>

abbreviation held :: "gen_state \<Rightarrow> string \<Rightarrow> storeNode option" where
  "held s \<equiv> map_of (nm_nodes (client_nodes (gn_client s)))"

definition run_batch :: "gen_env \<Rightarrow> bool \<Rightarrow> (string \<times> operation) list \<Rightarrow> gen_state \<Rightarrow> gen_state" where
  "run_batch env evacuating batch s = fold (\<lambda>(g, op). op_Execute env evacuating op) batch s"

lemma gen_moves_held:
  "gen_moves tot g s s' \<Longrightarrow> client_ok tot (gn_client s) \<Longrightarrow>
     client_ok tot (gn_client s') \<and> prefix (gn_calls s) (gn_calls s') \<and> (\<forall>h. h \<noteq> g \<longrightarrow> held s' h = held s h)"
  unfolding gen_moves_def only_at_def using exec_steps_ok by blast

lemma run_batch_frame:
  assumes "bbs_ok (ge_bbs env)" and "client_ok tot (gn_client s)" and "list_all (\<lambda>(g, op). op_Key op = g) batch"
  shows "client_ok tot (gn_client (run_batch env ev batch s))
    \<and> prefix (gn_calls s) (gn_calls (run_batch env ev batch s))
    \<and> (\<forall>h. h \<notin> fst ` set batch \<longrightarrow> held (run_batch env ev batch s) h = held s h)"
  using assms(2,3)
proof (induction batch arbitrary: s)
  case Nil
  then show ?case by (simp add: run_batch_def)
next
  case (Cons x batch)
  obtain g op where x: "x = (g, op)" by (cases x)
  let ?s = "op_Execute env ev op s"
  have key: "op_Key op = g" using Cons.prems by (simp add: x)
  have one: "client_ok tot (gn_client ?s)" "prefix (gn_calls s) (gn_calls ?s)"
      "\<forall>h. h \<noteq> g \<longrightarrow> held ?s h = held s h"
    using gen_moves_held [OF op_Execute_moves [OF assms(1) Cons.prems(1), of op ev] Cons.prems(1)] key by auto
  have run: "run_batch env ev (x # batch) s = run_batch env ev batch ?s" by (simp add: run_batch_def x)
  from Cons.IH [OF one(1)] Cons.prems(2) one show ?case
    unfolding run by (auto simp: x intro: prefix_order.trans)
qed

lemma run_batch_each:
  assumes "bbs_ok (ge_bbs env)" and "client_ok tot (gn_client s)" and keys: "list_all (\<lambda>(g, op). op_Key op = g) batch"
    and "distinct (map fst batch)" and "map_of batch g = Some op"
  obtains s1 where "client_ok tot (gn_client s1)" and "held s1 g = held s g"
    and "held (run_batch env ev batch s) g = held (op_Execute env ev op s1) g"
    and "set (gn_calls (op_Execute env ev op s1)) \<subseteq> set (gn_calls (run_batch env ev batch s))"
proof -
  obtain pre post where b: "batch = pre @ (g, op) # post"
    using map_of_SomeD [OF assms(5)] split_list by metis
  have new: "g \<notin> fst ` set pre" "g \<notin> fst ` set post" using assms(4) by (auto simp: b)
  let ?s1 = "run_batch env ev pre s"
  let ?s2 = "op_Execute env ev op ?s1"
  have pre: "list_all (\<lambda>(g, op). op_Key op = g) pre" "list_all (\<lambda>(g, op). op_Key op = g) post" "op_Key op = g"
    using keys by (auto simp: b)
  note f1 = run_batch_frame [OF assms(1,2) pre(1), of ev]
  have ok2: "client_ok tot (gn_client ?s2)"
    using gen_moves_held [OF op_Execute_moves [OF assms(1)]] f1 by blast
  have run: "run_batch env ev batch s = run_batch env ev post ?s2" by (simp add: run_batch_def b)
  note f2 = run_batch_frame [OF assms(1) ok2 pre(2), of ev]
  show thesis
    by (rule that [of ?s1]) (use f1 f2 new run in \<open>auto dest: set_mono_prefix\<close>)
qed

subsection \<open>Lemmas: deletions\<close>

text \<open>Garden destroys what it is asked to, and the cache of dependencies releases its entries.\<close>

definition destroy_works :: "gen_env \<Rightarrow> bool" where
  "destroy_works env \<longleftrightarrow>
     (\<forall>g e. ne_GardenDestroy (ge_node env) g \<noteq> Some (GardenError e))
   \<and> (\<forall>keys. ne_ReleaseCachedDependencies (ge_node env) keys = None)"

lemma node_Destroy_works:
  assumes "destroy_works env"
  shows "snd (node_Destroy (ge_node env) n t err) = None"
  using assms
  by (auto simp: node_Destroy_def Destroy_locked_def destroyContainer_def destroy_works_def Let_def
      split: option.splits garden_error.splits)

lemma delete_gone:
  assumes "client_ok tot (gn_client s)" and "destroy_works env"
  shows "held (fst (delegate_DeleteContainer env t g s)) g = None"
proof (cases "held s g")
  case None
  then show ?thesis
    by (simp add: delegate_DeleteContainer_def DeleteContainer_def store_Destroy_def on_node_def nodeMap_Get_def)
next
  case (Some n)
  let ?cs = "cl_store (gn_client s)"
  have "snd (store_Destroy (ge_node env) ?cs t g (ge_exitErr env)) = None"
    using Some node_Destroy_works [OF assms(2), of n t "ge_exitErr env"]
    by (simp add: store_Destroy_def on_node_def nodeMap_Get_def split_beta)
  with store_Destroy_nodes [OF assms(1), of "ge_node env" t g "ge_exitErr env" g] show ?thesis
    by (simp add: delegate_DeleteContainer_def DeleteContainer_def split_beta Let_def)
qed

text \<open>The containers that a round of operations must take away.\<close>

definition finished :: "gen_env \<Rightarrow> bool \<Rightarrow> Container \<Rightarrow> bool" where
  "finished env evacuating c \<longleftrightarrow>
     (let lifecycle = tags_get (co_Tags c) ''lifecycle''
      in lifecycle = ''task'' \<and> co_State c = StateCompleted
       \<or> lifecycle = ''lrp'' \<and> \<not> isl (newLRPContainer env c)
         \<and> (co_State c = StateCompleted
            \<or> evacuating \<and> co_State c \<in> {StateReserved, StateInitializing, StateCreated}))"

lemma call_ok [simp]: "gn_client (fst (call_bbs env call s)) = gn_client s"
  by (simp add: call_bbs_def)

lemma finished_gone:
  assumes ok: "client_ok tot (gn_client s)" and "destroy_works env" and "held s g = Some n"
    and "finished env ev (Info n)"
  shows "held (op_Execute env ev (ContainerOperation t g) s) g = None"
proof -
  let ?c = "Info n"
  have guid: "co_Guid ?c = g" using client_ok_guid [OF ok assms(3)] by (simp add: Info_def)
  have got: "delegate_GetContainer g s = Some ?c" by (simp add: delegate_Get_nodes assms(3))
  have del: "held (fst (delegate_DeleteContainer env t g s')) g = None" if "gn_client s' = gn_client s" for s'
    using delete_gone [OF _ assms(2), of tot s' t g] ok that by simp
  consider "tags_get (co_Tags ?c) ''lifecycle'' = ''task''" "co_State ?c = StateCompleted"
    | l where "tags_get (co_Tags ?c) ''lifecycle'' = ''lrp''" "newLRPContainer env ?c = Inr l"
      "co_State ?c = StateCompleted
       \<or> ev \<and> co_State ?c \<in> {StateReserved, StateInitializing, StateCreated}"
    using assms(4) by (cases "newLRPContainer env ?c") (auto simp: finished_def Let_def)
  then show ?thesis
  proof cases
    case 1
    then show ?thesis
      by (simp add: got task_Process_def task_processCompletedContainer_def guid del)
  next
    case 2
    note l = newLRPContainer_container [OF 2(2)]
    from 2 show ?thesis
      by (auto simp: got lrp_Process_def evacuation_Process_def ordinary_Process_def l guid del Let_def
          evacuateClaimedLRPContainer_def evacuation_processCompletedContainer_def
          ordinary_processCompletedContainer_def)
  qed
qed

subsection \<open>Lemmas: residual operations\<close>

lemma calls_call [simp]: "gn_calls (fst (call_bbs env call s)) = gn_calls s @ [call]"
  by (simp add: call_bbs_def)

lemma residual_calls:
  assumes "held s g = None"
  shows "ikey_InstanceGuid ikey = g \<Longrightarrow>
      RemoveActualLRP key ikey \<in> set (gn_calls (op_Execute env ev (ResidualInstanceLRPOperation t key ikey) s))"
    and "ikey_InstanceGuid ikey = g \<Longrightarrow>
      RemoveActualLRP key ikey \<in> set (gn_calls (op_Execute env ev (ResidualJointLRPOperation t key ikey) s))"
    and "ikey_InstanceGuid ikey = g \<Longrightarrow> RemoveEvacuatingActualLRP key ikey
      \<in> set (gn_calls (op_Execute env ev (ResidualJointLRPOperation t key ikey) s))"
    and "ikey_InstanceGuid ikey = g \<Longrightarrow> RemoveEvacuatingActualLRP key ikey
      \<in> set (gn_calls (op_Execute env ev (ResidualEvacuatingLRPOperation t key ikey) s))"
    and "CompleteTask g cell True ''task container does not exist'' ''task container does not exist''
      \<in> set (gn_calls (op_Execute env ev (ResidualTaskOperation t g cell) s))"
  using assms by (auto simp: lrp_container_exists_def LRPContainerGuid_def delegate_Get_nodes)

lemma find_SomeD: "find P xs = Some x \<Longrightarrow> P x"
  by (auto simp: find_Some_iff)

lemma find_unique:
  assumes "distinct (map f xs)" and "x \<in> set xs"
  shows "find (\<lambda>y. f y = f x) (rev xs) = Some x"
proof -
  have "find (\<lambda>y. f y = f x) (rev xs) \<noteq> None" using assms(2) by (auto simp: find_None_iff)
  then obtain y where y: "find (\<lambda>y. f y = f x) (rev xs) = Some y" by blast
  then have "y \<in> set xs" and "f y = f x" by (auto simp: find_Some_iff rev_nth)
  with assms have "y = x" by (auto simp: distinct_map inj_on_def)
  with y show ?thesis by simp
qed

lemma no_container_listed:
  assumes "client_ok tot c" and "map_of (nm_nodes (client_nodes c)) g = None"
  shows "\<not> (\<exists>co \<in> set (ListContainers c). co_Guid co = g)"
  using assms
  by (force simp: ListContainers_def store_List_def nodeMap_List_def Info_def store_inv_def nodes_ok_def
      list_all_iff map_of_eq_None_iff)

lemma container_listed:
  assumes "client_ok tot c" and "map_of (nm_nodes (client_nodes c)) g = Some n"
  shows "\<exists>co \<in> set (ListContainers c). co_Guid co = g"
  using map_of_SomeD [OF assms(2)] client_ok_guid [OF assms]
  by (force simp: ListContainers_def store_List_def nodeMap_List_def Info_def)

lemma batch_keys: "list_all (\<lambda>(g, op). op_Key op = g) (batch_of cell cs lrps tasks)"
  using batch_of_key by (fastforce simp: list_all_iff)

text \<open>A batch made from a state with the container map \<open>held s\<close>, and the state it leads to.\<close>

definition round ::
  "ExecutorResources \<Rightarrow> gen_env \<Rightarrow> bool \<Rightarrow> string \<Rightarrow> ActualLRP list \<Rightarrow> string list \<Rightarrow> gen_state \<Rightarrow> gen_state \<Rightarrow> bool" where
  "round tot env ev cellID lrps tasks s s' \<longleftrightarrow>
     client_ok tot (gn_client s) \<and> bbs_ok (ge_bbs env)
   \<and> s' = run_batch env ev (batch_of cellID (ListContainers (gn_client s)) lrps tasks) s"

lemma round_each:
  assumes "round tot env ev cellID lrps tasks s s'"
    and "map_of (batch_of cellID (ListContainers (gn_client s)) lrps tasks) g = Some op"
  obtains s1 where "client_ok tot (gn_client s1)" and "held s1 g = held s g"
    and "held s' g = held (op_Execute env ev op s1) g"
    and "set (gn_calls (op_Execute env ev op s1)) \<subseteq> set (gn_calls s')"
  using run_batch_each [OF _ _ batch_keys batch_of_distinct assms(2), of env tot s ev] assms(1) that
  by (auto simp: round_def)

lemma round_called:
  assumes "round tot env ev cellID lrps tasks s s'" and "held s g = None"
    and "map_of (batch_of cellID (ListContainers (gn_client s)) lrps tasks) g = Some op"
    and "\<And>s1. held s1 g = None \<Longrightarrow> call \<in> set (gn_calls (op_Execute env ev op s1))"
  shows "call \<in> set (gn_calls s')"
  by (rule round_each [OF assms(1,3)]) (use assms(2,4) in auto)

lemma round_lookup:
  assumes "round tot env ev cellID lrps tasks s s'" and "held s g = None"
  shows "map_of (batch_of cellID (ListContainers (gn_client s)) lrps tasks) g =
     (case (instance_lrp lrps g, evacuating_lrp lrps g) of
        (Some l, Some _) \<Rightarrow> Some (ResidualJointLRPOperation [] (al_Key l) (al_InstanceKey l))
      | (Some l, None) \<Rightarrow> Some (ResidualInstanceLRPOperation [] (al_Key l) (al_InstanceKey l))
      | (None, Some l) \<Rightarrow> Some (ResidualEvacuatingLRPOperation [] (al_Key l) (al_InstanceKey l))
      | (None, None) \<Rightarrow> if g \<in> set tasks then Some (ResidualTaskOperation [] g cellID) else None)"
  using no_container_listed [of tot "gn_client s" g] assms by (simp add: batch_of_lookup round_def)

lemma round_gone:
  assumes r: "round tot env ev cellID lrps tasks s s'" and "destroy_works env"
    and n: "held s g = Some n" and f: "finished env ev (Info n)"
  shows "held s' g = None"
proof -
  have "map_of (batch_of cellID (ListContainers (gn_client s)) lrps tasks) g = Some (ContainerOperation [] g)"
    unfolding batch_of_lookup using container_listed [OF _ n] r by (auto simp: round_def)
  then obtain s1 where "client_ok tot (gn_client s1)" "held s1 g = held s g"
      "held s' g = held (op_Execute env ev (ContainerOperation [] g) s1) g"
    by (rule round_each [OF r])
  with finished_gone [of tot s1 env g n ev "[]"] assms(2) n f show ?thesis by simp
qed

lemma round_instance:
  assumes r: "round tot env ev cellID lrps tasks s s'" and h: "held s (lrp_guid l) = None"
    and "instance_lrp lrps (lrp_guid l) = Some l"
  shows "RemoveActualLRP (al_Key l) (al_InstanceKey l) \<in> set (gn_calls s')"
proof (cases "evacuating_lrp lrps (lrp_guid l)")
  case None
  then have "map_of (batch_of cellID (ListContainers (gn_client s)) lrps tasks) (lrp_guid l)
      = Some (ResidualInstanceLRPOperation [] (al_Key l) (al_InstanceKey l))"
    using assms(3) by (simp add: round_lookup [OF r h])
  from round_called [OF r h this residual_calls(1)] show ?thesis by (simp add: lrp_guid_def)
next
  case (Some l')
  then have "map_of (batch_of cellID (ListContainers (gn_client s)) lrps tasks) (lrp_guid l)
      = Some (ResidualJointLRPOperation [] (al_Key l) (al_InstanceKey l))"
    using assms(3) by (simp add: round_lookup [OF r h])
  from round_called [OF r h this residual_calls(2)] show ?thesis by (simp add: lrp_guid_def)
qed

lemma round_evacuating:
  assumes r: "round tot env ev cellID lrps tasks s s'" and h: "held s g = None"
    and e: "evacuating_lrp lrps g = Some l"
  shows "\<exists>key ikey. ikey_InstanceGuid ikey = g \<and> RemoveEvacuatingActualLRP key ikey \<in> set (gn_calls s')"
proof -
  obtain k where k: "lrp_guid k = g" "map_of (batch_of cellID (ListContainers (gn_client s)) lrps tasks) g
      \<in> {Some (ResidualEvacuatingLRPOperation [] (al_Key k) (al_InstanceKey k)),
         Some (ResidualJointLRPOperation [] (al_Key k) (al_InstanceKey k))}"
  proof (cases "instance_lrp lrps g")
    case None
    with e that [OF find_SomeD [OF e]] show ?thesis by (simp add: round_lookup [OF r h])
  next
    case (Some i)
    with e that [OF find_SomeD [OF Some]] show ?thesis by (simp add: round_lookup [OF r h])
  qed
  have "RemoveEvacuatingActualLRP (al_Key k) (al_InstanceKey k) \<in> set (gn_calls s')"
    using k residual_calls(3,4) [of _ g "al_InstanceKey k" "al_Key k" env ev "[]"]
    by (auto simp: lrp_guid_def intro: round_called [OF r h])
  with k(1) show ?thesis by (auto simp: lrp_guid_def)
qed

lemma round_task:
  assumes r: "round tot env ev cellID lrps tasks s s'" and h: "held s g = None"
    and "g \<in> set tasks" and "g \<notin> lrp_guid ` set lrps"
  shows "CompleteTask g cellID True ''task container does not exist'' ''task container does not exist''
    \<in> set (gn_calls s')"
proof (rule round_called [OF r h])
  have "instance_lrp lrps g = None" "evacuating_lrp lrps g = None"
    using assms(4) by (auto simp: find_None_iff)
  then show "map_of (batch_of cellID (ListContainers (gn_client s)) lrps tasks) g
      = Some (ResidualTaskOperation [] g cellID)"
    using assms(3) by (simp add: round_lookup [OF r h])
qed (rule residual_calls(5))

subsection \<open>Properties\<close>

text \<open>
  C10. One round of the rep makes the bbs and the cell agree. When every operation of a batch is
  executed, garden destroys what it is asked to and the bbs returns the task it is asked for:
  every completed container of an application or a task has gone, and during an evacuation also
  those not running yet; each LRP the bbs has on this cell that has no container here is reported
  to the bbs for removal, whether it is an instance or an evacuating one; and each task
  without a container that shares no guid with an LRP is completed as failed.
\<close>

theorem sync_settles:
  assumes "client_ok tot (gn_client s)" and "bbs_ok (ge_bbs env)" and "destroy_works env"
    and "BatchOperations cellID (Inr lrps) (Inr tasks) (gn_client s) = Inr batch"
    and "distinct (map lrp_guid (filter (\<lambda>l. al_Presence l \<noteq> ActualLRP_Evacuating) lrps))"
    and "s' = run_batch env ev batch s"
  shows "(\<forall>g c. delegate_GetContainer g s = Some c \<and> finished env ev c \<longrightarrow> delegate_GetContainer g s' = None)
    \<and> (\<forall>l \<in> set lrps. delegate_GetContainer (lrp_guid l) s = None \<longrightarrow>
         (if al_Presence l \<noteq> ActualLRP_Evacuating
          then RemoveActualLRP (al_Key l) (al_InstanceKey l) \<in> set (gn_calls s')
          else \<exists>key ikey. ikey_InstanceGuid ikey = lrp_guid l
                 \<and> RemoveEvacuatingActualLRP key ikey \<in> set (gn_calls s')))
    \<and> (\<forall>g \<in> set tasks. delegate_GetContainer g s = None \<and> g \<notin> lrp_guid ` set lrps \<longrightarrow>
         CompleteTask g cellID True ''task container does not exist'' ''task container does not exist''
           \<in> set (gn_calls s'))"
proof -
  have r: "round tot env ev cellID lrps tasks s s'"
    using assms by (auto simp: round_def BatchOperations_def)
  have inst: "instance_lrp lrps (lrp_guid l) = Some l"
    if "l \<in> set lrps" "al_Presence l \<noteq> ActualLRP_Evacuating" for l
    using find_unique [OF assms(5)] that by simp
  have evac: "\<exists>key ikey. ikey_InstanceGuid ikey = lrp_guid l \<and> RemoveEvacuatingActualLRP key ikey \<in> set (gn_calls s')"
    if "l \<in> set lrps" "al_Presence l = ActualLRP_Evacuating" "held s (lrp_guid l) = None" for l
  proof -
    from that have "evacuating_lrp lrps (lrp_guid l) \<noteq> None" by (auto simp: find_None_iff)
    with round_evacuating [OF r that(3)] show ?thesis by blast
  qed
  show ?thesis
    unfolding delegate_Get_nodes
    using round_gone [OF r assms(3)] round_instance [OF r _ inst] evac round_task [OF r]
    by (auto simp: image_iff)
qed

definition demo_lrp :: ActualLRP where
  "demo_lrp = \<lparr>al_Key = NewActualLRPKey ''app'' 0 ''dom'',
     al_InstanceKey = \<lparr>ikey_InstanceGuid = ''lost'', ikey_CellId = ''cell''\<rparr>, al_Presence = ActualLRP_Ordinary\<rparr>"

definition demo_desired :: DesiredLRP where
  "demo_desired = \<lparr>dl_RootFs = ''preloaded:linux'', dl_ImageLayers = [], dl_VolumeMounts = [], dl_MetricTags = [],
     dl_ImageUsername = [], dl_ImagePassword = [], dl_Routes = [], dl_CpuWeight = 1, dl_Ports = [8080],
     dl_LogGuid = ''log'', dl_LogSource = [], dl_MetricsGuid = [], dl_StartTimeoutMs = 0, dl_Privileged = False,
     dl_CachedDependencies = [], dl_Setup = None, dl_Action = Some [], dl_Monitor = None,
     dl_CheckDefinition = None, dl_EgressRules = [], dl_EnvironmentVariables = [],
     dl_TrustedSystemCertificatesPath = [], dl_Network = None, dl_CertificateProperties = None,
     dl_Sidecars = [], dl_LogRateLimit = None, dl_VolumeMountedFiles = []\<rparr>"

definition demo_task :: TaskDefinition where
  "demo_task = \<lparr>td_RootFs = ''preloaded:linux'', td_ImageLayers = [], td_VolumeMounts = [], td_MetricTags = [],
     td_ImageUsername = [], td_ImagePassword = [], td_ResultFile = ''/result'', td_CpuWeight = 1,
     td_Privileged = False, td_LogGuid = ''log'', td_LogSource = [], td_MetricsGuid = [],
     td_CachedDependencies = [], td_LegacyDownloadUser = [], td_Action = Some [],
     td_EnvironmentVariables = [], td_EgressRules = [], td_TrustedSystemCertificatesPath = [],
     td_Network = None, td_CertificateProperties = None, td_LogRateLimit = None, td_VolumeMountedFiles = []\<rparr>"

definition demo_conv :: conv_env where
  "demo_conv = \<lparr>cv_VersionDownTo = (\<lambda>d. d), cv_ToCachedDependencies = (\<lambda>ls. []),
     cv_ToDownloadActions = (\<lambda>ls u. None), cv_InternalRoutesFromRoutingInfo = (\<lambda>m. Inr None),
     cv_Unmarshal = (\<lambda>s. Inl ''no volumes''), cv_UnmarshalStrings = (\<lambda>s. Inr []),
     cv_IsECRRepo = (\<lambda>r. Inr False), cv_GetECRCredentials = (\<lambda>r u p. Inr (u, p))\<rparr>"

definition demo_bbs :: bbs_client where
  "demo_bbs = \<lparr>bb_error = (\<lambda>calls. None), bb_keepContainer = (\<lambda>calls. True), bb_changed = (\<lambda>calls. True),
     bb_desired = (\<lambda>calls. demo_desired),
     bb_task = (\<lambda>calls. (case last calls of TaskByGuid g \<Rightarrow> g | _ \<Rightarrow> [], demo_task))\<rparr>"

definition demo_env :: gen_env where
  "demo_env = \<lparr>ge_bbs = demo_bbs, ge_conv = demo_conv, ge_node = calm_env, ge_exitErr = NoErr,
     ge_streamOut = (\<lambda>gc f. Inr \<lparr>te_nb = 3, te_pieces = [Inr ''ab'', Inr ''cd'']\<rparr>),
     ge_cellID = ''cell'', ge_availabilityZone = ''z'', ge_stackPathMap = [], ge_layeringMode = []\<rparr>"

definition demo_request :: AllocationRequest where
  "demo_request = NewAllocationRequest ''i1'' (NewExecResource 60 10 1) False
     (Some [(''lifecycle'', ''lrp''), (''process-guid'', ''app''), (''process-index'', ''0''),
            (''domain'', ''dom''), (''instance-guid'', ''i1'')])"

definition demo_client :: exec_client where
  "demo_client = fst (AllocateContainers (NewClient small_cell life_config) [] 0 [demo_request])"

definition demo_state :: gen_state where
  "demo_state = \<lparr>gn_client = demo_client, gn_calls = [], gn_evacuatedContainers = [], gn_appLogs = []\<rparr>"

lemma demo_client_reach: "exec_reach small_cell life_config demo_client"
  unfolding demo_client_def
  by (rule exec_reach.step [OF exec_reach.started exec_step.allocate])
     (simp add: demo_request_def NewAllocationRequest_def NewExecResource_def resource_nonneg_def)

lemma demo_ok: "client_ok small_cell (gn_client demo_state)"
  using exec_reach_inv [OF demo_client_reach small_cell_typed] by (simp add: demo_state_def)

lemma demo_env_ok: "bbs_ok (ge_bbs demo_env)" "destroy_works demo_env"
  by (simp_all add: bbs_ok_def destroy_works_def demo_env_def demo_bbs_def calm_env_def)

lemma demo_container:
  "\<exists>c. delegate_GetContainer ''i1'' demo_state = Some c \<and> finished demo_env True c"
proof -
  have "case delegate_GetContainer ''i1'' demo_state of None \<Rightarrow> False | Some c \<Rightarrow> finished demo_env True c"
    by code_simp
  then show ?thesis by (simp split: option.splits)
qed

theorem sync_settles_witness:
  "\<exists>batch. BatchOperations ''cell'' (Inr [demo_lrp]) (Inr [''t'']) (gn_client demo_state) = Inr batch
    \<and> delegate_GetContainer ''i1'' (run_batch demo_env True batch demo_state) = None
    \<and> RemoveActualLRP (al_Key demo_lrp) (al_InstanceKey demo_lrp)
        \<in> set (gn_calls (run_batch demo_env True batch demo_state))
    \<and> CompleteTask ''t'' ''cell'' True ''task container does not exist'' ''task container does not exist''
        \<in> set (gn_calls (run_batch demo_env True batch demo_state))"
proof -
  obtain batch where b: "BatchOperations ''cell'' (Inr [demo_lrp]) (Inr [''t'']) (gn_client demo_state) = Inr batch"
    by (simp add: BatchOperations_def)
  have "delegate_GetContainer ''lost'' demo_state = None" "delegate_GetContainer ''t'' demo_state = None"
    by code_simp+
  with sync_settles [OF demo_ok demo_env_ok b _ refl, of True] demo_container b show ?thesis
    by (auto simp: demo_lrp_def lrp_guid_def)
qed

lemma push_all_reach: "queue_reach op_Key cap (Some q) \<Longrightarrow> queue_reach op_Key cap (Some (push_all ops q))"
  unfolding push_all_def
  by (induction ops arbitrary: q) (auto intro: queue_reach.continue queue_step.push)

lemma consumer_pushes: "consumer_Run (map StreamOp ops) q = push_all ops q"
  by (induction ops arbitrary: q) (simp_all add: push_all_def)

lemma harmonizer_step_moves:
  assumes "harmonizer_step (s, q) (s', q')" and "client_ok tot (gn_client s)" and "queue_reach op_Key cap (Some q)"
  shows "exec_step\<^sup>*\<^sup>* (gn_client s) (gn_client s') \<and> (told_once s \<longrightarrow> told_once s') \<and> queue_reach op_Key cap q'"
  using assms(1)
proof (cases rule: harmonizer_step.cases)
  case (bulk cellID lrps tasks)
  with push_all_reach [OF assms(3)] assms(3) show ?thesis by (auto simp: bulker_sync_def split: sum.splits)
next
  case (event events)
  with push_all_reach [OF assms(3)] show ?thesis by (simp add: consumer_pushes)
next
  case (execute op env evacuating)
  from op_Execute_moves [OF execute(4) assms(2), of op evacuating] have "exec_step\<^sup>*\<^sup>* (gn_client s) (gn_client s')"
    and "told_once s \<longrightarrow> told_once s'" by (simp_all add: gen_moves_def execute)
  with queue_reach.continue [OF assms(3) queue_step.complete] execute show ?thesis by simp
next
  case (executor c)
  then show ?thesis using assms(3) by (auto simp: told_once_def)
qed

lemma exec_reach_steps: "exec_step\<^sup>*\<^sup>* c c' \<Longrightarrow> exec_reach tot cfg c \<Longrightarrow> exec_reach tot cfg c'"
  by (induction rule: rtranclp_induct) (auto intro: exec_reach.step)



lemma push_fresh:
  assumes "map_of (mq_queues q) (op_Key op) = None"
  shows "mq_running (run_push op_Key op q) = mq_running q @ [op]"
    and "map_of (mq_queues (run_push op_Key op q)) g =
      (if g = op_Key op then Some (newSlidingBuffer (mq_capacity q)) else map_of (mq_queues q) g)"
  using assms by (auto simp: run_push_def go_execute_def update_conv')

lemma push_all_fresh:
  "distinct (map op_Key ops) \<Longrightarrow> \<forall>op \<in> set ops. map_of (mq_queues q) (op_Key op) = None \<Longrightarrow>
     mq_running (push_all ops q) = mq_running q @ ops"
proof (induction ops arbitrary: q)
  case (Cons op ops)
  have "mq_running (push_all ops (run_push op_Key op q)) = mq_running (run_push op_Key op q) @ ops"
    by (rule Cons.IH) (use Cons.prems push_fresh(2) [of q op] in \<open>auto simp: image_iff dest: sym\<close>)
  then show ?case using push_fresh(1) [of q op] Cons.prems by (simp add: push_all_def)
qed (simp add: push_all_def)

text \<open>
  C28. A batch has one operation per guid, for every container of the cell and every LRP and task the
  bbs has on it, under that guid as its key. A guid with a container gets the operation of the
  container; an LRP without one a residual operation for its instance, for its evacuating
  instance or for both; a task without one a residual task operation. Pushed onto an idle
  queue, all operations of the batch start at once.
\<close>

theorem BatchOperations_one_each:
  assumes "BatchOperations cellID (Inr lrps) (Inr tasks) c = Inr batch"
  shows "distinct (map fst batch) \<and> map op_Key (map snd batch) = map fst batch
    \<and> mq_running (bulker_sync (Inr batch) (NewSlidingQueue cap)) = map snd batch
    \<and> map_of batch g =
     (if \<exists>co \<in> set (ListContainers c). co_Guid co = g then Some (ContainerOperation [] g)
      else case (instance_lrp lrps g, evacuating_lrp lrps g) of
          (Some l, Some _) \<Rightarrow> Some (ResidualJointLRPOperation [] (al_Key l) (al_InstanceKey l))
        | (Some l, None) \<Rightarrow> Some (ResidualInstanceLRPOperation [] (al_Key l) (al_InstanceKey l))
        | (None, Some l) \<Rightarrow> Some (ResidualEvacuatingLRPOperation [] (al_Key l) (al_InstanceKey l))
        | (None, None) \<Rightarrow> if g \<in> set tasks then Some (ResidualTaskOperation [] g cellID) else None)"
proof -
  have b: "batch = batch_of cellID (ListContainers c) lrps tasks"
    using assms by (simp add: BatchOperations_def)
  have keys: "map op_Key (map snd batch) = map fst batch"
    using batch_of_key by (auto simp: b)
  have d: "distinct (map fst batch)" by (simp add: b batch_of_distinct)
  have "mq_running (push_all (map snd batch) (NewSlidingQueue cap)) = mq_running (NewSlidingQueue cap) @ map snd batch"
    by (rule push_all_fresh) (simp only: keys d, simp add: NewSlidingQueue_def)
  with keys d show ?thesis
    unfolding b batch_of_lookup by (simp add: bulker_sync_def NewSlidingQueue_def)
qed

theorem BatchOperations_one_each_witness:
  "\<exists>batch. BatchOperations ''cell'' (Inr [demo_lrp]) (Inr [''t'']) demo_client = Inr batch
    \<and> map_of batch ''lost'' = Some (ResidualInstanceLRPOperation [] (al_Key demo_lrp) (al_InstanceKey demo_lrp))
    \<and> map_of batch ''t'' = Some (ResidualTaskOperation [] ''t'' ''cell'')"
proof -
  obtain batch where b: "BatchOperations ''cell'' (Inr [demo_lrp]) (Inr [''t'']) demo_client = Inr batch"
    by (simp add: BatchOperations_def)
  have cs: "map co_Guid (ListContainers demo_client) = [''i1'']" by code_simp
  then have none: "\<not> (\<exists>co \<in> set (ListContainers demo_client). co_Guid co = g)" if "g \<noteq> ''i1''" for g
    using that by (metis (no_types, lifting) in_set_conv_nth length_map list.set_intros(1) list.set_map
        image_eqI empty_iff empty_set set_ConsD)
  from BatchOperations_one_each [OF b, of _ "''lost''"] BatchOperations_one_each [OF b, of _ "''t''"] b
    none [of "''lost''"] none [of "''t''"]
  show ?thesis by (auto simp: demo_lrp_def lrp_guid_def)
qed

text \<open>
  The result of a task is the content of its result file exactly: when the stream of the file
  brings at least as many bytes as its header announces, in pieces of any size, the delegate returns the
  announced bytes when they are at most 50 KiB, and an error instead of a part of them when
  they are more.
\<close>

theorem FetchContainerResultFile_exact:
  assumes "map_of (nm_nodes (client_nodes (gn_client s))) guid = Some n" and "sn_gardenContainer n = Some gc"
    and "ge_streamOut env gc filename = Inr e"
    and "\<forall>p \<in> set (te_pieces e). \<not> isl p" and "te_nb e \<le> length (concat (map projr (te_pieces e)))"
  shows "FetchContainerResultFile env guid filename s =
    (if te_nb e \<le> 1024 * 50 then Inr (take (te_nb e) (concat (map projr (te_pieces e))))
     else Inl ErrResultFileTooLarge)"
  using read_result_exact [OF assms(4,5), of "[]"] assms(1-3)
  by (simp add: FetchContainerResultFile_def store_GetFiles_def nodeMap_Get_def node_GetFiles_def MAX_RESULT_SIZE_def)

theorem FetchContainerResultFile_exact_witness:
  "\<exists>s. FetchContainerResultFile demo_env ''c'' ''/result'' s = Inr ''abc''"
proof -
  let ?s = "demo_state\<lparr>gn_client := demo_client\<lparr>cl_store := (cl_store demo_client)
     \<lparr>cs_containers := \<lparr>nm_nodes = [(''c'', life_created)], nm_remainingResources = small_cell\<rparr>\<rparr>\<rparr>\<rparr>"
  have gc: "sn_gardenContainer life_created = Some ''c''"
    using node_Create_outcome [OF life_initialized_facts(1), of "[]" life_config calm_env 0]
    by (simp add: create_outcome_def life_create_succeeds life_created_def life_initialized_facts Let_def same_container_def)
  have "FetchContainerResultFile demo_env ''c'' ''/result'' ?s = Inr ''abc''"
    using FetchContainerResultFile_exact [of ?s "''c''" life_created "''c''" demo_env "''/result''"
          "\<lparr>te_nb = 3, te_pieces = [Inr ''ab'', Inr ''cd'']\<rparr>", OF _ gc]
    by (simp add: demo_env_def)
  then show ?thesis by blast
qed

lemma log_timeouts_client: "gn_client (fold (log_timeout env) cs s) = gn_client s"
  by (induction cs arbitrary: s) (simp_all add: log_timeout_def SendAppLog_def)

lemma deletes_gone:
  assumes "destroy_works env" and "client_ok tot (gn_client s)"
  shows "client_ok tot (gn_client (fold (\<lambda>guid s. fst (delegate_DeleteContainer env [] guid s)) order s))
    \<and> (\<forall>g. g \<in> set order \<or> held s g = None \<longrightarrow>
         held (fold (\<lambda>guid s. fst (delegate_DeleteContainer env [] guid s)) order s) g = None)"
  using assms(2)
proof (induction order arbitrary: s)
  case (Cons h order)
  let ?s = "fst (delegate_DeleteContainer env [] h s)"
  note one = gen_moves_held [OF gen_moves_delete [where env = env and t = "[]" and g = h] Cons.prems]
  have "held ?s g = None" if "g = h \<or> held s g = None" for g
    using delete_gone [OF Cons.prems assms(1), of "[]" h] one that by (cases "g = h") auto
  with Cons.IH [of ?s] one show ?case by auto
qed simp

lemma ListContainers_Nil: "ListContainers c = [] \<longleftrightarrow> (\<forall>g. map_of (nm_nodes (client_nodes c)) g = None)"
proof -
  have "(\<forall>g. map_of xs g = None) \<longleftrightarrow> xs = []" for xs :: "(string \<times> storeNode) list"
  proof (cases xs)
    case (Cons x xs')
    then have "map_of xs (fst x) \<noteq> None" by simp
    with Cons show ?thesis by (metis list.distinct(1))
  qed simp
  then show ?thesis by (simp add: ListContainers_def store_List_def nodeMap_List_def)
qed

text \<open>
  C40. When the rep shuts down after an evacuation, no container stays behind: if the deletions run,
  in any order, on the containers that are left, garden destroys them, and the first look comes before the
  exit timer, the cleanup ends without error on an executor that holds no container, whose
  resources are all free again.
\<close>

theorem cleanup_leaves_nothing:
  assumes "client_ok tot (gn_client s)" and "destroy_works env"
    and "set order = set (map co_Guid (ListContainers (gn_client s)))"
    and "\<And>c. hd (looks c) = c \<and> looks c \<noteq> []"
    and "cleanup_Run env (Inr lrps) order looks s = (s', metric, err)"
  shows "err = None \<and> ListContainers (gn_client s') = []
    \<and> ex_MemoryMB (nm_remainingResources (client_nodes (gn_client s'))) = ex_MemoryMB tot
    \<and> ex_DiskMB (nm_remainingResources (client_nodes (gn_client s'))) = ex_DiskMB tot
    \<and> ex_Containers (nm_remainingResources (client_nodes (gn_client s'))) = ex_Containers tot"
proof -
  let ?s = "fold (log_timeout env) (ListContainers (gn_client s)) s"
  have s': "s' = deleteRunningContainers env order s"
    using assms(5) by (simp add: cleanup_Run_def Let_def)
  have "held ?s g = None" if "g \<notin> set order" for g
    using container_listed [OF assms(1), of g] that assms(3)
    by (cases "held s g") (auto simp: log_timeouts_client)
  with deletes_gone [OF assms(2), of tot ?s order] assms(1) have "\<forall>g. held s' g = None" and ok: "client_ok tot (gn_client s')"
    by (auto simp: s' deleteRunningContainers_def log_timeouts_client)
  then have empty: "ListContainers (gn_client s') = []" by (simp add: ListContainers_Nil)
  then have "nm_nodes (client_nodes (gn_client s')) = []"
    by (simp add: ListContainers_def store_List_def nodeMap_List_def)
  with ok have "balanced tot (client_nodes (gn_client s'))" and "used f (client_nodes (gn_client s')) = 0"
      and "length (nm_nodes (client_nodes (gn_client s'))) = 0" for f
    by (simp_all add: store_inv_def used_def)
  moreover have "gn_client s' \<in> set (looks (gn_client s'))"
    using assms(4) [of "gn_client s'"] hd_in_set by metis
  with assms(5) empty have "err = None"
    by (auto simp: cleanup_Run_def checkRunningContainers_def Let_def s')
  ultimately show ?thesis using empty by (simp add: balanced_def Let_def)
qed

theorem cleanup_leaves_nothing_witness:
  "ListContainers (gn_client demo_state) \<noteq> []
   \<and> snd (snd (cleanup_Run demo_env (Inr []) [''i1''] (\<lambda>c. [c]) demo_state)) = None
   \<and> ListContainers (gn_client (fst (cleanup_Run demo_env (Inr []) [''i1''] (\<lambda>c. [c]) demo_state))) = []"
proof -
  let ?r = "cleanup_Run demo_env (Inr []) [''i1''] (\<lambda>c. [c]) demo_state"
  have cs: "map co_Guid (ListContainers (gn_client demo_state)) = [''i1'']" by code_simp
  then have "ListContainers (gn_client demo_state) \<noteq> []" by auto
  moreover have "set [''i1''] = set (map co_Guid (ListContainers (gn_client demo_state)))" by (simp only: cs)
  note left = cleanup_leaves_nothing [OF demo_ok demo_env_ok(2) this, of "\<lambda>c. [c]" "[]" "fst ?r" "fst (snd ?r)" "snd (snd ?r)"]
  ultimately show ?thesis using left by simp
qed

end
