(* ===== verification/Route_Types.thy ===== *)
theory Route_Types
  imports Rep_Generator
begin

section \<open>Routes, endpoints and messages (route-emitter/routingtable)\<close>

text \<open>
  The values the routing tables of the route emitter hold and the messages they lead to:
  \<open>endpoint.go\<close>, \<open>registry_message.go\<close>, \<open>messages_to_emit.go\<close>. A Go \<open>routeMapping\<close> is one of three structs, a
  datatype here. Options of a route are JSON text, compared after normalisation; the normalisation
  (\<open>json.Unmarshal\<close> followed by \<open>json.Marshal\<close>) is an argument. The \<open>ModificationTag\<close> of an LRP is
  always set, the one of an entry may be \<open>nil\<close>.
\<close>

subsection \<open>Modification tags\<close>

record ModificationTag =
  mod_Epoch :: string
  mod_Index :: int

fun SucceededBy :: "ModificationTag option \<Rightarrow> ModificationTag \<Rightarrow> bool" where
  "SucceededBy None other = True"
| "SucceededBy (Some m) other =
     (if mod_Epoch m = [] \<or> mod_Epoch other = [] then True
      else mod_Epoch m \<noteq> mod_Epoch other \<or> mod_Index m < mod_Index other)"

definition tag_Equal :: "ModificationTag option \<Rightarrow> ModificationTag \<Rightarrow> bool" where
  "tag_Equal m other = (m = Some other)"

subsection \<open>LRPs as the bbs describes them\<close>

datatype preferred_address = PreferredAddressUnknown | PreferredAddressInstance | PreferredAddressHost

datatype actual_state = ActualLRPStateUnclaimed | ActualLRPStateClaimed | ActualLRPStateRunning | ActualLRPStateCrashed

text \<open>The fields of \<open>models.ActualLRP\<close> beyond those the rep reads; a port mapping may be \<open>nil\<close>.\<close>

record RoutedLRP = ActualLRP +
  al_Address :: string
  al_InstanceAddress :: string
  al_InstanceIpv6Address :: string
  al_PreferredAddress :: preferred_address
  al_Ports :: "PortMapping option list"
  al_State :: actual_state
  al_Since :: int
  al_ModificationTag :: ModificationTag
  al_Routable :: "bool option"
  al_AvailabilityZone :: string

definition GetRoutable :: "RoutedLRP \<Rightarrow> bool" where
  "GetRoutable lrp = (al_Routable lrp = Some True)"

definition RoutableExists :: "RoutedLRP \<Rightarrow> bool" where
  "RoutableExists lrp = (al_Routable lrp \<noteq> None)"

record CFRoute =
  cr_Hostnames :: "string list"
  cr_Port :: int
  cr_RouteServiceUrl :: string
  cr_IsolationSegment :: string
  cr_Protocol :: string
  cr_Options :: message

record TCPRoute =
  tr_RouterGroupGuid :: string
  tr_ExternalPort :: int
  tr_ContainerPort :: int
  tr_SniHostname :: "string option"
  tr_TerminateFrontendTLS :: bool
  tr_EnableBackendMTLS :: bool

text \<open>
  The routing information of a desired LRP. The packages \<open>cfroutes\<close>, \<open>tcp_routes\<close> and
  \<open>internalroutes\<close> decode it from JSON; what they return is part of the record, \<open>None\<close> for \<open>nil\<close> routes.
\<close>

record decoded_routes =
  ro_cf :: "CFRoute list"
  ro_tcp :: "TCPRoute list"
  ro_internal :: "string list"

record RoutedDesiredLRP =
  dr_ProcessGuid :: string
  dr_Domain :: string
  dr_LogGuid :: string
  dr_Instances :: int
  dr_MetricTags :: "(string \<times> MetricTagValue) list"
  dr_Routes :: "decoded_routes option"
  dr_ModificationTag :: ModificationTag

subsection \<open>Endpoints\<close>

record EndpointKey =
  ek_InstanceGUID :: string
  ek_Evacuating :: bool

record Address =
  ad_Host :: string
  ad_Port :: int

record Endpoint =
  en_InstanceGUID :: string
  en_Index :: int
  en_Host :: string
  en_ContainerIP :: string
  en_ContainerIPv6 :: string
  en_Port :: int
  en_ContainerPort :: int
  en_TlsProxyPort :: int
  en_ContainerTlsProxyPort :: int
  en_Presence :: presence
  en_IsolationSegment :: string
  en_Since :: int
  en_ModificationTag :: ModificationTag
  en_PreferredAddress :: preferred_address
  en_AvailabilityZone :: string

definition endpoint_key :: "Endpoint \<Rightarrow> EndpointKey" where
  "endpoint_key e = \<lparr>ek_InstanceGUID = en_InstanceGUID e, ek_Evacuating = (en_Presence e = ActualLRP_Evacuating)\<rparr>"

definition IsDirectInstanceRoute :: "Endpoint \<Rightarrow> bool \<Rightarrow> bool" where
  "IsDirectInstanceRoute e defaultIsDirectInstanceRoute =
     (case en_PreferredAddress e of
        PreferredAddressInstance \<Rightarrow> True
      | PreferredAddressHost \<Rightarrow> False
      | PreferredAddressUnknown \<Rightarrow> if defaultIsDirectInstanceRoute then True else False)"

definition NewEndpointsFromActual :: "RoutedLRP \<Rightarrow> Endpoint list" where
  "NewEndpointsFromActual lrp = List.map_filter (\<lambda>pm. case pm of
       None \<Rightarrow> None
     | Some p \<Rightarrow> Some \<lparr>
         en_InstanceGUID = ikey_InstanceGuid (al_InstanceKey lrp), en_Index = key_Index (al_Key lrp),
         en_Host = al_Address lrp, en_ContainerIP = al_InstanceAddress lrp,
         en_ContainerIPv6 = al_InstanceIpv6Address lrp, en_Port = pm_HostPort p,
         en_ContainerPort = pm_ContainerPort p, en_TlsProxyPort = pm_HostTLSProxyPort p,
         en_ContainerTlsProxyPort = pm_ContainerTLSProxyPort p, en_Presence = al_Presence lrp,
         en_IsolationSegment = [], en_Since = al_Since lrp, en_ModificationTag = al_ModificationTag lrp,
         en_PreferredAddress = al_PreferredAddress lrp, en_AvailabilityZone = al_AvailabilityZone lrp\<rparr>)
     (al_Ports lrp)"

definition internalEndpointsFromActualLRP :: "RoutedLRP \<Rightarrow> Endpoint list" where
  "internalEndpointsFromActualLRP lrp = [\<lparr>
     en_InstanceGUID = ikey_InstanceGuid (al_InstanceKey lrp), en_Index = key_Index (al_Key lrp),
     en_Host = al_Address lrp, en_ContainerIP = al_InstanceAddress lrp, en_ContainerIPv6 = [], en_Port = 0,
     en_ContainerPort = 0, en_TlsProxyPort = 0, en_ContainerTlsProxyPort = 0, en_Presence = al_Presence lrp,
     en_IsolationSegment = [], en_Since = al_Since lrp, en_ModificationTag = al_ModificationTag lrp,
     en_PreferredAddress = PreferredAddressUnknown, en_AvailabilityZone = []\<rparr>]"

record RoutingKey =
  rk_ProcessGUID :: string
  rk_ContainerPort :: int

text \<open>\<open>NewRoutingKeysFromActual\<close> dereferences every port mapping: a \<open>nil\<close> one panics.\<close>

definition NewRoutingKeysFromActual :: "RoutedLRP \<Rightarrow> RoutingKey list option" where
  "NewRoutingKeysFromActual lrp =
     (if None \<in> set (al_Ports lrp) then None
      else Some (concat (map (\<lambda>p.
        let guid = key_ProcessGuid (al_Key lrp)
        in \<lparr>rk_ProcessGUID = guid, rk_ContainerPort = pm_ContainerPort p\<rparr> #
           (if pm_HostTLSProxyPort p \<noteq> 0 \<and> pm_ContainerTLSProxyPort p \<noteq> 0
            then [\<lparr>rk_ProcessGUID = guid, rk_ContainerPort = pm_ContainerTLSProxyPort p\<rparr>] else []))
        (map the (al_Ports lrp)))))"

subsection \<open>Messages\<close>

record RegistryMessage =
  rm_Host :: string
  rm_Port :: int
  rm_TlsPort :: int
  rm_URIs :: "string list"
  rm_Protocol :: string
  rm_App :: string
  rm_RouteServiceUrl :: string
  rm_PrivateInstanceId :: string
  rm_PrivateInstanceIndex :: string
  rm_ServerCertDomainSAN :: string
  rm_IsolationSegment :: string
  rm_EndpointUpdatedAtNs :: int
  rm_Tags :: str_map
  rm_AvailabilityZone :: string
  rm_Options :: message

text \<open>The fields that the route emitter always leaves at their zero value are left out.\<close>

record TcpRouteMapping =
  tm_RouterGroupGuid :: string
  tm_ExternalPort :: int
  tm_HostIP :: string
  tm_HostPort :: int
  tm_HostTLSPort :: int
  tm_InstanceId :: string
  tm_SniHostname :: "string option"
  tm_TTL :: int
  tm_TerminateFrontendTLS :: bool
  tm_EnableBackendMTLS :: bool

definition NewTcpRouteMapping ::
  "string \<Rightarrow> int \<Rightarrow> string \<Rightarrow> int \<Rightarrow> int \<Rightarrow> string \<Rightarrow> string option \<Rightarrow> int \<Rightarrow> bool \<Rightarrow> TcpRouteMapping" where
  "NewTcpRouteMapping routerGroupGuid externalPort hostIP hostPort hostTlsPort instanceId sniHostname ttl
     terminateFrontendTLS =
     \<lparr>tm_RouterGroupGuid = routerGroupGuid, tm_ExternalPort = externalPort, tm_HostIP = hostIP,
      tm_HostPort = hostPort, tm_HostTLSPort = hostTlsPort, tm_InstanceId = instanceId,
      tm_SniHostname = sniHostname, tm_TTL = ttl, tm_TerminateFrontendTLS = terminateFrontendTLS,
      tm_EnableBackendMTLS = False\<rparr>"

record TCPRouteMappings =
  tms_Registrations :: "TcpRouteMapping list"
  tms_Unregistrations :: "TcpRouteMapping list"

definition no_mappings :: TCPRouteMappings where
  "no_mappings = \<lparr>tms_Registrations = [], tms_Unregistrations = []\<rparr>"

definition mappings_Merge :: "TCPRouteMappings \<Rightarrow> TCPRouteMappings \<Rightarrow> TCPRouteMappings" where
  "mappings_Merge m other =
     \<lparr>tms_Registrations = tms_Registrations m @ tms_Registrations other,
      tms_Unregistrations = tms_Unregistrations m @ tms_Unregistrations other\<rparr>"

record MessagesToEmit =
  me_RegistrationMessages :: "RegistryMessage list"
  me_UnregistrationMessages :: "RegistryMessage list"
  me_InternalRegistrationMessages :: "RegistryMessage list"
  me_InternalUnregistrationMessages :: "RegistryMessage list"

definition no_messages :: MessagesToEmit where
  "no_messages = \<lparr>me_RegistrationMessages = [], me_UnregistrationMessages = [],
     me_InternalRegistrationMessages = [], me_InternalUnregistrationMessages = []\<rparr>"

definition messages_Merge :: "MessagesToEmit \<Rightarrow> MessagesToEmit \<Rightarrow> MessagesToEmit" where
  "messages_Merge m o' =
     \<lparr>me_RegistrationMessages = me_RegistrationMessages m @ me_RegistrationMessages o',
      me_UnregistrationMessages = me_UnregistrationMessages m @ me_UnregistrationMessages o',
      me_InternalRegistrationMessages = me_InternalRegistrationMessages m @ me_InternalRegistrationMessages o',
      me_InternalUnregistrationMessages =
        me_InternalUnregistrationMessages m @ me_InternalUnregistrationMessages o'\<rparr>"

definition routeCount :: "RegistryMessage list \<Rightarrow> int" where
  "routeCount messages = u64 (sum_list (map (\<lambda>m. int (length (rm_URIs m))) messages))"

definition RouteRegistrationCount :: "MessagesToEmit \<Rightarrow> int" where
  "RouteRegistrationCount m = routeCount (me_RegistrationMessages m)"

definition RouteUnregistrationCount :: "MessagesToEmit \<Rightarrow> int" where
  "RouteUnregistrationCount m = routeCount (me_UnregistrationMessages m)"

subsection \<open>Routes\<close>

record ExternalEndpointInfo =
  ei_RouterGroupGUID :: string
  ei_Port :: int
  ei_TLSEnabled :: bool
  ei_SniHostname :: string
  ei_TerminateFrontendTLS :: bool
  ei_EnableBackendMTLS :: bool

record Route =
  rt_Hostname :: string
  rt_RouteServiceUrl :: string
  rt_IsolationSegment :: string
  rt_LogGUID :: string
  rt_Protocol :: string
  rt_MetricTags :: "(string \<times> MetricTagValue) list"
  rt_Options :: message

record InternalRoute =
  ir_Hostname :: string
  ir_ContainerIP :: string
  ir_LogGUID :: string

datatype routeMapping =
    HTTPRouteMapping Route
  | TCPRouteMapping ExternalEndpointInfo
  | InternalRouteMapping InternalRoute

datatype route_hash =
    RouteHash string string string string string
  | TCPHash ExternalEndpointInfo
  | InternalHash InternalRoute

fun Hash :: "routeMapping \<Rightarrow> route_hash" where
  "Hash (HTTPRouteMapping r) =
     RouteHash (rt_Hostname r) (rt_RouteServiceUrl r) (rt_IsolationSegment r) (rt_LogGUID r) (rt_Protocol r)"
| "Hash (TCPRouteMapping info) = TCPHash info"
| "Hash (InternalRouteMapping r) = InternalHash r"

text \<open>\<open>normalise\<close> is \<open>None\<close> when the options do not decode or encode again.\<close>

fun HashWithOptions :: "(message \<Rightarrow> message option) \<Rightarrow> routeMapping \<Rightarrow> route_hash \<times> message" where
  "HashWithOptions normalise (HTTPRouteMapping r) =
     (Hash (HTTPRouteMapping r),
      if rt_Options r \<noteq> [] then (case normalise (rt_Options r) of Some b \<Rightarrow> b | None \<Rightarrow> rt_Options r)
      else rt_Options r)"
| "HashWithOptions normalise (TCPRouteMapping info) = (Hash (TCPRouteMapping info), [])"
| "HashWithOptions normalise (InternalRouteMapping r) = (Hash (InternalRouteMapping r), [])"

definition metric_tag_value :: "Endpoint \<Rightarrow> MetricTagValue \<Rightarrow> string" where
  "metric_tag_value endpoint v =
     (if mt_Dynamic v > 0
      then (if mt_Dynamic v = 1 then itoa (en_Index endpoint)
            else if mt_Dynamic v = 2 then en_InstanceGUID endpoint else [])
      else mt_Static v)"

definition populateMetricTags :: "(string \<times> MetricTagValue) list \<Rightarrow> Endpoint \<Rightarrow> str_map" where
  "populateMetricTags tags endpoint =
     (let tags = fold (\<lambda>(k, v) m. AList.update k (metric_tag_value endpoint v) m) tags [];
          tags = AList.update ''component'' ''route-emitter'' tags
      in if en_ContainerIPv6 endpoint \<noteq> [] then AList.update ''cf_instance_ipv6'' (en_ContainerIPv6 endpoint) tags
         else tags)"

definition instance_index :: "Endpoint \<Rightarrow> string" where
  "instance_index endpoint = (if en_InstanceGUID endpoint \<noteq> [] then itoa (en_Index endpoint) else [])"

definition RegistryMessageFor :: "Endpoint \<Rightarrow> Route \<Rightarrow> bool \<Rightarrow> RegistryMessage" where
  "RegistryMessageFor endpoint route emitEndpointUpdatedAt =
     \<lparr>rm_Host = en_Host endpoint, rm_Port = en_Port endpoint, rm_TlsPort = en_TlsProxyPort endpoint,
      rm_URIs = [rt_Hostname route], rm_Protocol = rt_Protocol route, rm_App = rt_LogGUID route,
      rm_RouteServiceUrl = rt_RouteServiceUrl route, rm_PrivateInstanceId = en_InstanceGUID endpoint,
      rm_PrivateInstanceIndex = instance_index endpoint, rm_ServerCertDomainSAN = en_InstanceGUID endpoint,
      rm_IsolationSegment = rt_IsolationSegment route,
      rm_EndpointUpdatedAtNs = (if \<not> emitEndpointUpdatedAt then 0 else en_Since endpoint),
      rm_Tags = populateMetricTags (rt_MetricTags route) endpoint,
      rm_AvailabilityZone = en_AvailabilityZone endpoint, rm_Options = rt_Options route\<rparr>"

definition InternalAddressRegistryMessageFor :: "Endpoint \<Rightarrow> Route \<Rightarrow> bool \<Rightarrow> RegistryMessage" where
  "InternalAddressRegistryMessageFor endpoint route emitEndpointUpdatedAt =
     \<lparr>rm_Host = en_ContainerIP endpoint, rm_Port = en_ContainerPort endpoint,
      rm_TlsPort = en_ContainerTlsProxyPort endpoint,
      rm_URIs = [rt_Hostname route], rm_Protocol = rt_Protocol route, rm_App = rt_LogGUID route,
      rm_RouteServiceUrl = rt_RouteServiceUrl route, rm_PrivateInstanceId = en_InstanceGUID endpoint,
      rm_PrivateInstanceIndex = instance_index endpoint, rm_ServerCertDomainSAN = en_InstanceGUID endpoint,
      rm_IsolationSegment = rt_IsolationSegment route,
      rm_EndpointUpdatedAtNs = (if \<not> emitEndpointUpdatedAt then 0 else en_Since endpoint),
      rm_Tags = populateMetricTags (rt_MetricTags route) endpoint,
      rm_AvailabilityZone = en_AvailabilityZone endpoint, rm_Options = []\<rparr>"

definition InternalEndpointRegistryMessageFor :: "Endpoint \<Rightarrow> InternalRoute \<Rightarrow> bool \<Rightarrow> RegistryMessage" where
  "InternalEndpointRegistryMessageFor endpoint route emitEndpointUpdatedAt =
     \<lparr>rm_Host = en_ContainerIP endpoint, rm_Port = 0, rm_TlsPort = 0,
      rm_URIs = [ir_Hostname route, instance_index endpoint @ ''.'' @ ir_Hostname route], rm_Protocol = [],
      rm_App = ir_LogGUID route, rm_RouteServiceUrl = [], rm_PrivateInstanceId = [],
      rm_PrivateInstanceIndex = instance_index endpoint, rm_ServerCertDomainSAN = [], rm_IsolationSegment = [],
      rm_EndpointUpdatedAtNs = (if \<not> emitEndpointUpdatedAt then 0 else en_Since endpoint),
      rm_Tags = [(''component'', ''route-emitter'')], rm_AvailabilityZone = en_AvailabilityZone endpoint,
      rm_Options = []\<rparr>"

definition tcp_mapping_for :: "ExternalEndpointInfo \<Rightarrow> Endpoint \<Rightarrow> bool \<Rightarrow> TcpRouteMapping" where
  "tcp_mapping_for info e directInstanceRoute =
     (let tlsHostPort = (if ei_TLSEnabled info then en_TlsProxyPort e else -1);
          tlsContainerPort = (if ei_TLSEnabled info then en_ContainerTlsProxyPort e else -1);
          instanceGUID = (if ei_TLSEnabled info then en_InstanceGUID e else []);
          sniHostname = (if ei_SniHostname info \<noteq> [] then Some (ei_SniHostname info) else None);
          mapping = (if IsDirectInstanceRoute e directInstanceRoute
            then NewTcpRouteMapping (ei_RouterGroupGUID info) (u16 (ei_Port info)) (en_ContainerIP e)
                   (u16 (en_ContainerPort e)) tlsContainerPort instanceGUID sniHostname 0
                   (ei_TerminateFrontendTLS info)
            else NewTcpRouteMapping (ei_RouterGroupGUID info) (u16 (ei_Port info)) (en_Host e)
                   (u16 (en_Port e)) tlsHostPort instanceGUID sniHostname 0 (ei_TerminateFrontendTLS info))
      in mapping\<lparr>tm_EnableBackendMTLS := ei_EnableBackendMTLS info\<rparr>)"

fun MessageFor ::
  "routeMapping \<Rightarrow> Endpoint \<Rightarrow> bool \<Rightarrow> bool
   \<Rightarrow> RegistryMessage option \<times> TcpRouteMapping option \<times> RegistryMessage option" where
  "MessageFor (HTTPRouteMapping r) endpoint directInstanceAddress emitEndpointUpdatedAt =
     (Some (if IsDirectInstanceRoute endpoint directInstanceAddress
            then InternalAddressRegistryMessageFor endpoint r emitEndpointUpdatedAt
            else RegistryMessageFor endpoint r emitEndpointUpdatedAt), None, None)"
| "MessageFor (TCPRouteMapping info) endpoint directInstanceRoute emitEndpointUpdatedAt =
     (None, Some (tcp_mapping_for info endpoint directInstanceRoute), None)"
| "MessageFor (InternalRouteMapping r) endpoint directInstanceAddress emitEndpointUpdatedAt =
     (None, None, Some (InternalEndpointRegistryMessageFor endpoint r emitEndpointUpdatedAt))"

end
