(* ===== verification/Route_Table.thy ===== *)
theory Route_Table
  imports Route_Types
begin

section \<open>The routing tables (route-emitter/routingtable/routingtable.go)\<close>

text \<open>
  One table per kind of route (HTTP, TCP, internal), each a map from the process and container port
  to the routes wanted there and the endpoints that run there. An operation changes entries one by
  one and emits, for each change, the registrations and unregistrations that lead from the old entry
  to the new one; here it returns the list of its changes, and \<open>emit_changes\<close> merges their
  messages as the code does on the way. Go maps are association lists; an entry that is
  missing reads as the zero value \<open>no_entry\<close>. Locks, logs and the \<open>changed\<close> flags that only
  guard logs are left out; the collisions counted for the metric are kept.
\<close>

subsection \<open>Entries\<close>

record RoutableEndpoints =
  re_Domain :: string
  re_Routes :: "routeMapping list"
  re_Endpoints :: "(EndpointKey \<times> Endpoint) list"
  re_DesiredInstances :: int
  re_ModificationTag :: "ModificationTag option"

definition no_entry :: RoutableEndpoints where
  "no_entry = \<lparr>re_Domain = [], re_Routes = [], re_Endpoints = [], re_DesiredInstances = 0,
     re_ModificationTag = None\<rparr>"

type_synonym entry_map = "(RoutingKey \<times> RoutableEndpoints) list"

definition entry_at :: "entry_map \<Rightarrow> RoutingKey \<Rightarrow> RoutableEndpoints" where
  "entry_at entries key = (case map_of entries key of None \<Rightarrow> no_entry | Some e \<Rightarrow> e)"

record internalRoutingTable =
  it_endpointGenerator :: "RoutedLRP \<Rightarrow> Endpoint list"
  it_routesGenerator :: "RoutedDesiredLRP option \<Rightarrow> (RoutingKey \<times> routeMapping list) list"
  it_entries :: entry_map
  it_addressEntries :: "(Address \<times> EndpointKey) list"
  it_addressGenerator :: "Endpoint \<Rightarrow> Address"
  it_directInstanceRoute :: bool
  it_suppressAddressCollision :: bool
  it_collisions :: int

subsection \<open>Differences between entries\<close>

record routesDiff =
  rd_before :: "routeMapping list"
  rd_after :: "routeMapping list"
  rd_removed :: "routeMapping list"
  rd_added :: "routeMapping list"

record endpointsDiff =
  ed_before :: "(EndpointKey \<times> Endpoint) list"
  ed_after :: "(EndpointKey \<times> Endpoint) list"
  ed_removed :: "(EndpointKey \<times> Endpoint) list"
  ed_added :: "(EndpointKey \<times> Endpoint) list"

definition by_hash :: "routeMapping list \<Rightarrow> (route_hash \<times> routeMapping) list" where
  "by_hash routes = fold (\<lambda>r m. AList.update (Hash r) r m) routes []"

definition diffRoutes ::
  "(message \<Rightarrow> message option) \<Rightarrow> routeMapping list \<Rightarrow> routeMapping list \<Rightarrow> routesDiff" where
  "diffRoutes normalise before after =
     (let existingRoutes = by_hash before; newRoutes = by_hash after
      in \<lparr>rd_before = before, rd_after = after,
          rd_removed = map snd (filter (\<lambda>(h, r). map_of newRoutes h = None) existingRoutes),
          rd_added = map snd (filter (\<lambda>(h, r). case map_of existingRoutes h of
              None \<Rightarrow> True
            | Some old \<Rightarrow> HashWithOptions normalise old \<noteq> HashWithOptions normalise r) newRoutes)\<rparr>)"

definition endpointDifferent :: "Endpoint \<Rightarrow> Endpoint \<Rightarrow> bool" where
  "endpointDifferent before after =
     (before\<lparr>en_ModificationTag := en_ModificationTag after, en_Presence := en_Presence after,
             en_Since := en_Since after\<rparr> \<noteq> after)"

definition flip :: "EndpointKey \<Rightarrow> EndpointKey" where
  "flip key = key\<lparr>ek_Evacuating := \<not> ek_Evacuating key\<rparr>"

text \<open>
  One direction of \<open>diffEndpoints\<close>: an endpoint counts when the other map has none under its key, nor
  under the key with the other presence, or a different one. The flipped key is also the key
  under which the endpoint is then stored.
\<close>

definition missing_in ::
  "(EndpointKey \<times> Endpoint) list \<Rightarrow> (EndpointKey \<times> Endpoint) list \<Rightarrow> (EndpointKey \<times> Endpoint) list" where
  "missing_in other these = fold (\<lambda>(key, endpoint) diff.
     let (key, found) = (case map_of other key of
            Some e \<Rightarrow> (key, Some e)
          | None \<Rightarrow> (flip key, map_of other (flip key)))
     in case found of
          None \<Rightarrow> AList.update key endpoint diff
        | Some e \<Rightarrow> if endpointDifferent e endpoint then AList.update key endpoint diff else diff) these []"

definition diffEndpoints ::
  "(EndpointKey \<times> Endpoint) list \<Rightarrow> (EndpointKey \<times> Endpoint) list \<Rightarrow> endpointsDiff" where
  "diffEndpoints before after =
     \<lparr>ed_before = before, ed_after = after, ed_removed = missing_in after before,
      ed_added = missing_in before after\<rparr>"

subsection \<open>Messages of a difference\<close>

definition add_first :: "'k \<times> 'v \<Rightarrow> ('k \<times> 'v) list \<Rightarrow> ('k \<times> 'v) list" where
  "add_first kv m = (if map_of m (fst kv) \<noteq> None then m else m @ [kv])"

text \<open>
  The maps of \<open>messages\<close> that remove duplicates, from a route hash and an endpoint to the route and
  whether the time of the endpoint is emitted; the first one found is kept.
\<close>

definition registrations :: "routesDiff \<Rightarrow> endpointsDiff \<Rightarrow> ((route_hash \<times> Endpoint) \<times> (bool \<times> routeMapping)) list" where
  "registrations rd ed = fold add_first
     (concat (map (\<lambda>r. map (\<lambda>(k, e). ((Hash r, e), (False, r))) (ed_after ed)) (rd_added rd))
      @ concat (map (\<lambda>(k, e). map (\<lambda>r. ((Hash r, e), (True, r))) (rd_after rd)) (ed_added ed))) []"

definition unregistrations :: "routesDiff \<Rightarrow> endpointsDiff \<Rightarrow> ((route_hash \<times> Endpoint) \<times> routeMapping) list" where
  "unregistrations rd ed = fold add_first
     (concat (map (\<lambda>r. map (\<lambda>(k, e). ((Hash r, e), r)) (ed_before ed)) (rd_removed rd))
      @ concat (map (\<lambda>(k, e). map (\<lambda>r. ((Hash r, e), r)) (rd_before rd)) (ed_removed ed))) []"

definition diff_messages :: "bool \<Rightarrow> routesDiff \<Rightarrow> endpointsDiff \<Rightarrow> TCPRouteMappings \<times> MessagesToEmit" where
  "diff_messages direct rd ed =
     (let regs = map (\<lambda>((h, e), (updatedAt, r)). MessageFor r e direct updatedAt) (registrations rd ed);
          unregs = map (\<lambda>((h, e), r). MessageFor r e direct False) (unregistrations rd ed)
      in (\<lparr>tms_Registrations = List.map_filter (fst \<circ> snd) regs,
           tms_Unregistrations = List.map_filter (fst \<circ> snd) unregs\<rparr>,
          \<lparr>me_RegistrationMessages = List.map_filter fst regs,
           me_UnregistrationMessages = List.map_filter fst unregs,
           me_InternalRegistrationMessages = List.map_filter (snd \<circ> snd) regs,
           me_InternalUnregistrationMessages = List.map_filter (snd \<circ> snd) unregs\<rparr>))"

definition emitDiffMessages ::
  "(message \<Rightarrow> message option) \<Rightarrow> bool \<Rightarrow> RoutableEndpoints \<Rightarrow> RoutableEndpoints
   \<Rightarrow> TCPRouteMappings \<times> MessagesToEmit" where
  "emitDiffMessages normalise direct oldEntry newEntry =
     diff_messages direct (diffRoutes normalise (re_Routes oldEntry) (re_Routes newEntry))
       (diffEndpoints (re_Endpoints oldEntry) (re_Endpoints newEntry))"

type_synonym change = "RoutingKey \<times> RoutableEndpoints \<times> RoutableEndpoints"

definition emit_changes ::
  "(message \<Rightarrow> message option) \<Rightarrow> bool \<Rightarrow> change list \<Rightarrow> TCPRouteMappings \<times> MessagesToEmit" where
  "emit_changes normalise direct changes = fold (\<lambda>(key, oldEntry, newEntry) (mappings, messages).
     let (mapping, message) = emitDiffMessages normalise direct oldEntry newEntry
     in (mappings_Merge mappings mapping, messages_Merge messages message)) changes (no_mappings, no_messages)"

subsection \<open>Generators of addresses and routes\<close>

definition addressGenerator :: "bool \<Rightarrow> Endpoint \<Rightarrow> Address" where
  "addressGenerator directInstanceRoute endpoint =
     (if IsDirectInstanceRoute endpoint directInstanceRoute
      then \<lparr>ad_Host = en_ContainerIP endpoint, ad_Port = en_ContainerPort endpoint\<rparr>
      else \<lparr>ad_Host = en_Host endpoint, ad_Port = en_Port endpoint\<rparr>)"

text \<open>\<open>routeEntries[key] = append(routeEntries[key], routes...)\<close>\<close>

definition append_routes ::
  "RoutingKey \<Rightarrow> routeMapping list \<Rightarrow> (RoutingKey \<times> routeMapping list) list
   \<Rightarrow> (RoutingKey \<times> routeMapping list) list" where
  "append_routes key routes m =
     AList.update key ((case map_of m key of None \<Rightarrow> [] | Some rs \<Rightarrow> rs) @ routes) m"

definition http_route :: "RoutedDesiredLRP \<Rightarrow> CFRoute \<Rightarrow> string \<Rightarrow> routeMapping" where
  "http_route lrp route hostname = HTTPRouteMapping
     \<lparr>rt_Hostname = hostname, rt_RouteServiceUrl = cr_RouteServiceUrl route,
      rt_IsolationSegment = cr_IsolationSegment route, rt_LogGUID = dr_LogGuid lrp,
      rt_Protocol = cr_Protocol route, rt_MetricTags = dr_MetricTags lrp, rt_Options = cr_Options route\<rparr>"

definition httpRoutesFrom :: "RoutedDesiredLRP option \<Rightarrow> (RoutingKey \<times> routeMapping list) list" where
  "httpRoutesFrom lrp =
     (case lrp of
        None \<Rightarrow> []
      | Some lrp \<Rightarrow>
          (case dr_Routes lrp of
             None \<Rightarrow> []
           | Some routes \<Rightarrow> fold (\<lambda>route. append_routes
                 \<lparr>rk_ProcessGUID = dr_ProcessGuid lrp, rk_ContainerPort = cr_Port route\<rparr>
                 (map (http_route lrp route) (cr_Hostnames route))) (ro_cf routes) []))"

definition tcp_route :: "bool \<Rightarrow> TCPRoute \<Rightarrow> routeMapping" where
  "tcp_route tlsEnabled route = TCPRouteMapping
     \<lparr>ei_RouterGroupGUID = tr_RouterGroupGuid route, ei_Port = tr_ExternalPort route,
      ei_TLSEnabled = tlsEnabled,
      ei_SniHostname = (case tr_SniHostname route of None \<Rightarrow> [] | Some s \<Rightarrow> s),
      ei_TerminateFrontendTLS = tr_TerminateFrontendTLS route,
      ei_EnableBackendMTLS = tr_EnableBackendMTLS route\<rparr>"

definition tcpRoutesFrom :: "bool \<Rightarrow> RoutedDesiredLRP option \<Rightarrow> (RoutingKey \<times> routeMapping list) list" where
  "tcpRoutesFrom tlsEnabled lrp =
     (case lrp of
        None \<Rightarrow> []
      | Some lrp \<Rightarrow>
          fold (\<lambda>route. append_routes
              \<lparr>rk_ProcessGUID = dr_ProcessGuid lrp, rk_ContainerPort = tr_ContainerPort route\<rparr>
              [tcp_route tlsEnabled route])
            (case dr_Routes lrp of None \<Rightarrow> [] | Some routes \<Rightarrow> ro_tcp routes) [])"

definition internalRoutesFrom :: "RoutedDesiredLRP option \<Rightarrow> (RoutingKey \<times> routeMapping list) list" where
  "internalRoutesFrom lrp =
     (case lrp of
        None \<Rightarrow> []
      | Some lrp \<Rightarrow>
          (case dr_Routes lrp of
             None \<Rightarrow> []
           | Some routes \<Rightarrow> fold (\<lambda>hostname. append_routes
                 \<lparr>rk_ProcessGUID = dr_ProcessGuid lrp, rk_ContainerPort = 0\<rparr>
                 [InternalRouteMapping \<lparr>ir_Hostname = hostname, ir_ContainerIP = [], ir_LogGUID = dr_LogGuid lrp\<rparr>])
               (ro_internal routes) []))"

subsection \<open>Operations of one table\<close>

definition routing_key :: "RoutedLRP \<Rightarrow> Endpoint \<Rightarrow> RoutingKey" where
  "routing_key lrp e = \<lparr>rk_ProcessGUID = key_ProcessGuid (al_Key lrp), rk_ContainerPort = en_ContainerPort e\<rparr>"

definition record_address :: "Endpoint \<Rightarrow> internalRoutingTable \<Rightarrow> internalRoutingTable" where
  "record_address endpoint t =
     (let address = it_addressGenerator t endpoint;
          t = (case map_of (it_addressEntries t) address of
                 Some existing \<Rightarrow>
                   if ek_InstanceGUID existing \<noteq> en_InstanceGUID endpoint
                   then t\<lparr>it_collisions := it_collisions t + 1\<rparr> else t
               | None \<Rightarrow> t)
      in t\<lparr>it_addressEntries := AList.update address (endpoint_key endpoint) (it_addressEntries t)\<rparr>)"

definition add_endpoint :: "RoutedLRP \<Rightarrow> Endpoint \<Rightarrow> entry_map \<times> change list \<Rightarrow> entry_map \<times> change list" where
  "add_endpoint lrp endpoint = (\<lambda>(entries, changes).
     let key = routing_key lrp endpoint;
         currentEntry = entry_at entries key
     in if re_DesiredInstances currentEntry > 0 \<and> en_Index endpoint \<ge> re_DesiredInstances currentEntry
        then (entries, changes)
        else
          (case map_of (re_Endpoints currentEntry) (endpoint_key endpoint) of
             Some currentEndpoint \<Rightarrow>
               if \<not> SucceededBy (Some (en_ModificationTag currentEndpoint)) (en_ModificationTag endpoint)
               then (entries, changes)
               else
                 let newEntry = currentEntry\<lparr>re_Endpoints :=
                       AList.update (endpoint_key endpoint) endpoint (re_Endpoints currentEntry)\<rparr>
                 in (AList.update key newEntry entries, changes @ [(key, currentEntry, newEntry)])
           | None \<Rightarrow>
               let newEntry = currentEntry\<lparr>re_Endpoints :=
                     AList.update (endpoint_key endpoint) endpoint (re_Endpoints currentEntry)\<rparr>
               in (AList.update key newEntry entries, changes @ [(key, currentEntry, newEntry)])))"

definition table_AddEndpoint :: "RoutedLRP \<Rightarrow> internalRoutingTable \<Rightarrow> internalRoutingTable \<times> change list" where
  "table_AddEndpoint lrp t =
     (let endpoints = it_endpointGenerator t lrp;
          t = (if \<not> it_suppressAddressCollision t then fold record_address endpoints t else t);
          (entries, changes) = fold (add_endpoint lrp) endpoints (it_entries t, [])
      in (t\<lparr>it_entries := entries\<rparr>, changes))"

definition remove_address :: "Endpoint \<Rightarrow> internalRoutingTable \<Rightarrow> internalRoutingTable" where
  "remove_address endpoint t =
     (let address = it_addressGenerator t endpoint;
          delete = t\<lparr>it_addressEntries := AList.delete address (it_addressEntries t)\<rparr>
      in case map_of (it_addressEntries t) address of
           Some currentEntry \<Rightarrow>
             if ek_InstanceGUID currentEntry \<noteq> en_InstanceGUID endpoint then t else delete
         | None \<Rightarrow> delete)"

definition deleteEntryIfEmpty :: "RoutingKey \<Rightarrow> entry_map \<Rightarrow> entry_map" where
  "deleteEntryIfEmpty key entries =
     (let entry = entry_at entries key
      in if re_Endpoints entry = [] \<and> re_Routes entry = [] then AList.delete key entries else entries)"

definition remove_endpoint :: "RoutedLRP \<Rightarrow> Endpoint \<Rightarrow> entry_map \<times> change list \<Rightarrow> entry_map \<times> change list" where
  "remove_endpoint lrp endpoint = (\<lambda>(entries, changes).
     let key = routing_key lrp endpoint;
         currentEntry = entry_at entries key
     in case map_of (re_Endpoints currentEntry) (endpoint_key endpoint) of
          None \<Rightarrow> (entries, changes)
        | Some currentEndpoint \<Rightarrow>
            if \<not> tag_Equal (Some (en_ModificationTag currentEndpoint)) (en_ModificationTag endpoint)
               \<and> \<not> SucceededBy (Some (en_ModificationTag currentEndpoint)) (en_ModificationTag endpoint)
            then (entries, changes)
            else
              let newEntry = currentEntry\<lparr>re_Endpoints :=
                    AList.delete (endpoint_key endpoint) (re_Endpoints currentEntry)\<rparr>
              in (deleteEntryIfEmpty key (AList.update key newEntry entries),
                  changes @ [(key, currentEntry, newEntry)]))"

definition table_RemoveEndpoint :: "RoutedLRP \<Rightarrow> internalRoutingTable \<Rightarrow> internalRoutingTable \<times> change list" where
  "table_RemoveEndpoint lrp t =
     (let endpoints = it_endpointGenerator t lrp;
          t = (if \<not> it_suppressAddressCollision t then fold remove_address endpoints t else t);
          (entries, changes) = fold (remove_endpoint lrp) endpoints (it_entries t, [])
      in (t\<lparr>it_entries := entries\<rparr>, changes))"

definition mergeUnfreshRoutes ::
  "RoutableEndpoints \<Rightarrow> RoutableEndpoints \<Rightarrow> string list \<Rightarrow> RoutableEndpoints" where
  "mergeUnfreshRoutes before after domains =
     (let merged = after\<lparr>re_Domain := re_Domain before\<rparr>
      in if re_Domain before \<notin> set domains
         then merged\<lparr>re_Routes := re_Routes merged
                @ filter (\<lambda>old. \<not> (\<exists>new \<in> set (re_Routes after). Hash new = Hash old)) (re_Routes before)\<rparr>
         else merged)"

definition swap_key ::
  "entry_map \<Rightarrow> string list \<Rightarrow> RoutingKey \<Rightarrow> entry_map \<times> change list \<Rightarrow> entry_map \<times> change list" where
  "swap_key existing domains key = (\<lambda>(others, changes).
     let newEntry = entry_at others key
     in case map_of existing key of
          None \<Rightarrow> (others, changes @ [(key, no_entry, newEntry)])
        | Some existingEntry \<Rightarrow>
            let merged = mergeUnfreshRoutes existingEntry newEntry domains
            in (deleteEntryIfEmpty key (AList.update key merged others),
                changes @ [(key, existingEntry, merged)]))"

definition table_Swap ::
  "internalRoutingTable \<Rightarrow> string list \<Rightarrow> internalRoutingTable \<Rightarrow> internalRoutingTable \<times> change list" where
  "table_Swap other domains t =
     (let keys = map fst (it_entries other)
               @ filter (\<lambda>k. k \<notin> set (map fst (it_entries other))) (map fst (it_entries t));
          (entries, changes) = fold (swap_key (it_entries t) domains) keys (it_entries other, [])
      in (t\<lparr>it_addressEntries := it_addressEntries other, it_entries := entries\<rparr>, changes))"

definition table_GetRoutingEvents :: "internalRoutingTable \<Rightarrow> change list" where
  "table_GetRoutingEvents t = map (\<lambda>(key, entry). (key, no_entry, entry)) (it_entries t)"

definition set_routes ::
  "RoutedDesiredLRP option \<Rightarrow> RoutedDesiredLRP \<Rightarrow> RoutingKey \<times> routeMapping list
   \<Rightarrow> entry_map \<times> change list \<Rightarrow> entry_map \<times> change list" where
  "set_routes before after = (\<lambda>(key, routes) (entries, changes).
     let currentEntry = entry_at entries key
     in if \<not> SucceededBy (re_ModificationTag currentEntry) (dr_ModificationTag after) then (entries, changes)
        else
          let newEntry = currentEntry\<lparr>re_Domain := dr_Domain after, re_Routes := routes,
                re_ModificationTag := Some (dr_ModificationTag after), re_DesiredInstances := dr_Instances after\<rparr>;
              newEntry = (case before of
                  Some b \<Rightarrow>
                    if dr_Instances b > dr_Instances after
                    then newEntry\<lparr>re_Endpoints :=
                           filter (\<lambda>(k, e). en_Index e < dr_Instances after) (re_Endpoints newEntry)\<rparr>
                    else newEntry
                | None \<Rightarrow> newEntry)
          in (AList.update key newEntry entries, changes @ [(key, currentEntry, newEntry)]))"

definition remove_routes ::
  "RoutedDesiredLRP \<Rightarrow> RoutedDesiredLRP option \<Rightarrow> RoutingKey
   \<Rightarrow> entry_map \<times> change list \<Rightarrow> entry_map \<times> change list" where
  "remove_routes before after key = (\<lambda>(entries, changes).
     let currentEntry = entry_at entries key;
         stale = (case after of
             None \<Rightarrow> \<not> tag_Equal (re_ModificationTag currentEntry) (dr_ModificationTag before)
                   \<and> \<not> SucceededBy (re_ModificationTag currentEntry) (dr_ModificationTag before)
           | Some a \<Rightarrow> \<not> SucceededBy (re_ModificationTag currentEntry) (dr_ModificationTag a))
     in if stale then (entries, changes)
        else
          let newEntry = currentEntry\<lparr>re_Routes := []\<rparr>;
              newEntry = (case after of
                  None \<Rightarrow> newEntry
                | Some a \<Rightarrow> newEntry\<lparr>re_Domain := dr_Domain a, re_ModificationTag := Some (dr_ModificationTag a),
                     re_DesiredInstances := dr_Instances a\<rparr>)
          in (deleteEntryIfEmpty key (AList.update key newEntry entries),
              changes @ [(key, currentEntry, newEntry)]))"

definition table_SetRoutes ::
  "RoutedDesiredLRP option \<Rightarrow> RoutedDesiredLRP option \<Rightarrow> internalRoutingTable
   \<Rightarrow> internalRoutingTable \<times> change list" where
  "table_SetRoutes before after t =
     (let removedRouteEntries = it_routesGenerator t before;
          routeEntries = it_routesGenerator t after;
          ec = (case after of
                  None \<Rightarrow> (it_entries t, [])
                | Some a \<Rightarrow> fold (set_routes before a) routeEntries (it_entries t, []));
          (entries, changes) = (case before of
                  None \<Rightarrow> ec
                | Some b \<Rightarrow> fold (remove_routes b after)
                    (filter (\<lambda>k. map_of routeEntries k = None) (map fst removedRouteEntries)) ec)
      in (t\<lparr>it_entries := entries\<rparr>, changes))"

definition table_RemoveRoutes :: "RoutedDesiredLRP \<Rightarrow> internalRoutingTable \<Rightarrow> internalRoutingTable \<times> change list" where
  "table_RemoveRoutes desiredLRP t = table_SetRoutes (Some desiredLRP) None t"

definition AssociationsCount :: "internalRoutingTable \<Rightarrow> int" where
  "AssociationsCount t =
     sum_list (map (\<lambda>(k, e). int (length (re_Routes e)) * int (length (re_Endpoints e))) (it_entries t))"

definition table_TableSize :: "internalRoutingTable \<Rightarrow> int" where
  "table_TableSize t = int (length (it_entries t))"

definition table_HasExternalRoutes :: "RoutedLRP \<Rightarrow> internalRoutingTable \<Rightarrow> bool option" where
  "table_HasExternalRoutes lrp t =
     map_option (list_ex (\<lambda>key. re_Routes (entry_at (it_entries t) key) \<noteq> [])) (NewRoutingKeysFromActual lrp)"

subsection \<open>The three tables\<close>

record routingTable =
  rt_tcp :: internalRoutingTable
  rt_http :: internalRoutingTable
  rt_internal :: internalRoutingTable

definition new_table ::
  "bool \<Rightarrow> (RoutedLRP \<Rightarrow> Endpoint list)
   \<Rightarrow> (RoutedDesiredLRP option \<Rightarrow> (RoutingKey \<times> routeMapping list) list) \<Rightarrow> bool \<Rightarrow> internalRoutingTable" where
  "new_table directInstanceRoute endpoints routes suppress =
     \<lparr>it_endpointGenerator = endpoints, it_routesGenerator = routes, it_entries = [], it_addressEntries = [],
      it_addressGenerator = addressGenerator directInstanceRoute, it_directInstanceRoute = directInstanceRoute,
      it_suppressAddressCollision = suppress, it_collisions = 0\<rparr>"

definition NewRoutingTable :: "bool \<Rightarrow> bool \<Rightarrow> routingTable" where
  "NewRoutingTable directInstanceRoute tcpTLSEnabled =
     \<lparr>rt_tcp = new_table directInstanceRoute NewEndpointsFromActual (tcpRoutesFrom tcpTLSEnabled) True,
      rt_http = new_table directInstanceRoute NewEndpointsFromActual httpRoutesFrom False,
      rt_internal = new_table directInstanceRoute internalEndpointsFromActualLRP internalRoutesFrom True\<rparr>"

text \<open>Apply an operation to the three tables and merge what they emit: HTTP, TCP, internal.\<close>

definition on_tables ::
  "(message \<Rightarrow> message option) \<Rightarrow> (internalRoutingTable \<Rightarrow> internalRoutingTable \<times> change list) \<Rightarrow> routingTable
   \<Rightarrow> routingTable \<times> TCPRouteMappings \<times> MessagesToEmit" where
  "on_tables normalise f t =
     (let (http, httpChanges) = f (rt_http t);
          (tcp, tcpChanges) = f (rt_tcp t);
          (internal, internalChanges) = f (rt_internal t);
          emit = (\<lambda>table changes. emit_changes normalise (it_directInstanceRoute table) changes);
          (httpMappings, httpMessages) = emit (rt_http t) httpChanges;
          (tcpMappings, tcpMessages) = emit (rt_tcp t) tcpChanges;
          (internalMappings, internalMessages) = emit (rt_internal t) internalChanges
      in (\<lparr>rt_tcp = tcp, rt_http = http, rt_internal = internal\<rparr>,
          mappings_Merge (mappings_Merge httpMappings tcpMappings) internalMappings,
          messages_Merge (messages_Merge httpMessages tcpMessages) internalMessages))"

definition AddEndpoint ::
  "(message \<Rightarrow> message option) \<Rightarrow> RoutedLRP \<Rightarrow> routingTable \<Rightarrow> routingTable \<times> TCPRouteMappings \<times> MessagesToEmit" where
  "AddEndpoint normalise lrp = on_tables normalise (table_AddEndpoint lrp)"

definition RemoveEndpoint ::
  "(message \<Rightarrow> message option) \<Rightarrow> RoutedLRP \<Rightarrow> routingTable \<Rightarrow> routingTable \<times> TCPRouteMappings \<times> MessagesToEmit" where
  "RemoveEndpoint normalise lrp = on_tables normalise (table_RemoveEndpoint lrp)"

definition SetRoutes ::
  "(message \<Rightarrow> message option) \<Rightarrow> RoutedDesiredLRP option \<Rightarrow> RoutedDesiredLRP option \<Rightarrow> routingTable
   \<Rightarrow> routingTable \<times> TCPRouteMappings \<times> MessagesToEmit" where
  "SetRoutes normalise before after = on_tables normalise (table_SetRoutes before after)"

definition RemoveRoutes ::
  "(message \<Rightarrow> message option) \<Rightarrow> RoutedDesiredLRP \<Rightarrow> routingTable
   \<Rightarrow> routingTable \<times> TCPRouteMappings \<times> MessagesToEmit" where
  "RemoveRoutes normalise desiredLRP = on_tables normalise (table_RemoveRoutes desiredLRP)"

definition Swap ::
  "(message \<Rightarrow> message option) \<Rightarrow> routingTable \<Rightarrow> string list \<Rightarrow> routingTable
   \<Rightarrow> routingTable \<times> TCPRouteMappings \<times> MessagesToEmit" where
  "Swap normalise other domains t =
     (let (http, httpChanges) = table_Swap (rt_http other) domains (rt_http t);
          (tcp, tcpChanges) = table_Swap (rt_tcp other) domains (rt_tcp t);
          (internal, internalChanges) = table_Swap (rt_internal other) domains (rt_internal t);
          emit = (\<lambda>table changes. emit_changes normalise (it_directInstanceRoute table) changes);
          (httpMappings, httpMessages) = emit (rt_http t) httpChanges;
          (tcpMappings, tcpMessages) = emit (rt_tcp t) tcpChanges;
          (internalMappings, internalMessages) = emit (rt_internal t) internalChanges
      in (\<lparr>rt_tcp = tcp, rt_http = http, rt_internal = internal\<rparr>,
          mappings_Merge (mappings_Merge httpMappings tcpMappings) internalMappings,
          messages_Merge (messages_Merge httpMessages tcpMessages) internalMessages))"

definition GetExternalRoutingEvents ::
  "(message \<Rightarrow> message option) \<Rightarrow> routingTable \<Rightarrow> TCPRouteMappings \<times> MessagesToEmit" where
  "GetExternalRoutingEvents normalise t =
     (let (httpMappings, httpMessages) =
            emit_changes normalise (it_directInstanceRoute (rt_http t)) (table_GetRoutingEvents (rt_http t));
          (tcpMappings, tcpMessages) =
            emit_changes normalise (it_directInstanceRoute (rt_tcp t)) (table_GetRoutingEvents (rt_tcp t))
      in (mappings_Merge httpMappings tcpMappings, messages_Merge httpMessages tcpMessages))"

definition GetInternalRoutingEvents ::
  "(message \<Rightarrow> message option) \<Rightarrow> routingTable \<Rightarrow> TCPRouteMappings \<times> MessagesToEmit" where
  "GetInternalRoutingEvents normalise t =
     emit_changes normalise (it_directInstanceRoute (rt_internal t)) (table_GetRoutingEvents (rt_internal t))"

definition HTTPAssociationsCount :: "routingTable \<Rightarrow> int" where
  "HTTPAssociationsCount t = AssociationsCount (rt_http t)"

definition TCPAssociationsCount :: "routingTable \<Rightarrow> int" where
  "TCPAssociationsCount t = AssociationsCount (rt_tcp t)"

definition InternalAssociationsCount :: "routingTable \<Rightarrow> int" where
  "InternalAssociationsCount t = 2 * AssociationsCount (rt_internal t)"

definition TableSize :: "routingTable \<Rightarrow> int" where
  "TableSize t = table_TableSize (rt_http t) + table_TableSize (rt_tcp t) + table_TableSize (rt_internal t)"

text \<open>The second disjunct is not evaluated when the first holds.\<close>

definition HasExternalRoutes :: "RoutedLRP \<Rightarrow> routingTable \<Rightarrow> bool option" where
  "HasExternalRoutes lrp t =
     (case table_HasExternalRoutes lrp (rt_http t) of
        None \<Rightarrow> None
      | Some True \<Rightarrow> Some True
      | Some False \<Rightarrow> table_HasExternalRoutes lrp (rt_tcp t))"

end
