(* ===== verification/Route_Refinement.thy ===== *)
theory Route_Refinement
  imports Route_Table
begin

section \<open>What the tables emit is what they hold\<close>

text \<open>
  Abstractly a routing table is a set of associations between a route and an endpoint, and a router
  that receives registrations and unregistrations holds such a set. The lemmas of this theory show
  that the messages of every operation lead a router from the associations before the operation to
  those after it: a forward simulation between the tables and \<open>deliver\<close>.
\<close>

subsection \<open>Associations\<close>

text \<open>An endpoint up to the fields that \<open>endpointDifferent\<close> ignores.\<close>

definition essence :: "Endpoint \<Rightarrow> Endpoint" where
  "essence e = e\<lparr>en_ModificationTag := \<lparr>mod_Epoch = [], mod_Index = 0\<rparr>, en_Presence := ActualLRP_Ordinary,
     en_Since := 0\<rparr>"

type_synonym association = "route_hash \<times> Endpoint"

definition associations :: "RoutableEndpoints \<Rightarrow> association set" where
  "associations entry = Hash ` set (re_Routes entry) \<times> essence ` snd ` set (re_Endpoints entry)"

definition registered :: "(message \<Rightarrow> message option) \<Rightarrow> RoutableEndpoints \<Rightarrow> RoutableEndpoints \<Rightarrow> association set" where
  "registered normalise old new = (\<lambda>((h, e), m). (h, essence e)) `
     set (registrations (diffRoutes normalise (re_Routes old) (re_Routes new))
            (diffEndpoints (re_Endpoints old) (re_Endpoints new)))"

definition unregistered :: "(message \<Rightarrow> message option) \<Rightarrow> RoutableEndpoints \<Rightarrow> RoutableEndpoints \<Rightarrow> association set" where
  "unregistered normalise old new = (\<lambda>((h, e), m). (h, essence e)) `
     set (unregistrations (diffRoutes normalise (re_Routes old) (re_Routes new))
            (diffEndpoints (re_Endpoints old) (re_Endpoints new)))"

text \<open>Endpoints are stored under their own key.\<close>

definition keyed :: "(EndpointKey \<times> Endpoint) list \<Rightarrow> bool" where
  "keyed es \<longleftrightarrow> distinct (map fst es) \<and> list_all (\<lambda>(k, e). k = endpoint_key e) es"

text \<open>An instance that is known as evacuating and as not has one address.\<close>

definition agreeing :: "(EndpointKey \<times> Endpoint) list \<Rightarrow> bool" where
  "agreeing es \<longleftrightarrow> list_all (\<lambda>(k, e). list_all (\<lambda>(k', e').
     en_InstanceGUID e = en_InstanceGUID e' \<longrightarrow> essence e = essence e') es) es"

lemma agreeingD:
  assumes "agreeing es" and "(k, e) \<in> set es" and "(k', e') \<in> set es" and "en_InstanceGUID e = en_InstanceGUID e'"
  shows "essence e = essence e'"
  using bspec [OF bspec [OF assms(1) [unfolded agreeing_def list_all_iff] assms(2), simplified] assms(3)] assms(4)
  by simp

lemma keyedD: "keyed es \<Longrightarrow> (k, e) \<in> set es \<Longrightarrow> k = endpoint_key e"
  by (auto simp: keyed_def list_all_iff)

subsection \<open>Lemmas: differences\<close>

lemma endpointDifferent_essence: "endpointDifferent a b \<longleftrightarrow> essence a \<noteq> essence b"
proof -
  have "a\<lparr>en_ModificationTag := en_ModificationTag b, en_Presence := en_Presence b, en_Since := en_Since b\<rparr> = b
      \<longleftrightarrow> essence a = essence b"
    by (cases a; cases b) (auto simp: essence_def)
  then show ?thesis by (simp add: endpointDifferent_def)
qed

lemma essence_guid: "essence a = essence b \<Longrightarrow> en_InstanceGUID a = en_InstanceGUID b"
  by (cases a; cases b) (auto simp: essence_def)

lemma fold_add_first_keys: "fst ` set (fold add_first xs m) = fst ` set xs \<union> fst ` set m"
proof (induction xs arbitrary: m)
  case (Cons x xs)
  have "fst ` set (add_first x m) = insert (fst x) (fst ` set m)"
    by (auto simp: add_first_def map_of_eq_None_iff image_iff)
  then show ?case by (auto simp: Cons.IH)
qed simp

lemma find_member: "find P xs = Some x \<Longrightarrow> x \<in> set xs \<and> P x"
  by (auto simp: find_Some_iff)

lemma by_hash_keys: "fst ` set (by_hash rs) = Hash ` set rs"
  unfolding by_hash_def by (induction rs rule: rev_induct) (simp_all add: dom_update)

lemma by_hash_member: "(h, r) \<in> set (by_hash rs) \<Longrightarrow> h = Hash r \<and> r \<in> set rs"
  unfolding by_hash_def
proof (induction rs rule: rev_induct)
  case (snoc r' rs)
  then have "(h, r) \<in> insert (Hash r', r') (set (fold (\<lambda>r m. AList.update (Hash r) r m) rs []))"
    using set_update_subset [of "Hash r'" r' "fold (\<lambda>r m. AList.update (Hash r) r m) rs []"] by auto
  with snoc.IH show ?case by auto
qed simp

lemma by_hash_None: "map_of (by_hash rs) h = None \<longleftrightarrow> h \<notin> Hash ` set rs"
  by (simp add: map_of_eq_None_iff by_hash_keys)

lemmas set_by_hash = by_hash_keys by_hash_member by_hash_None

lemma rd_removed_set:
  "set (rd_removed (diffRoutes n before after)) = {r. \<exists>h. (h, r) \<in> set (by_hash before) \<and> h \<notin> Hash ` set after}"
  unfolding diffRoutes_def Let_def by (auto simp: by_hash_None image_iff)

lemma removed_hashes:
  "Hash ` set (rd_removed (diffRoutes n before after)) = Hash ` set before - Hash ` set after"
proof (intro equalityI subsetI)
  fix h assume "h \<in> Hash ` set (rd_removed (diffRoutes n before after))"
  then show "h \<in> Hash ` set before - Hash ` set after"
    by (auto simp only: rd_removed_set mem_Collect_eq dest!: by_hash_member)
next
  fix h assume h: "h \<in> Hash ` set before - Hash ` set after"
  then obtain r where r: "(h, r) \<in> set (by_hash before)"
    using by_hash_keys [of before] by (metis DiffD1 imageE prod.collapse)
  with h have "r \<in> set (rd_removed (diffRoutes n before after))" by (auto simp only: rd_removed_set)
  with by_hash_member [OF r] show "h \<in> Hash ` set (rd_removed (diffRoutes n before after))" by blast
qed

lemma added_hashes:
  shows "Hash ` set after - Hash ` set before \<subseteq> Hash ` set (rd_added (diffRoutes n before after))"
    and "Hash ` set (rd_added (diffRoutes n before after)) \<subseteq> Hash ` set after"
proof -
  have add: "set (rd_added (diffRoutes n before after)) =
      {r. \<exists>h. (h, r) \<in> set (by_hash after) \<and> (case map_of (by_hash before) h of
          None \<Rightarrow> True | Some old \<Rightarrow> HashWithOptions n old \<noteq> HashWithOptions n r)}"
    unfolding diffRoutes_def Let_def by (fastforce simp: image_iff)
  show "Hash ` set after - Hash ` set before \<subseteq> Hash ` set (rd_added (diffRoutes n before after))"
  proof
    fix h assume h: "h \<in> Hash ` set after - Hash ` set before"
    then obtain r where r: "(h, r) \<in> set (by_hash after)"
      using by_hash_keys [of after] by (metis DiffD1 imageE prod.collapse)
    have "map_of (by_hash before) h = None" using h by (simp add: by_hash_None)
    with r have "r \<in> set (rd_added (diffRoutes n before after))" unfolding add by force
    with by_hash_member [OF r] show "h \<in> Hash ` set (rd_added (diffRoutes n before after))" by blast
  qed
  show "Hash ` set (rd_added (diffRoutes n before after)) \<subseteq> Hash ` set after"
    unfolding add by (auto dest: by_hash_member)
qed

text \<open>The key and the test of \<open>diffEndpoints\<close>.\<close>

definition stored_key :: "(EndpointKey \<times> Endpoint) list \<Rightarrow> EndpointKey \<Rightarrow> EndpointKey" where
  "stored_key other key = (if map_of other key \<noteq> None then key else flip key)"

definition lacks :: "(EndpointKey \<times> Endpoint) list \<Rightarrow> EndpointKey \<times> Endpoint \<Rightarrow> bool" where
  "lacks other = (\<lambda>(key, e). case map_of other (stored_key other key) of
     None \<Rightarrow> True | Some e' \<Rightarrow> essence e' \<noteq> essence e)"

lemma missing_in_fold:
  "missing_in other these =
     fold (\<lambda>(key, e). AList.update (stored_key other key) e) (filter (lacks other) these) []"
proof -
  have "fold (\<lambda>(key, endpoint) diff.
     let (key, found) = (case map_of other key of
            Some e \<Rightarrow> (key, Some e)
          | None \<Rightarrow> (flip key, map_of other (flip key)))
     in case found of
          None \<Rightarrow> AList.update key endpoint diff
        | Some e \<Rightarrow> if endpointDifferent e endpoint then AList.update key endpoint diff else diff) these d
    = fold (\<lambda>(key, e). AList.update (stored_key other key) e) (filter (lacks other) these) d" for d
    by (induction these arbitrary: d)
      (auto simp: lacks_def stored_key_def endpointDifferent_essence split: option.splits)
  then show ?thesis by (simp add: missing_in_def)
qed

lemma fold_update_values:
  "snd ` set (fold (\<lambda>(k, v). AList.update (f k) v) xs m) \<subseteq> snd ` set xs \<union> snd ` set m"
proof (induction xs arbitrary: m)
  case (Cons x xs)
  obtain k v where x: "x = (k, v)" by (cases x)
  have "snd ` set (AList.update (f k) v m) \<subseteq> insert v (snd ` set m)"
    using set_update_subset [of "f k" v m] by force
  with Cons.IH [of "AList.update (f k) v m"] show ?case by (auto simp: x)
qed simp

lemma fold_update_lookup:
  "map_of (fold (\<lambda>(k, v). AList.update (f k) v) xs m) k' =
     (case find (\<lambda>(k, v). f k = k') (rev xs) of Some (k, v) \<Rightarrow> Some v | None \<Rightarrow> map_of m k')"
proof (induction xs rule: rev_induct)
  case (snoc x xs)
  obtain k v where x: "x = (k, v)" by (cases x)
  show ?case by (simp add: x snoc update_conv')
qed simp

lemma missing_values:
  assumes "(k, e) \<in> set (missing_in other these)"
  shows "\<exists>k0. (k0, e) \<in> set these \<and> lacks other (k0, e)"
proof -
  have "e \<in> snd ` set (filter (lacks other) these)"
    using fold_update_values [of "stored_key other" "filter (lacks other) these" "[]"] assms
    by (force simp: missing_in_fold)
  then show ?thesis by auto
qed

lemma stored_key_guid: "ek_InstanceGUID (stored_key other k) = ek_InstanceGUID k"
  by (simp add: stored_key_def flip_def)

lemma missing_covers:
  assumes "keyed these" and "agreeing these" and "(k, e) \<in> set these" and "lacks other (k, e)"
  shows "\<exists>k' e'. (k', e') \<in> set (missing_in other these) \<and> essence e' = essence e"
proof -
  let ?xs = "filter (lacks other) these" and ?k = "stored_key other k"
  have "find (\<lambda>(k, v). stored_key other k = ?k) (rev ?xs) \<noteq> None"
    using assms(3,4) by (auto simp: find_None_iff)
  then obtain k1 e1 where f: "find (\<lambda>(k, v). stored_key other k = ?k) (rev ?xs) = Some (k1, e1)" by auto
  then have in1: "(k1, e1) \<in> set these" and key: "stored_key other k1 = ?k"
    by (auto dest!: find_member)
  have "map_of (missing_in other these) ?k = Some e1"
    by (simp add: missing_in_fold fold_update_lookup f)
  moreover have "en_InstanceGUID e1 = en_InstanceGUID e"
  proof -
    have "k1 = endpoint_key e1" "k = endpoint_key e" using assms(1,3) in1 by (auto dest: keyedD)
    then show ?thesis using key stored_key_guid [of other k1] stored_key_guid [of other k]
      by (simp add: endpoint_key_def)
  qed
  then have "essence e1 = essence e" by (rule agreeingD [OF assms(2) in1 assms(3)])
  ultimately show ?thesis by (meson map_of_SomeD)
qed


lemma lacks_only:
  assumes "keyed es'" and "agreeing es'" and "endpoint_key e = k" and "lacks es' (k, e)" and "(k', e') \<in> set es'"
  shows "essence e' \<noteq> essence e"
proof
  assume same: "essence e' = essence e"
  let ?k = "stored_key es' k"
  have k': "k' = endpoint_key e'" and d: "distinct (map fst es')" using assms(1,5) by (auto simp: keyed_def list_all_iff)
  then have "ek_InstanceGUID k' = ek_InstanceGUID k"
    using essence_guid [OF same] assms(3) by (auto simp: endpoint_key_def)
  then have "k' = k \<or> k' = flip k" by (cases k; cases k') (auto simp: flip_def)
  moreover have look: "map_of es' k' = Some e'" using d assms(5) by simp
  ultimately have "map_of es' ?k \<noteq> None" by (cases "map_of es' k") (auto simp: stored_key_def)
  then obtain v where v: "map_of es' ?k = Some v" by blast
  with assms(4) have diff: "essence v \<noteq> essence e" by (simp add: lacks_def)
  from map_of_SomeD [OF v] have "(?k, v) \<in> set es'" .
  then have "?k = endpoint_key v" using assms(1) by (auto simp: keyed_def list_all_iff)
  then have "en_InstanceGUID v = en_InstanceGUID e"
    using stored_key_guid [of es' k] assms(3) by (auto simp: endpoint_key_def)
  then have "essence v = essence e'"
    using agreeingD [OF assms(2) \<open>(?k, v) \<in> set es'\<close> assms(5)] essence_guid [OF same] by simp
  with diff same show False by simp
qed

lemma not_lacks:
  assumes "\<not> lacks es' (k, e)"
  shows "\<exists>k' e'. (k', e') \<in> set es' \<and> essence e' = essence e"
  using assms by (auto simp: lacks_def split: option.splits dest: map_of_SomeD)

lemma keys_concat:
  assumes "\<And>x. fst ` set (g x) = A x"
  shows "fst ` set (concat (map g xs)) = (\<Union>x \<in> set xs. A x)"
  using assms by (simp add: image_UN)

lemma pairs_by_route:
  "fst ` set (concat (map (\<lambda>r. map (\<lambda>(k, e). ((hash r, e), f r)) es) rs)) = hash ` set rs \<times> snd ` set es"
proof -
  have "fst ` set (map (\<lambda>(k, e). ((hash r, e), f r)) es) = {hash r} \<times> snd ` set es" for r
    by (force simp: image_image case_prod_unfold)
  note keys_concat [of "\<lambda>r. map (\<lambda>(k, e). ((hash r, e), f r)) es", OF this]
  then show ?thesis by (rule trans) blast
qed

lemma pairs_by_endpoint:
  "fst ` set (concat (map (\<lambda>(k, e). map (\<lambda>r. ((hash r, e), f r)) rs) es)) = hash ` set rs \<times> snd ` set es"
proof -
  have "fst ` set (case x of (k, e) \<Rightarrow> map (\<lambda>r. ((hash r, e), f r)) rs) = hash ` set rs \<times> {snd x}" for x
    by (force simp: image_image case_prod_unfold)
  note keys_concat [of "\<lambda>x. case x of (k, e) \<Rightarrow> map (\<lambda>r. ((hash r, e), f r)) rs", OF this]
  then show ?thesis by (rule trans) blast
qed

lemma essence_pairs: "(\<lambda>((h, e), m). (h, f e)) ` S = (\<lambda>(h, e). (h, f e)) ` fst ` S"
  by (simp add: image_image case_prod_unfold)

lemma image_essence: "(\<lambda>(h, e). (h, f e)) ` (A \<times> B) = A \<times> f ` B"
  by force

abbreviation hashes :: "RoutableEndpoints \<Rightarrow> route_hash set" where
  "hashes entry \<equiv> Hash ` set (re_Routes entry)"

abbreviation essences :: "(EndpointKey \<times> Endpoint) list \<Rightarrow> Endpoint set" where
  "essences es \<equiv> essence ` snd ` set es"

lemma diff_fields:
  "rd_before (diffRoutes n old new) = old" "rd_after (diffRoutes n old new) = new"
  "ed_before (diffEndpoints es es') = es" "ed_after (diffEndpoints es es') = es'"
  "ed_removed (diffEndpoints es es') = missing_in es' es" "ed_added (diffEndpoints es es') = missing_in es es'"
  by (simp_all add: diffRoutes_def diffEndpoints_def Let_def)

lemmas pair_simps = essence_pairs fold_add_first_keys set_append image_Un pairs_by_route pairs_by_endpoint
  image_essence removed_hashes diff_fields list.set(1) image_empty Un_empty_right

lemma unregistered_pairs:
  "unregistered n old new = (hashes old - hashes new) \<times> essences (re_Endpoints old)
     \<union> hashes old \<times> essences (missing_in (re_Endpoints new) (re_Endpoints old))"
  by (simp only: unregistered_def unregistrations_def pair_simps)

lemma registered_pairs:
  "registered n old new =
     Hash ` set (rd_added (diffRoutes n (re_Routes old) (re_Routes new))) \<times> essences (re_Endpoints new)
     \<union> hashes new \<times> essences (missing_in (re_Endpoints old) (re_Endpoints new))"
  by (simp only: registered_def registrations_def pair_simps)

lemma essences_split:
  assumes "keyed old" and "agreeing old" and "keyed new" and "agreeing new"
  shows "essences (missing_in new old) = essences old - essences new"
proof (intro equalityI subsetI)
  fix x assume "x \<in> essences (missing_in new old)"
  then obtain k e where e: "(k, e) \<in> set (missing_in new old)" "x = essence e" by (elim imageE) (metis prod.collapse)
  obtain k0 where k0: "(k0, e) \<in> set old" "lacks new (k0, e)" using missing_values [OF e(1)] by blast
  have "essence e' \<noteq> x" if "(k', e') \<in> set new" for k' e'
    using lacks_only [OF assms(3,4) _ k0(2) that] keyedD [OF assms(1) k0(1)] e(2) by simp
  then have "x \<notin> essences new" by (metis imageE prod.collapse)
  moreover have "x \<in> essences old" using k0(1) e(2) by (auto simp: image_iff intro: bexI [of _ "(k0, e)"])
  ultimately show "x \<in> essences old - essences new" by blast
next
  fix x assume x: "x \<in> essences old - essences new"
  then obtain k e where e: "(k, e) \<in> set old" "x = essence e" by (elim DiffE imageE) (metis prod.collapse)
  have "lacks new (k, e)"
  proof (rule ccontr)
    assume "\<not> lacks new (k, e)"
    then obtain k' e' where "(k', e') \<in> set new" "essence e' = essence e" using not_lacks by blast
    then have "x \<in> essences new" using e(2) by (auto simp: image_iff intro: bexI [of _ "(k', e')"])
    with x show False by blast
  qed
  then obtain k' e' where "(k', e') \<in> set (missing_in new old)" "essence e' = essence e"
    using missing_covers [OF assms(1,2) e(1)] by blast
  then show "x \<in> essences (missing_in new old)" using e(2) by (auto simp: image_iff intro: bexI [of _ "(k', e')"])
qed

text \<open>The messages of one entry lead from its old associations to the new ones, in either order.\<close>

lemma diff_exact:
  assumes "keyed (re_Endpoints old)" and "agreeing (re_Endpoints old)"
    and "keyed (re_Endpoints new)" and "agreeing (re_Endpoints new)"
  shows "unregistered n old new = associations old - associations new"
    and "registered n old new \<subseteq> associations new"
    and "associations new - associations old \<subseteq> registered n old new"
  unfolding unregistered_pairs registered_pairs associations_def essences_split [OF assms]
    essences_split [OF assms(3,4,1,2)]
  using added_hashes(1) [of "re_Routes new" "re_Routes old" n] added_hashes(2) [of n "re_Routes old" "re_Routes new"]
  by auto

subsection \<open>Routers\<close>

type_synonym router = "RoutingKey \<Rightarrow> association set"

definition deliver :: "(message \<Rightarrow> message option) \<Rightarrow> change \<Rightarrow> router \<Rightarrow> router" where
  "deliver normalise = (\<lambda>(key, old, new) R.
     R(key := (R key - unregistered normalise old new) \<union> registered normalise old new))"

definition router_of :: "entry_map \<Rightarrow> router" where
  "router_of entries = (\<lambda>key. associations (entry_at entries key))"

definition entries_ok :: "entry_map \<Rightarrow> bool" where
  "entries_ok entries \<longleftrightarrow> distinct (map fst entries) \<and> list_all (\<lambda>(k, entry). keyed (re_Endpoints entry)) entries"

definition agreeing_changes :: "change list \<Rightarrow> bool" where
  "agreeing_changes changes \<longleftrightarrow>
     list_all (\<lambda>(key, old, new). agreeing (re_Endpoints old) \<and> agreeing (re_Endpoints new)) changes"

text \<open>The entries and the changes so far, when the operation has started with router \<open>R\<close>.\<close>

definition steps_ok :: "(message \<Rightarrow> message option) \<Rightarrow> router \<Rightarrow> entry_map \<times> change list \<Rightarrow> bool" where
  "steps_ok normalise R = (\<lambda>(entries, changes). entries_ok entries
     \<and> (agreeing_changes changes \<longrightarrow> fold (deliver normalise) changes R = router_of entries))"

lemma deliver_exact:
  assumes "keyed (re_Endpoints old)" "agreeing (re_Endpoints old)" "keyed (re_Endpoints new)" "agreeing (re_Endpoints new)"
    and "R key = associations old"
  shows "deliver n (key, old, new) R = R(key := associations new)"
  using diff_exact [OF assms(1-4), of n] assms(5) unfolding deliver_def by (auto simp: fun_eq_iff)

lemma entry_at_update: "entry_at (AList.update k v es) k' = (if k' = k then v else entry_at es k')"
  by (simp add: entry_at_def)

lemma entry_at_delete: "entry_at (AList.delete k es) k' = (if k' = k then no_entry else entry_at es k')"
  by (simp add: entry_at_def)

lemma keyed_Nil [simp]: "keyed []"
  by (simp add: keyed_def)

lemma entry_at_keyed: "entries_ok es \<Longrightarrow> keyed (re_Endpoints (entry_at es k))"
  unfolding entries_ok_def entry_at_def
  by (auto simp: no_entry_def list_all_iff split: option.splits dest!: map_of_SomeD)

lemma entries_ok_update:
  assumes "entries_ok es" and "keyed (re_Endpoints v)"
  shows "entries_ok (AList.update k v es)"
  using assms set_update_subset [of k v es]
  by (auto simp: entries_ok_def distinct_update list_all_iff)

lemma entries_ok_delete: "entries_ok es \<Longrightarrow> entries_ok (AList.delete k es)"
  by (auto simp: entries_ok_def list_all_iff AList.delete_eq distinct_map_filter)

lemma delete_if_empty:
  shows "router_of (deleteEntryIfEmpty k es) = router_of es"
    and "entries_ok es \<Longrightarrow> entries_ok (deleteEntryIfEmpty k es)"
proof -
  show "router_of (deleteEntryIfEmpty k es) = router_of es"
    by (auto simp: router_of_def deleteEntryIfEmpty_def entry_at_delete associations_def no_entry_def Let_def fun_eq_iff)
  show "entries_ok es \<Longrightarrow> entries_ok (deleteEntryIfEmpty k es)"
    by (simp add: deleteEntryIfEmpty_def entries_ok_delete Let_def)
qed

lemma router_update: "router_of (AList.update k v es) = (router_of es)(k := associations v)"
  by (auto simp: router_of_def entry_at_update fun_eq_iff)

lemma steps_ok_snoc:
  assumes "steps_ok n R (es, cs)" and "entries_ok es'" and "keyed (re_Endpoints new)"
    and "router_of es' = (router_of es)(key := associations new)"
  shows "steps_ok n R (es', cs @ [(key, entry_at es key, new)])"
proof -
  have ok: "entries_ok es" using assms(1) by (simp add: steps_ok_def)
  have "fold (deliver n) (cs @ [(key, entry_at es key, new)]) R = router_of es'"
    if "agreeing_changes (cs @ [(key, entry_at es key, new)])"
  proof -
    from that have agr: "agreeing_changes cs" "agreeing (re_Endpoints (entry_at es key))" "agreeing (re_Endpoints new)"
      by (simp_all add: agreeing_changes_def)
    have "fold (deliver n) cs R = router_of es" using assms(1) agr(1) by (simp add: steps_ok_def)
    moreover have "router_of es key = associations (entry_at es key)" by (simp add: router_of_def)
    ultimately show ?thesis
      using deliver_exact [OF entry_at_keyed [OF ok] agr(2) assms(3) agr(3), of "router_of es" key n] assms(4) by simp
  qed
  with assms(2) show ?thesis by (simp add: steps_ok_def)
qed

lemma keyed_update: "keyed es \<Longrightarrow> keyed (AList.update (endpoint_key e) e es)"
  using set_update_subset [of "endpoint_key e" e es] by (auto simp: keyed_def distinct_update list_all_iff)

lemma keyed_delete: "keyed es \<Longrightarrow> keyed (AList.delete k es)"
  by (auto simp: keyed_def list_all_iff AList.delete_eq distinct_map_filter)

lemma keyed_filter: "keyed es \<Longrightarrow> keyed (filter P es)"
  by (auto simp: keyed_def list_all_iff distinct_map_filter)

subsection \<open>Lemmas: the operations\<close>

text \<open>A change that writes one entry.\<close>

lemma steps_ok_write:
  assumes "steps_ok n R (es, cs)" and "keyed (re_Endpoints new)"
  shows "steps_ok n R (AList.update key new es, cs @ [(key, entry_at es key, new)])"
    and "steps_ok n R (deleteEntryIfEmpty key (AList.update key new es), cs @ [(key, entry_at es key, new)])"
proof -
  have "entries_ok es" using assms(1) by (simp add: steps_ok_def)
  then have ok: "entries_ok (AList.update key new es)" using assms(2) by (rule entries_ok_update)
  show "steps_ok n R (AList.update key new es, cs @ [(key, entry_at es key, new)])"
    by (rule steps_ok_snoc [OF assms(1) ok assms(2) router_update])
  show "steps_ok n R (deleteEntryIfEmpty key (AList.update key new es), cs @ [(key, entry_at es key, new)])"
    by (rule steps_ok_snoc [OF assms(1) delete_if_empty(2) [OF ok] assms(2)])
      (simp only: delete_if_empty(1) router_update)
qed

lemma steps_ok_entry: "steps_ok n R (es, cs) \<Longrightarrow> keyed (re_Endpoints (entry_at es key))"
  by (simp add: steps_ok_def entry_at_keyed)

lemma steps_ok_add: "steps_ok n R (es, cs) \<Longrightarrow> steps_ok n R (add_endpoint lrp e (es, cs))"
proof -
  assume ok: "steps_ok n R (es, cs)"
  note k = keyed_update [OF steps_ok_entry [OF ok, of "routing_key lrp e"], of e]
  show ?thesis
    using ok k unfolding add_endpoint_def Let_def prod.case
    by (auto intro!: steps_ok_write(1) split: option.splits)
qed

lemma steps_ok_remove: "steps_ok n R (es, cs) \<Longrightarrow> steps_ok n R (remove_endpoint lrp e (es, cs))"
proof -
  assume ok: "steps_ok n R (es, cs)"
  note k = keyed_delete [OF steps_ok_entry [OF ok, of "routing_key lrp e"], of "endpoint_key e"]
  show ?thesis
    using ok k unfolding remove_endpoint_def Let_def prod.case
    by (auto intro!: steps_ok_write(2) split: option.splits)
qed

lemma steps_ok_set: "steps_ok n R (es, cs) \<Longrightarrow> steps_ok n R (set_routes before after kr (es, cs))"
proof -
  assume ok: "steps_ok n R (es, cs)"
  obtain key routes where kr: "kr = (key, routes)" by (cases kr)
  note k = steps_ok_entry [OF ok, of key]
  show ?thesis
    using ok k unfolding set_routes_def Let_def kr prod.case
    by (auto simp: keyed_filter intro!: steps_ok_write(1) split: option.splits)
qed

lemma steps_ok_remove_routes: "steps_ok n R (es, cs) \<Longrightarrow> steps_ok n R (remove_routes before after key (es, cs))"
proof -
  assume ok: "steps_ok n R (es, cs)"
  note k = steps_ok_entry [OF ok, of key]
  show ?thesis
    using ok k unfolding remove_routes_def Let_def prod.case
    by (auto intro!: steps_ok_write(2) split: option.splits)
qed

lemma steps_ok_fold:
  assumes "\<And>x es cs. steps_ok n R (es, cs) \<Longrightarrow> steps_ok n R (f x (es, cs))" and "steps_ok n R ec"
  shows "steps_ok n R (fold f xs ec)"
  using assms(2)
proof (induction xs arbitrary: ec)
  case (Cons x xs)
  then show ?case using assms(1) [of "fst ec" "snd ec" x] by simp
qed simp

lemma steps_ok_start: "entries_ok es \<Longrightarrow> steps_ok n (router_of es) (es, [])"
  by (simp add: steps_ok_def)

lemma addresses_entries [simp]:
  "it_entries (fold record_address es t) = it_entries t" "it_entries (fold remove_address es t) = it_entries t"
proof -
  have "it_entries (record_address e t) = it_entries t" "it_entries (remove_address e t) = it_entries t" for e t
    by (auto simp: record_address_def remove_address_def Let_def split: option.splits)
  then show "it_entries (fold record_address es t) = it_entries t" "it_entries (fold remove_address es t) = it_entries t"
    by (induction es arbitrary: t) simp_all
qed

lemma AddEndpoint_steps:
  assumes "entries_ok (it_entries t)" and "table_AddEndpoint lrp t = (t', cs)"
  shows "steps_ok n (router_of (it_entries t)) (it_entries t', cs)"
proof -
  have "(it_entries t', cs) = fold (add_endpoint lrp) (it_endpointGenerator t lrp) (it_entries t, [])"
    using assms(2) by (auto simp: table_AddEndpoint_def Let_def split_beta split: if_splits)
  then show ?thesis using steps_ok_fold [where f = "add_endpoint lrp", OF steps_ok_add steps_ok_start [OF assms(1)]] by simp
qed

lemma RemoveEndpoint_steps:
  assumes "entries_ok (it_entries t)" and "table_RemoveEndpoint lrp t = (t', cs)"
  shows "steps_ok n (router_of (it_entries t)) (it_entries t', cs)"
proof -
  have "(it_entries t', cs) = fold (remove_endpoint lrp) (it_endpointGenerator t lrp) (it_entries t, [])"
    using assms(2) by (auto simp: table_RemoveEndpoint_def Let_def split_beta split: if_splits)
  then show ?thesis using steps_ok_fold [where f = "remove_endpoint lrp", OF steps_ok_remove steps_ok_start [OF assms(1)]] by simp
qed

lemma SetRoutes_steps:
  assumes "entries_ok (it_entries t)" and "table_SetRoutes before after t = (t', cs)"
  shows "steps_ok n (router_of (it_entries t)) (it_entries t', cs)"
proof -
  let ?new = "it_routesGenerator t after" and ?ec = "(it_entries t, [] :: change list)"
  define ec where "ec = (case after of None \<Rightarrow> ?ec | Some a \<Rightarrow> fold (set_routes before a) ?new ?ec)"
  have s: "steps_ok n (router_of (it_entries t)) ec"
    using steps_ok_start [OF assms(1), of n]
      steps_ok_fold [where f = "set_routes before (the after)", OF steps_ok_set steps_ok_start [OF assms(1)]]
    by (auto simp: ec_def split: option.splits)
  have "(it_entries t', cs) = (case before of None \<Rightarrow> ec
      | Some b \<Rightarrow> fold (remove_routes b after) (filter (\<lambda>k. map_of ?new k = None) (map fst (it_routesGenerator t before))) ec)"
    using assms(2) unfolding table_SetRoutes_def Let_def ec_def [symmetric] split_beta by auto
  with s steps_ok_fold [where f = "remove_routes (the before) after", OF steps_ok_remove_routes s]
  show ?thesis by (auto split: option.splits)
qed

text \<open>Half way through a swap: the keys in \<open>done\<close> have their final entry.\<close>

definition swapped ::
  "(message \<Rightarrow> message option) \<Rightarrow> entry_map \<Rightarrow> entry_map \<Rightarrow> RoutingKey set \<Rightarrow> entry_map \<times> change list \<Rightarrow> bool" where
  "swapped n existing new finished = (\<lambda>(others, cs). entries_ok others
     \<and> (\<forall>k. k \<notin> finished \<longrightarrow> router_of others k = router_of new k)
     \<and> (agreeing_changes cs \<longrightarrow> fold (deliver n) cs (router_of existing) =
          (\<lambda>k. if k \<in> finished then router_of others k else router_of existing k)))"

lemma merged_endpoints: "re_Endpoints (mergeUnfreshRoutes before after domains) = re_Endpoints after"
  by (simp add: mergeUnfreshRoutes_def Let_def)

lemma swap_key_swapped:
  assumes s: "swapped n existing new finished (others, cs)" and ok: "entries_ok existing" and "key \<notin> finished"
  shows "swapped n existing new (insert key finished) (swap_key existing domains key (others, cs))"
proof -
  let ?old = "entry_at existing key" and ?new = "entry_at others key"
  let ?merged = "mergeUnfreshRoutes ?old ?new domains"
  have oth: "entries_ok others" using s by (simp add: swapped_def)
  have deliver: "fold (deliver n) (cs @ [(key, ?old, v)]) (router_of existing) =
      (\<lambda>k. if k \<in> finished then router_of others k else router_of existing k)(key := associations v)"
    if agr: "agreeing_changes (cs @ [(key, ?old, v)])" and v: "re_Endpoints v = re_Endpoints ?new" for v
  proof -
    let ?R = "\<lambda>k. if k \<in> finished then router_of others k else router_of existing k"
    have "fold (deliver n) cs (router_of existing) = ?R"
      using s agr by (simp add: swapped_def agreeing_changes_def)
    moreover have "?R key = associations ?old" using assms(3) by (simp add: router_of_def)
    moreover have "keyed (re_Endpoints v)" unfolding v by (rule entry_at_keyed [OF oth])
    ultimately show ?thesis
      using deliver_exact [OF entry_at_keyed [OF ok] _ \<open>keyed (re_Endpoints v)\<close>, of key ?R key n] agr
      by (simp add: agreeing_changes_def)
  qed
  show ?thesis
  proof (cases "map_of existing key")
    case None
    then have "?old = no_entry" by (simp add: entry_at_def)
    with None have sw: "swap_key existing domains key (others, cs) = (others, cs @ [(key, ?old, ?new)])"
      by (simp add: swap_key_def)
    show ?thesis unfolding sw using deliver [of ?new] s by (auto simp: swapped_def router_of_def fun_eq_iff)
  next
    case (Some old)
    let ?es = "deleteEntryIfEmpty key (AList.update key ?merged others)"
    from Some have "?old = old" by (simp add: entry_at_def)
    with Some have sw: "swap_key existing domains key (others, cs) = (?es, cs @ [(key, ?old, ?merged)])"
      by (simp add: swap_key_def Let_def)
    have "entries_ok ?es"
      by (intro delete_if_empty(2) entries_ok_update oth) (simp add: merged_endpoints entry_at_keyed oth)
    moreover have "router_of ?es = (router_of others)(key := associations ?merged)"
      by (simp add: delete_if_empty(1) router_update)
    ultimately show ?thesis
      unfolding sw using deliver [of ?merged] s by (auto simp: swapped_def merged_endpoints fun_eq_iff)
  qed
qed

lemma swap_keys_swapped:
  assumes "entries_ok existing" and "distinct keys" and "set keys \<inter> finished = {}" and "swapped n existing new finished ec"
  shows "swapped n existing new (set keys \<union> finished) (fold (swap_key existing domains) keys ec)"
  using assms(2-)
proof (induction keys arbitrary: finished ec)
  case (Cons key keys)
  have "swapped n existing new (insert key finished) (swap_key existing domains key ec)"
    using swap_key_swapped [OF _ assms(1), of n new finished "fst ec" "snd ec" key domains] Cons.prems by simp
  from Cons.IH [OF _ _ this] Cons.prems show ?case by simp
qed simp

lemma Swap_steps:
  assumes "entries_ok (it_entries t)" and "entries_ok (it_entries other)" and "table_Swap other domains t = (t', cs)"
  shows "steps_ok n (router_of (it_entries t)) (it_entries t', cs)"
proof -
  let ?keys = "map fst (it_entries other) @ filter (\<lambda>k. k \<notin> set (map fst (it_entries other))) (map fst (it_entries t))"
  have d: "distinct ?keys" using assms(1,2) by (auto simp: entries_ok_def)
  have "swapped n (it_entries t) (it_entries other) {} (it_entries other, [])"
    using assms(2) by (simp add: swapped_def)
  from swap_keys_swapped [OF assms(1) d _ this] have
    sw: "swapped n (it_entries t) (it_entries other) (set ?keys) (fold (swap_key (it_entries t) domains) ?keys (it_entries other, []))"
    by simp
  have res: "fold (swap_key (it_entries t) domains) ?keys (it_entries other, []) = (it_entries t', cs)"
    using assms(3) by (auto simp: table_Swap_def Let_def split_beta)
  have none: "router_of es k = {}" if "k \<notin> set (map fst es)" for k es
  proof -
    have "map_of es k = None" using that by (simp add: map_of_eq_None_iff)
    then show ?thesis by (simp add: router_of_def entry_at_def no_entry_def associations_def)
  qed
  have "router_of (it_entries t) k = router_of (it_entries t') k" if "k \<notin> set ?keys" for k
  proof -
    have "router_of (it_entries t') k = router_of (it_entries other) k" using sw that unfolding res swapped_def prod.case by blast
    then show ?thesis using none [of k "it_entries other"] none [of k "it_entries t"] that by auto
  qed
  then have "(\<lambda>k. if k \<in> set ?keys then router_of (it_entries t') k else router_of (it_entries t) k) = router_of (it_entries t')"
    by (auto simp only: fun_eq_iff split: if_split)
  with sw show ?thesis unfolding res by (simp only: swapped_def steps_ok_def prod.case) blast
qed

subsection \<open>Sequences of operations\<close>

datatype table_op =
    OpAddEndpoint RoutedLRP
  | OpRemoveEndpoint RoutedLRP
  | OpSetRoutes "RoutedDesiredLRP option" "RoutedDesiredLRP option"
  | OpSwap internalRoutingTable "string list"

fun run_op :: "table_op \<Rightarrow> internalRoutingTable \<Rightarrow> internalRoutingTable \<times> change list" where
  "run_op (OpAddEndpoint lrp) t = table_AddEndpoint lrp t"
| "run_op (OpRemoveEndpoint lrp) t = table_RemoveEndpoint lrp t"
| "run_op (OpSetRoutes before after) t = table_SetRoutes before after t"
| "run_op (OpSwap other domains) t = table_Swap other domains t"

fun run_ops :: "table_op list \<Rightarrow> internalRoutingTable \<Rightarrow> internalRoutingTable \<times> change list" where
  "run_ops [] t = (t, [])"
| "run_ops (op # ops) t =
     (let (t, cs) = run_op op t; (t, cs') = run_ops ops t in (t, cs @ cs'))"

fun op_ok :: "table_op \<Rightarrow> bool" where
  "op_ok (OpSwap other domains) = entries_ok (it_entries other)"
| "op_ok op = True"

lemma run_op_steps:
  assumes "entries_ok (it_entries t)" and "op_ok op" and "run_op op t = (t', cs)"
  shows "steps_ok n (router_of (it_entries t)) (it_entries t', cs)"
  using assms AddEndpoint_steps RemoveEndpoint_steps SetRoutes_steps Swap_steps by (cases op) simp_all

lemma run_ops_steps:
  assumes "entries_ok (it_entries t)" and "list_all op_ok ops" and "run_ops ops t = (t', cs)"
  shows "steps_ok n (router_of (it_entries t)) (it_entries t', cs)"
  using assms
proof (induction ops arbitrary: t t' cs)
  case Nil
  then show ?case by (simp add: steps_ok_start)
next
  case (Cons op ops)
  obtain t1 cs1 where r1: "run_op op t = (t1, cs1)" by fastforce
  obtain t2 cs2 where r2: "run_ops ops t1 = (t2, cs2)" by fastforce
  have eq: "t' = t2" "cs = cs1 @ cs2" using Cons.prems(3) by (auto simp: r1 r2)
  have s1: "steps_ok n (router_of (it_entries t)) (it_entries t1, cs1)"
    by (rule run_op_steps [OF Cons.prems(1) _ r1]) (use Cons.prems(2) in simp)
  have s2: "steps_ok n (router_of (it_entries t1)) (it_entries t2, cs2)"
    by (rule Cons.IH [OF _ _ r2]) (use s1 Cons.prems(2) in \<open>simp_all add: steps_ok_def\<close>)
  show ?case using s1 s2 by (simp add: eq steps_ok_def agreeing_changes_def)
qed

subsection \<open>Properties\<close>

text \<open>
  C8. The messages of a routing table lead a router to what the table holds. Start with an empty
  table and a router that knows nothing, and run any sequence of operations: adding and removing
  endpoints, setting and removing routes, and swapping in other tables. If no instance is known
  under two different addresses at once, then the router that has applied, in order, the
  registrations and unregistrations of every change holds exactly the associations between routes
  and endpoints of the final table.
\<close>

theorem routing_table_refines_router:
  assumes "it_entries t = []" and "list_all op_ok ops" and "run_ops ops t = (t', changes)"
    and "agreeing_changes changes"
  shows "fold (deliver normalise) changes (\<lambda>key. {}) = router_of (it_entries t') \<and> entries_ok (it_entries t')"
proof -
  have "entries_ok (it_entries t)" by (simp add: assms(1) entries_ok_def)
  from run_ops_steps [OF this assms(2,3), of normalise] assms(4) show ?thesis
    by (simp add: steps_ok_def router_of_def assms(1) entry_at_def no_entry_def associations_def)
qed

end
