(* ===== verification/Route_Properties.thy ===== *)
theory Route_Properties
  imports Route_Refinement
begin

section \<open>Properties of the routing tables\<close>

text \<open>
  What the tables guarantee beyond the refinement: how a swap treats domains that are not fresh, and
  that late events change nothing.
\<close>

subsection \<open>An example\<close>

definition demo_tag :: "int \<Rightarrow> ModificationTag" where
  "demo_tag i = \<lparr>mod_Epoch = ''e'', mod_Index = i\<rparr>"

definition demo_routed :: "string list \<Rightarrow> int \<Rightarrow> RoutedDesiredLRP" where
  "demo_routed hosts i = \<lparr>dr_ProcessGuid = ''app'', dr_Domain = ''cf-apps'', dr_LogGuid = ''log'', dr_Instances = 2,
     dr_MetricTags = [], dr_Routes = Some \<lparr>ro_cf = [\<lparr>cr_Hostnames = hosts, cr_Port = 8080, cr_RouteServiceUrl = [],
       cr_IsolationSegment = [], cr_Protocol = [], cr_Options = []\<rparr>], ro_tcp = [], ro_internal = []\<rparr>,
     dr_ModificationTag = demo_tag i\<rparr>"

definition demo_actual :: "presence \<Rightarrow> int \<Rightarrow> RoutedLRP" where
  "demo_actual p i = \<lparr>al_Key = NewActualLRPKey ''app'' 0 ''cf-apps'',
     al_InstanceKey = \<lparr>ikey_InstanceGuid = ''i0'', ikey_CellId = ''cell''\<rparr>, al_Presence = p,
     al_Address = ''10.0.0.1'', al_InstanceAddress = ''10.255.0.1'', al_InstanceIpv6Address = [],
     al_PreferredAddress = PreferredAddressHost,
     al_Ports = [Some \<lparr>pm_ContainerPort = 8080, pm_HostPort = 61000, pm_ContainerTLSProxyPort = 0, pm_HostTLSProxyPort = 0\<rparr>],
     al_State = ActualLRPStateRunning, al_Since = 5, al_ModificationTag = demo_tag i, al_Routable = None,
     al_AvailabilityZone = ''z1''\<rparr>"

definition demo_table :: internalRoutingTable where
  "demo_table = rt_http (NewRoutingTable False False)"

definition demo_ops :: "table_op list" where
  "demo_ops = [OpSetRoutes None (Some (demo_routed [''a'', ''b''] 1)), OpAddEndpoint (demo_actual ActualLRP_Ordinary 1),
     OpAddEndpoint (demo_actual ActualLRP_Evacuating 2), OpRemoveEndpoint (demo_actual ActualLRP_Ordinary 3),
     OpSetRoutes (Some (demo_routed [''a'', ''b''] 1)) (Some (demo_routed [''b''] 2))]"

definition demo_key :: RoutingKey where
  "demo_key = \<lparr>rk_ProcessGUID = ''app'', rk_ContainerPort = 8080\<rparr>"

theorem routing_table_refines_router_witness:
  "it_entries demo_table = [] \<and> agreeing_changes (snd (run_ops demo_ops demo_table))
   \<and> length (snd (run_ops demo_ops demo_table)) = 5
   \<and> fold (deliver Some) (snd (run_ops demo_ops demo_table)) (\<lambda>key. {})
       = router_of (it_entries (fst (run_ops demo_ops demo_table)))"
proof -
  have empty: "it_entries demo_table = []" by (simp add: demo_table_def NewRoutingTable_def new_table_def)
  have len: "length (snd (run_ops demo_ops demo_table)) = 5" by code_simp
  have agr: "agreeing_changes (snd (run_ops demo_ops demo_table))" by code_simp
  have ops: "list_all op_ok demo_ops" by (simp add: demo_ops_def)
  from routing_table_refines_router [OF empty ops _ agr, of "fst (run_ops demo_ops demo_table)" Some] empty len agr
  show ?thesis by simp
qed

subsection \<open>Swapping tables\<close>

definition merged_entry :: "RoutableEndpoints option \<Rightarrow> RoutableEndpoints \<Rightarrow> string list \<Rightarrow> RoutableEndpoints" where
  "merged_entry old new domains =
     (case old of
        None \<Rightarrow> new
      | Some old \<Rightarrow>
          let m = mergeUnfreshRoutes old new domains
          in if re_Endpoints m = [] \<and> re_Routes m = [] then no_entry else m)"

lemma swap_key_entry:
  "entry_at (fst (swap_key existing domains key (others, cs))) k =
     (if k = key then merged_entry (map_of existing key) (entry_at others key) domains else entry_at others k)"
  by (auto simp: swap_key_def merged_entry_def Let_def deleteEntryIfEmpty_def entry_at_update entry_at_delete
      split: option.splits)

lemma swap_keys_entry:
  "distinct keys \<Longrightarrow> entry_at (fst (fold (swap_key existing domains) keys (others, cs))) k =
     (if k \<in> set keys then merged_entry (map_of existing k) (entry_at others k) domains else entry_at others k)"
proof (induction keys arbitrary: others cs)
  case (Cons key keys)
  obtain others' cs' where s: "swap_key existing domains key (others, cs) = (others', cs')" by fastforce
  have "entry_at others' k = (if k = key then merged_entry (map_of existing key) (entry_at others key) domains
      else entry_at others k)" for k
    using swap_key_entry [of existing domains key others cs k] by (simp add: s)
  with Cons.IH [of others' cs'] Cons.prems show ?case by (simp add: s)
qed simp

lemma Swap_entry:
  assumes "entries_ok (it_entries t)" and "entries_ok (it_entries other)"
  shows "entry_at (it_entries (fst (table_Swap other domains t))) key =
    merged_entry (map_of (it_entries t) key) (entry_at (it_entries other) key) domains"
proof -
  let ?keys = "map fst (it_entries other) @ filter (\<lambda>k. k \<notin> set (map fst (it_entries other))) (map fst (it_entries t))"
  have d: "distinct ?keys" using assms by (auto simp: entries_ok_def)
  have f: "it_entries (fst (table_Swap other domains t))
      = fst (fold (swap_key (it_entries t) domains) ?keys (it_entries other, []))"
    by (simp add: table_Swap_def Let_def split_beta)
  have "map_of (it_entries t) key = None" if "key \<notin> set ?keys"
    using that by (auto simp: map_of_eq_None_iff)
  then show ?thesis
    unfolding f swap_keys_entry [OF d] by (auto simp: merged_entry_def)
qed

lemma image_append_new:
  "h ` set (xs @ filter (\<lambda>y. \<not> (\<exists>x \<in> set xs. h x = h y)) ys) = h ` set xs \<union> h ` set ys"
proof -
  have "h ` set ys \<subseteq> h ` set xs \<union> h ` set (filter (\<lambda>y. \<not> (\<exists>x \<in> set xs. h x = h y)) ys)"
  proof
    fix z assume "z \<in> h ` set ys"
    then obtain y where y: "z = h y" "y \<in> set ys" by blast
    show "z \<in> h ` set xs \<union> h ` set (filter (\<lambda>y. \<not> (\<exists>x \<in> set xs. h x = h y)) ys)"
    proof (cases "\<exists>x \<in> set xs. h x = h y")
      case True
      then obtain x where "x \<in> set xs" "z = h x" using y(1) by auto
      then show ?thesis by blast
    next
      case False
      with y(2) have "y \<in> set (filter (\<lambda>y. \<not> (\<exists>x \<in> set xs. h x = h y)) ys)" by simp
      then show ?thesis unfolding y(1) by (intro UnI2 imageI)
    qed
  qed
  moreover have "h ` set (filter P ys) \<subseteq> h ` set ys" for P by auto
  ultimately show ?thesis unfolding set_append image_Un by blast
qed

lemma Swap_entries:
  assumes "entries_ok (it_entries t)" and "entries_ok (it_entries other)"
  shows "router_of (it_entries (fst (table_Swap other domains t))) key =
     (case map_of (it_entries t) key of None \<Rightarrow> router_of (it_entries other) key
      | Some old \<Rightarrow> associations (mergeUnfreshRoutes old (entry_at (it_entries other) key) domains))"
  unfolding router_of_def Swap_entry [OF assms]
  by (auto simp: merged_entry_def Let_def associations_def no_entry_def split: option.splits)

lemma Swap_keeps_lemma:
  assumes "entries_ok (it_entries t)" and "entries_ok (it_entries other)"
  shows "router_of (it_entries (fst (table_Swap other domains t))) key =
    (Hash ` set (re_Routes (entry_at (it_entries other) key)) \<union>
       (if re_Domain (entry_at (it_entries t) key) \<notin> set domains
        then Hash ` set (re_Routes (entry_at (it_entries t) key)) else {}))
    \<times> essence ` snd ` set (re_Endpoints (entry_at (it_entries other) key))"
proof (cases "map_of (it_entries t) key")
  case None
  then have "entry_at (it_entries t) key = no_entry" by (simp add: entry_at_def)
  then show ?thesis
    using Swap_entries [OF assms, of domains key] None
    by (simp add: router_of_def associations_def) (simp add: no_entry_def)
next
  case (Some old)
  then have old: "entry_at (it_entries t) key = old" by (simp add: entry_at_def)
  show ?thesis
    using image_append_new [of Hash "re_Routes (entry_at (it_entries other) key)" "re_Routes old"]
    by (simp add: Swap_entries [OF assms] Some old associations_def mergeUnfreshRoutes_def Let_def)
qed



text \<open>
  C36. When the entry under a key has no domain, because endpoints were known there before any
  routes, a swap that brings routes of a fresh domain does not record their domain. The next
  swap takes the entry for one of an unfresh domain: routes that the new state of the bbs no longer
  has stay registered, although their domain is fresh.
\<close>

theorem Swap_loses_domain:
  assumes "entries_ok (it_entries t)" and "entries_ok (it_entries t2)" and "entries_ok (it_entries t3)"
    and "map_of (it_entries t) key = Some old" and "re_Domain old = []" and "[] \<notin> set domains"
    and "re_Domain (entry_at (it_entries t2) key) \<in> set domains"
    and "re_Routes (entry_at (it_entries t2) key) \<noteq> []"
    and "re_Routes (entry_at (it_entries t3) key) = []"
  shows "Hash ` set (re_Routes (entry_at (it_entries t2) key)) \<times> essence ` snd ` set (re_Endpoints (entry_at (it_entries t3) key))
    \<subseteq> router_of (it_entries (fst (table_Swap t3 domains (fst (table_Swap t2 domains t))))) key"
proof -
  let ?t = "fst (table_Swap t2 domains t)" and ?new = "entry_at (it_entries t2) key"
  let ?merged = "mergeUnfreshRoutes old ?new domains"
  have ok: "entries_ok (it_entries ?t)"
    using Swap_steps [OF assms(1,2), of domains ?t "snd (table_Swap t2 domains t)" Some] by (simp add: steps_ok_def)
  have routes: "set (re_Routes ?new) \<subseteq> set (re_Routes ?merged)" and dom: "re_Domain ?merged = []"
    using assms(5) by (auto simp: mergeUnfreshRoutes_def Let_def)
  then have "re_Routes ?merged \<noteq> []" using assms(8) by auto
  then have entry: "entry_at (it_entries ?t) key = ?merged"
    by (simp add: Swap_entry [OF assms(1,2)] merged_entry_def assms(4))
  show ?thesis
    using Swap_keeps_lemma [OF ok assms(3), of domains key] routes assms(6) by (auto simp: entry dom)
qed

theorem Swap_loses_domain_witness:
  "let t = fst (run_ops [OpAddEndpoint (demo_actual ActualLRP_Ordinary 1)] demo_table);
       t2 = fst (run_ops [OpSetRoutes None (Some (demo_routed [''a''] 1)), OpAddEndpoint (demo_actual ActualLRP_Ordinary 1)] demo_table)
   in Hash ` set (re_Routes (entry_at (it_entries t2) demo_key)) \<times> essence ` snd ` set (re_Endpoints (entry_at (it_entries t) demo_key))
        \<subseteq> router_of (it_entries (fst (table_Swap t [''cf-apps''] (fst (table_Swap t2 [''cf-apps''] t))))) demo_key
    \<and> re_Routes (entry_at (it_entries t2) demo_key) \<noteq> [] \<and> re_Endpoints (entry_at (it_entries t) demo_key) \<noteq> []"
proof -
  let ?t = "fst (run_ops [OpAddEndpoint (demo_actual ActualLRP_Ordinary 1)] demo_table)"
  let ?t2 = "fst (run_ops [OpSetRoutes None (Some (demo_routed [''a''] 1)), OpAddEndpoint (demo_actual ActualLRP_Ordinary 1)] demo_table)"
  have ok: "entries_ok (it_entries ?t)" "entries_ok (it_entries ?t2)" by code_simp+
  have facts: "map_of (it_entries ?t) demo_key \<noteq> None" "re_Domain (entry_at (it_entries ?t) demo_key) = []"
    "re_Domain (entry_at (it_entries ?t2) demo_key) = ''cf-apps''"
    "re_Routes (entry_at (it_entries ?t2) demo_key) \<noteq> []" "re_Routes (entry_at (it_entries ?t) demo_key) = []"
    "re_Endpoints (entry_at (it_entries ?t) demo_key) \<noteq> []"
    by code_simp+
  then obtain old where old: "map_of (it_entries ?t) demo_key = Some old" "re_Domain old = []"
    by (auto simp: entry_at_def)
  show ?thesis
    using Swap_loses_domain [OF ok(1,2,1) old, of "[''cf-apps'']"] facts unfolding Let_def by simp
qed

subsection \<open>Late events\<close>

text \<open>A tag of the same epoch that is not older, and one that is newer.\<close>

definition holds :: "ModificationTag \<Rightarrow> ModificationTag \<Rightarrow> bool" where
  "holds current tag \<longleftrightarrow> mod_Epoch current \<noteq> [] \<and> mod_Epoch tag = mod_Epoch current \<and> mod_Index tag \<le> mod_Index current"

definition outdates :: "ModificationTag \<Rightarrow> ModificationTag \<Rightarrow> bool" where
  "outdates current tag \<longleftrightarrow> holds current tag \<and> mod_Index tag < mod_Index current"

lemma holds_SucceededBy: "holds current tag \<Longrightarrow> \<not> SucceededBy (Some current) tag"
  by (auto simp: holds_def)

lemma outdates_tag: "outdates current tag \<Longrightarrow> \<not> SucceededBy (Some current) tag \<and> \<not> tag_Equal (Some current) tag"
  by (auto simp: outdates_def holds_def tag_Equal_def)

definition endpoint_known :: "(ModificationTag \<Rightarrow> ModificationTag \<Rightarrow> bool) \<Rightarrow> RoutedLRP \<Rightarrow> internalRoutingTable \<Rightarrow> bool" where
  "endpoint_known newer lrp t \<longleftrightarrow> list_all (\<lambda>e.
     case map_of (re_Endpoints (entry_at (it_entries t) (routing_key lrp e))) (endpoint_key e) of
       None \<Rightarrow> False
     | Some current \<Rightarrow> newer (en_ModificationTag current) (en_ModificationTag e)) (it_endpointGenerator t lrp)"

definition routes_known ::
  "(ModificationTag \<Rightarrow> ModificationTag \<Rightarrow> bool) \<Rightarrow> (RoutingKey \<times> routeMapping list) list \<Rightarrow> ModificationTag
   \<Rightarrow> internalRoutingTable \<Rightarrow> bool" where
  "routes_known newer routes tag t \<longleftrightarrow> list_all (\<lambda>(key, rs).
     case re_ModificationTag (entry_at (it_entries t) key) of None \<Rightarrow> False | Some m \<Rightarrow> newer m tag) routes"

lemma fold_same: "(\<And>x. x \<in> set xs \<Longrightarrow> f x s = s) \<Longrightarrow> fold f xs s = s"
  by (induction xs) auto

lemma late_add:
  assumes "endpoint_known holds lrp t"
  shows "it_entries (fst (table_AddEndpoint lrp t)) = it_entries t \<and> snd (table_AddEndpoint lrp t) = []"
proof -
  have "add_endpoint lrp e (it_entries t, []) = (it_entries t, [])" if "e \<in> set (it_endpointGenerator t lrp)" for e
    using assms that unfolding endpoint_known_def list_all_iff
    by (auto simp: add_endpoint_def Let_def simp del: SucceededBy.simps dest!: bspec holds_SucceededBy
        split: option.splits)
  then have "fold (add_endpoint lrp) (it_endpointGenerator t lrp) (it_entries t, []) = (it_entries t, [])"
    by (rule fold_same)
  then show ?thesis by (simp add: table_AddEndpoint_def Let_def split_beta)
qed

lemma late_remove:
  assumes "endpoint_known outdates lrp t"
  shows "it_entries (fst (table_RemoveEndpoint lrp t)) = it_entries t \<and> snd (table_RemoveEndpoint lrp t) = []"
proof -
  have "remove_endpoint lrp e (it_entries t, []) = (it_entries t, [])" if "e \<in> set (it_endpointGenerator t lrp)" for e
    using assms that unfolding endpoint_known_def list_all_iff
    by (auto simp: remove_endpoint_def Let_def simp del: SucceededBy.simps dest!: bspec outdates_tag
        split: option.splits)
  then have "fold (remove_endpoint lrp) (it_endpointGenerator t lrp) (it_entries t, []) = (it_entries t, [])"
    by (rule fold_same)
  then show ?thesis by (simp add: table_RemoveEndpoint_def Let_def split_beta)
qed

lemma routes_knownD:
  assumes "routes_known newer routes tag t" and "key \<in> fst ` set routes"
  obtains m where "re_ModificationTag (entry_at (it_entries t) key) = Some m" and "newer m tag"
  using assms unfolding routes_known_def list_all_iff by (fastforce split: option.splits)

lemma late_set:
  assumes known: "routes_known holds (it_routesGenerator t before @ it_routesGenerator t (Some after))
    (dr_ModificationTag after) t"
  shows "table_SetRoutes before (Some after) t = (t, [])"
proof -
  have stale: "\<not> SucceededBy (re_ModificationTag (entry_at (it_entries t) key)) (dr_ModificationTag after)"
    if "key \<in> fst ` set (it_routesGenerator t before @ it_routesGenerator t (Some after))" for key
    by (rule routes_knownD [OF known that]) (metis holds_SucceededBy)
  have "fold (set_routes before after) (it_routesGenerator t (Some after)) (it_entries t, []) = (it_entries t, [])"
  proof (rule fold_same)
    fix kr assume kr: "kr \<in> set (it_routesGenerator t (Some after))"
    obtain key rs where k: "kr = (key, rs)" by (cases kr)
    have "key \<in> fst ` set (it_routesGenerator t before @ it_routesGenerator t (Some after))"
      using kr k by (auto intro!: image_eqI [of _ fst "(key, rs)"])
    from stale [OF this] show "set_routes before after kr (it_entries t, []) = (it_entries t, [])"
      by (simp add: set_routes_def k del: SucceededBy.simps)
  qed
  moreover have "fold (remove_routes b (Some after)) (filter P (map fst (it_routesGenerator t before))) (it_entries t, [])
      = (it_entries t, [])" for b P
  proof (rule fold_same)
    fix key assume "key \<in> set (filter P (map fst (it_routesGenerator t before)))"
    then have "key \<in> fst ` set (it_routesGenerator t before @ it_routesGenerator t (Some after))" by auto
    from stale [OF this] show "remove_routes b (Some after) key (it_entries t, []) = (it_entries t, [])"
      by (simp add: remove_routes_def del: SucceededBy.simps)
  qed
  ultimately show ?thesis by (cases before) (simp_all add: table_SetRoutes_def Let_def)
qed

lemma late_remove_routes:
  assumes known: "routes_known outdates (it_routesGenerator t (Some desired)) (dr_ModificationTag desired) t"
  shows "table_RemoveRoutes desired t = (t, [])"
proof -
  have "fold (remove_routes desired None) (filter P (map fst (it_routesGenerator t (Some desired)))) (it_entries t, [])
      = (it_entries t, [])" for P
  proof (rule fold_same)
    fix key assume "key \<in> set (filter P (map fst (it_routesGenerator t (Some desired))))"
    then have key: "key \<in> fst ` set (it_routesGenerator t (Some desired))" by auto
    obtain m where "re_ModificationTag (entry_at (it_entries t) key) = Some m" "outdates m (dr_ModificationTag desired)"
      by (rule routes_knownD [OF known key])
    then show "remove_routes desired None key (it_entries t, []) = (it_entries t, [])"
      using outdates_tag by (simp add: remove_routes_def del: SucceededBy.simps)
  qed
  then show ?thesis by (simp add: table_RemoveRoutes_def table_SetRoutes_def Let_def)
qed

text \<open>
  C37. Events that arrive late change nothing and emit nothing: adding endpoints the table knows with
  a tag of the same epoch that is not older; removing endpoints it knows with a newer tag; setting
  routes where its entries carry a tag that is not older; and removing routes where they carry a newer one.
\<close>

theorem late_events_change_nothing:
  "(endpoint_known holds lrp t \<longrightarrow>
      it_entries (fst (table_AddEndpoint lrp t)) = it_entries t \<and> snd (table_AddEndpoint lrp t) = [])
   \<and> (endpoint_known outdates lrp t \<longrightarrow>
      it_entries (fst (table_RemoveEndpoint lrp t)) = it_entries t \<and> snd (table_RemoveEndpoint lrp t) = [])
   \<and> (routes_known holds (it_routesGenerator t before @ it_routesGenerator t (Some after)) (dr_ModificationTag after) t \<longrightarrow>
      table_SetRoutes before (Some after) t = (t, []))
   \<and> (routes_known outdates (it_routesGenerator t (Some desired)) (dr_ModificationTag desired) t \<longrightarrow>
      table_RemoveRoutes desired t = (t, []))"
  by (intro conjI impI late_add late_remove late_set late_remove_routes)

theorem late_events_change_nothing_witness:
  "let t = fst (run_ops [OpSetRoutes None (Some (demo_routed [''a''] 2)), OpAddEndpoint (demo_actual ActualLRP_Ordinary 2)] demo_table)
   in it_entries t \<noteq> [] \<and> snd (table_AddEndpoint (demo_actual ActualLRP_Ordinary 2) t) = []
    \<and> snd (table_RemoveEndpoint (demo_actual ActualLRP_Ordinary 1) t) = []
    \<and> table_SetRoutes (Some (demo_routed [''a''] 1)) (Some (demo_routed [''b''] 2)) t = (t, [])
    \<and> table_RemoveRoutes (demo_routed [''a''] 1) t = (t, [])"
proof -
  let ?t = "fst (run_ops [OpSetRoutes None (Some (demo_routed [''a''] 2)), OpAddEndpoint (demo_actual ActualLRP_Ordinary 2)] demo_table)"
  have "it_entries ?t \<noteq> []" "endpoint_known holds (demo_actual ActualLRP_Ordinary 2) ?t"
    "endpoint_known outdates (demo_actual ActualLRP_Ordinary 1) ?t"
    "routes_known holds (it_routesGenerator ?t (Some (demo_routed [''a''] 1)) @ it_routesGenerator ?t (Some (demo_routed [''b''] 2)))
       (dr_ModificationTag (demo_routed [''b''] 2)) ?t"
    "routes_known outdates (it_routesGenerator ?t (Some (demo_routed [''a''] 1))) (dr_ModificationTag (demo_routed [''a''] 1)) ?t"
    by code_simp+
  with late_events_change_nothing [of "demo_actual ActualLRP_Ordinary 2" ?t "Some (demo_routed [''a''] 1)" "demo_routed [''b''] 2" "demo_routed [''a''] 1"]
    late_events_change_nothing [of "demo_actual ActualLRP_Ordinary 1" ?t]
  show ?thesis unfolding Let_def by blast
qed

end
