(* ===== verification/Route_Build.thy ===== *)
theory Route_Build
  imports Route_Properties
begin

section \<open>Tables built from the state of the bbs\<close>

text \<open>
  A synchronisation builds a new table from the desired and the running LRPs that the bbs returns and
  swaps it in. The interface the tables have to the three kinds of routes and the two kinds of
  endpoints is a locale each; with their laws, what a table built this way holds is read off the
  state of the bbs, and a swap brings any table to it.
\<close>

subsection \<open>Building\<close>

definition build_routes :: "RoutedDesiredLRP list \<Rightarrow> internalRoutingTable \<Rightarrow> internalRoutingTable" where
  "build_routes desired t = fold (\<lambda>lrp t. fst (table_SetRoutes None (Some lrp) t)) desired t"

definition build_endpoints :: "RoutedLRP list \<Rightarrow> internalRoutingTable \<Rightarrow> internalRoutingTable" where
  "build_endpoints actuals t = fold (\<lambda>lrp t. fst (table_AddEndpoint lrp t)) actuals t"

definition routed_entry :: "RoutedDesiredLRP \<Rightarrow> routeMapping list \<Rightarrow> RoutableEndpoints" where
  "routed_entry d routes = \<lparr>re_Domain = dr_Domain d, re_Routes = routes, re_Endpoints = [],
     re_DesiredInstances = dr_Instances d, re_ModificationTag = Some (dr_ModificationTag d)\<rparr>"

text \<open>What the desired LRPs ask for under a key, and the entry for it.\<close>

definition wanted ::
  "(RoutedDesiredLRP option \<Rightarrow> (RoutingKey \<times> routeMapping list) list) \<Rightarrow> RoutedDesiredLRP list \<Rightarrow> RoutingKey
   \<Rightarrow> (RoutedDesiredLRP \<times> routeMapping list) option" where
  "wanted gen desired key =
     (case find (\<lambda>d. dr_ProcessGuid d = rk_ProcessGUID key) desired of
        None \<Rightarrow> None
      | Some d \<Rightarrow> map_option (Pair d) (map_of (gen (Some d)) key))"

definition wanted_entry ::
  "(RoutedDesiredLRP option \<Rightarrow> (RoutingKey \<times> routeMapping list) list) \<Rightarrow> RoutedDesiredLRP list \<Rightarrow> RoutingKey
   \<Rightarrow> RoutableEndpoints" where
  "wanted_entry gen desired key =
     (case wanted gen desired key of None \<Rightarrow> no_entry | Some (d, routes) \<Rightarrow> routed_entry d routes)"

lemma set_routes_fresh:
  assumes "entry_at es key = no_entry"
  shows "set_routes None d (key, routes) (es, cs)
    = (AList.update key (routed_entry d routes) es, cs @ [(key, no_entry, routed_entry d routes)])"
  using assms by (simp add: set_routes_def no_entry_def routed_entry_def Let_def)

lemma set_routes_fold:
  assumes "distinct (map fst krs)" and "\<forall>k \<in> fst ` set krs. entry_at es k = no_entry"
  shows "entry_at (fst (fold (set_routes None d) krs (es, cs))) key =
    (case map_of krs key of None \<Rightarrow> entry_at es key | Some routes \<Rightarrow> routed_entry d routes)"
  using assms
proof (induction krs arbitrary: es cs)
  case (Cons kr krs)
  obtain k routes where kr: "kr = (k, routes)" by (cases kr)
  let ?es = "AList.update k (routed_entry d routes) es"
  have nk: "k \<notin> fst ` set krs" and d: "distinct (map fst krs)" using Cons.prems(1) by (auto simp: kr)
  have fresh: "\<forall>k' \<in> fst ` set krs. entry_at ?es k' = no_entry"
    using Cons.prems(2) nk by (simp add: kr entry_at_update) blast
  have "map_of krs k = None" using nk by (simp add: map_of_eq_None_iff)
  moreover have "entry_at es k = no_entry" using Cons.prems(2) by (simp add: kr)
  ultimately show ?case
    using Cons.IH [OF d fresh] by (simp add: kr set_routes_fresh entry_at_update split: option.split)
qed simp

lemma find_absent: "g \<notin> f ` set xs \<Longrightarrow> find (\<lambda>x. f x = g) xs = None"
  by (induction xs) auto

lemma find_append: "find P (xs @ ys) = (case find P xs of None \<Rightarrow> find P ys | Some x \<Rightarrow> Some x)"
  by (induction xs) auto

lemma SetRoutes_new:
  "fst (table_SetRoutes None (Some d) t)
   = t\<lparr>it_entries := fst (fold (set_routes None d) (it_routesGenerator t (Some d)) (it_entries t, []))\<rparr>"
  by (simp add: table_SetRoutes_def Let_def split_beta)

locale route_generator =
  fixes gen :: "RoutedDesiredLRP option \<Rightarrow> (RoutingKey \<times> routeMapping list) list"
  assumes gen_distinct: "distinct (map fst (gen lrp))"
    and gen_guid: "k \<in> fst ` set (gen (Some d)) \<Longrightarrow> rk_ProcessGUID k = dr_ProcessGuid d"
begin

lemma build_routes_entry:
  assumes "it_routesGenerator t = gen" and "it_entries t = []" and "distinct (map dr_ProcessGuid desired)"
  shows "it_routesGenerator (build_routes desired t) = gen
    \<and> entry_at (it_entries (build_routes desired t)) key = wanted_entry gen desired key"
  using assms(3)
proof (induction desired arbitrary: key rule: rev_induct)
  case Nil
  then show ?case using assms(1,2) by (simp add: build_routes_def wanted_entry_def wanted_def entry_at_def)
next
  case (snoc d ds)
  let ?t = "build_routes ds t"
  have ds: "distinct (map dr_ProcessGuid ds)" and nd: "dr_ProcessGuid d \<notin> set (map dr_ProcessGuid ds)"
    using snoc.prems by auto
  have gen: "it_routesGenerator ?t = gen" and entry: "entry_at (it_entries ?t) k = wanted_entry gen ds k" for k
    using snoc.IH [OF ds] by auto
  have new: "wanted gen ds k = None" if "rk_ProcessGUID k = dr_ProcessGuid d" for k
  proof -
    have "find (\<lambda>d. dr_ProcessGuid d = rk_ProcessGUID k) ds = None"
      using nd that by (simp add: find_absent)
    then show ?thesis by (simp add: wanted_def)
  qed
  have fresh: "\<forall>k \<in> fst ` set (gen (Some d)). entry_at (it_entries ?t) k = no_entry"
  proof
    fix k assume "k \<in> fst ` set (gen (Some d))"
    then have "wanted gen ds k = None" by (rule new [OF gen_guid])
    then show "entry_at (it_entries ?t) k = no_entry" by (simp only: entry wanted_entry_def option.case)
  qed
  have build: "build_routes (ds @ [d]) t
      = ?t\<lparr>it_entries := fst (fold (set_routes None d) (gen (Some d)) (it_entries ?t, []))\<rparr>"
    using gen by (simp add: build_routes_def SetRoutes_new)
  have wanted: "wanted gen (ds @ [d]) k = (case map_of (gen (Some d)) k of
      None \<Rightarrow> wanted gen ds k | Some routes \<Rightarrow> Some (d, routes))" for k
  proof (cases "rk_ProcessGUID k = dr_ProcessGuid d")
    case True
    then have "find (\<lambda>d. dr_ProcessGuid d = rk_ProcessGUID k) ds = None"
      using nd by (simp add: find_absent)
    then show ?thesis using True new [OF True] by (simp add: wanted_def find_append split: option.split)
  next
    case False
    then have "k \<notin> fst ` set (gen (Some d))" by (rule contrapos_nn) (rule gen_guid)
    then have "map_of (gen (Some d)) k = None" by (simp only: map_of_eq_None_iff not_False_eq_True)
    then show ?thesis using False by (simp add: wanted_def find_append split: option.split)
  qed
  show ?case
    using gen set_routes_fold [OF gen_distinct fresh, where d = d and cs = "[]" and key = key]
    unfolding build wanted_entry_def wanted entry by (simp split: option.split)
qed

end


subsection \<open>Endpoints\<close>

text \<open>An entry takes an endpoint unless its LRP asks for fewer instances.\<close>

definition takes :: "RoutableEndpoints \<Rightarrow> Endpoint \<Rightarrow> bool" where
  "takes entry e \<longleftrightarrow> \<not> (re_DesiredInstances entry > 0 \<and> en_Index e \<ge> re_DesiredInstances entry)"

definition keyed_endpoints :: "(RoutedLRP \<times> Endpoint) list \<Rightarrow> RoutingKey \<Rightarrow> RoutableEndpoints \<Rightarrow> (EndpointKey \<times> Endpoint) list" where
  "keyed_endpoints ps key entry = map (\<lambda>(a, e). (endpoint_key e, e)) (filter (\<lambda>(a, e). routing_key a e = key \<and> takes entry e) ps)"

lemma update_new: "k \<notin> fst ` set m \<Longrightarrow> AList.update k v m = m @ [(k, v)]"
  by (induction m) auto

lemma add_endpoint_fresh:
  assumes "endpoint_key e \<notin> fst ` set (re_Endpoints (entry_at es (routing_key a e)))"
  shows "fst (add_endpoint a e (es, cs)) = (let entry = entry_at es (routing_key a e)
     in if takes entry e
        then AList.update (routing_key a e) (entry\<lparr>re_Endpoints := re_Endpoints entry @ [(endpoint_key e, e)]\<rparr>) es
        else es)"
proof -
  have "map_of (re_Endpoints (entry_at es (routing_key a e))) (endpoint_key e) = None"
    using assms by (simp only: map_of_eq_None_iff not_False_eq_True)
  then show ?thesis
    using update_new [OF assms] by (auto simp: add_endpoint_def takes_def Let_def)
qed

lemma keyed_endpoints_snoc:
  "keyed_endpoints (ps @ [(a, e)]) key entry = keyed_endpoints ps key entry
     @ (if routing_key a e = key \<and> takes entry e then [(endpoint_key e, e)] else [])"
  by (simp add: keyed_endpoints_def)

lemma keyed_endpoints_keys:
  "k \<in> fst ` set (keyed_endpoints ps key entry) \<Longrightarrow> (key, k) \<in> (\<lambda>(a, e). (routing_key a e, endpoint_key e)) ` set ps"
  unfolding keyed_endpoints_def by (auto simp: image_iff split_beta) (metis fst_conv snd_conv)

lemma takes_endpoints [simp]: "takes (entry\<lparr>re_Endpoints := es\<rparr>) = takes entry"
  by (simp add: takes_def fun_eq_iff)

text \<open>The endpoints of an LRP one after the other, over all LRPs.\<close>

definition add_all :: "(RoutedLRP \<times> Endpoint) list \<Rightarrow> entry_map \<Rightarrow> entry_map" where
  "add_all ps es = fold (\<lambda>(a, e) es. fst (add_endpoint a e (es, []))) ps es"

lemma add_all_entry:
  assumes "distinct (map (\<lambda>(a, e). (routing_key a e, endpoint_key e)) ps)" and "\<And>key. re_Endpoints (entry_at es key) = []"
  shows "entry_at (add_all ps es) key = (entry_at es key)\<lparr>re_Endpoints := keyed_endpoints ps key (entry_at es key)\<rparr>"
  using assms(1)
proof (induction ps arbitrary: key rule: rev_induct)
  case Nil
  have "entry_at es key = (entry_at es key)\<lparr>re_Endpoints := []\<rparr>" using assms(2) by simp
  then show ?case by (simp add: add_all_def keyed_endpoints_def)
next
  case (snoc p ps)
  obtain a e where p: "p = (a, e)" by (cases p)
  let ?es = "add_all ps es" and ?key = "routing_key a e"
  have IH: "entry_at ?es k = (entry_at es k)\<lparr>re_Endpoints := keyed_endpoints ps k (entry_at es k)\<rparr>" for k
    using snoc by simp
  have "(?key, endpoint_key e) \<notin> (\<lambda>(a, e). (routing_key a e, endpoint_key e)) ` set ps"
    using snoc.prems by (simp add: p)
  then have "endpoint_key e \<notin> fst ` set (re_Endpoints (entry_at ?es ?key))"
    unfolding IH using keyed_endpoints_keys [of "endpoint_key e" ps ?key "entry_at es ?key"] by auto
  note fresh = add_endpoint_fresh [OF this, of "[]"]
  have "add_all (ps @ [p]) es = fst (add_endpoint a e (?es, []))" by (simp add: add_all_def p)
  then show ?case
    unfolding fresh Let_def p keyed_endpoints_snoc by (simp add: entry_at_update IH)
qed

lemma add_endpoint_changes: "fst (add_endpoint a e (es, cs)) = fst (add_endpoint a e (es, cs'))"
  by (simp add: add_endpoint_def Let_def split: option.split)

lemma add_endpoints_all: "fst (fold (add_endpoint a) xs (es, cs)) = add_all (map (Pair a) xs) es"
proof (induction xs arbitrary: es cs)
  case (Cons e xs)
  obtain es' cs' where s: "add_endpoint a e (es, cs) = (es', cs')" by fastforce
  have "fst (add_endpoint a e (es, [])) = es'" using add_endpoint_changes [of a e es "[]" cs] by (simp add: s)
  then show ?case using Cons.IH [of es' cs'] by (simp add: add_all_def s)
qed (simp add: add_all_def)

lemma record_addresses_generator [simp]: "it_endpointGenerator (fold record_address es t) = it_endpointGenerator t"
proof (induction es arbitrary: t)
  case (Cons e es)
  have "it_endpointGenerator (record_address e t) = it_endpointGenerator t"
    by (simp add: record_address_def Let_def split: option.split)
  with Cons show ?case by simp
qed simp

text \<open>The endpoints of an LRP share its key, and differ in their container ports when its ports do.\<close>

definition distinct_ports :: "RoutedLRP \<Rightarrow> bool" where
  "distinct_ports a \<longleftrightarrow> distinct (map pm_ContainerPort (List.map_filter id (al_Ports a)))"

definition instance_key :: "RoutedLRP \<Rightarrow> EndpointKey" where
  "instance_key a = \<lparr>ek_InstanceGUID = ikey_InstanceGuid (al_InstanceKey a), ek_Evacuating = (al_Presence a = ActualLRP_Evacuating)\<rparr>"

locale endpoint_generator =
  fixes gen :: "RoutedLRP \<Rightarrow> Endpoint list"
  assumes gen_key: "e \<in> set (gen a) \<Longrightarrow> endpoint_key e = instance_key a"
    and gen_ports: "distinct_ports a \<Longrightarrow> distinct (map en_ContainerPort (gen a))"
begin

lemma distinct_endpoints:
  assumes "distinct (map instance_key actuals)" and "list_all distinct_ports actuals"
  shows "distinct (map (\<lambda>(a, e). (routing_key a e, endpoint_key e)) (concat (map (\<lambda>a. map (Pair a) (gen a)) actuals)))"
  using assms
proof (induction actuals)
  case (Cons a as)
  let ?f = "\<lambda>(a, e). (routing_key a e, endpoint_key e)"
  have "distinct (map (\<lambda>e. rk_ContainerPort (fst (?f (a, e)))) (gen a))"
    using gen_ports [of a] Cons.prems(2) by (simp add: routing_key_def)
  then have "distinct (map ?f (map (Pair a) (gen a)))"
    by (auto simp: distinct_map inj_on_def)
  moreover have "?f (a, e) \<noteq> ?f (b, e')" if "e \<in> set (gen a)" "b \<in> set as" "e' \<in> set (gen b)" for e b e'
  proof -
    have "instance_key a \<noteq> instance_key b" using Cons.prems(1) that(2) by auto
    then show ?thesis using gen_key [OF that(1)] gen_key [OF that(3)] by simp
  qed
  ultimately show ?case using Cons by (auto simp: image_iff)
qed simp

lemma build_endpoints_all:
  assumes "it_endpointGenerator t = gen"
  shows "it_entries (build_endpoints actuals t) = add_all (concat (map (\<lambda>a. map (Pair a) (gen a)) actuals)) (it_entries t)"
  using assms
proof (induction actuals arbitrary: t)
  case (Cons a as)
  let ?t = "fst (table_AddEndpoint a t)"
  have "it_entries ?t = add_all (map (Pair a) (gen a)) (it_entries t)" "it_endpointGenerator ?t = gen"
    using Cons.prems by (auto simp: table_AddEndpoint_def Let_def split_beta add_endpoints_all)
  then show ?case using Cons.IH [of ?t] by (simp add: build_endpoints_def add_all_def)
qed (simp add: build_endpoints_def add_all_def)

end

subsection \<open>What the bbs asks for\<close>

text \<open>
  The associations between routes and endpoints that the desired and the running LRPs of the bbs call
  for under a key: the routes of the desired LRP with that process and port, each with the
  endpoints at that port of the instances that the LRP still wants.
\<close>

definition bbs_associations ::
  "(RoutedDesiredLRP option \<Rightarrow> (RoutingKey \<times> routeMapping list) list) \<Rightarrow> (RoutedLRP \<Rightarrow> Endpoint list)
   \<Rightarrow> RoutedDesiredLRP list \<Rightarrow> RoutedLRP list \<Rightarrow> RoutingKey \<Rightarrow> association set" where
  "bbs_associations rgen egen desired actuals key =
     (case wanted rgen desired key of
        None \<Rightarrow> {}
      | Some (d, routes) \<Rightarrow> Hash ` set routes \<times> essence ` set (concat (map (\<lambda>a.
          filter (\<lambda>e. routing_key a e = key \<and> (dr_Instances d > 0 \<longrightarrow> en_Index e < dr_Instances d)) (egen a)) actuals)))"

lemma concat_pairs:
  "snd ` set (filter (\<lambda>(a, e). P a e) (concat (map (\<lambda>a. map (Pair a) (g a)) as)))
   = set (concat (map (\<lambda>a. filter (P a) (g a)) as))"
  by (induction as) (auto simp: image_Un image_iff)

lemma build_entries_ok:
  assumes "entries_ok (it_entries t)"
  shows "entries_ok (it_entries (build_endpoints actuals (build_routes desired t)))"
proof -
  have "entries_ok (it_entries (build_routes desired t))"
    using assms unfolding build_routes_def
  proof (induction desired arbitrary: t)
    case (Cons d ds)
    show ?case unfolding fold_Cons comp_apply
      by (rule Cons.IH) (use SetRoutes_steps [OF Cons.prems surjective_pairing] in \<open>simp add: steps_ok_def\<close>)
  qed simp
  then show ?thesis
    unfolding build_endpoints_def
  proof (induction actuals arbitrary: desired t)
    case (Cons a as)
    have "entries_ok (it_entries u) \<Longrightarrow> entries_ok (it_entries (fold (\<lambda>lrp t. fst (table_AddEndpoint lrp t)) xs u))" for xs u
    proof (induction xs arbitrary: u)
      case (Cons x xs)
      show ?case unfolding fold_Cons comp_apply
        by (rule Cons.IH) (use AddEndpoint_steps [OF Cons.prems surjective_pairing] in \<open>simp add: steps_ok_def\<close>)
    qed simp
    with Cons.prems show ?case by blast
  qed simp
qed

definition fresh_domains :: "string list \<Rightarrow> entry_map \<Rightarrow> bool" where
  "fresh_domains domains entries \<longleftrightarrow> list_all (\<lambda>(k, e). re_Routes e = [] \<or> re_Domain e \<in> set domains) entries"

text \<open>What the bbs returns: one desired LRP per process and one actual LRP per instance and presence.\<close>

definition bbs_state_ok :: "RoutedDesiredLRP list \<Rightarrow> RoutedLRP list \<Rightarrow> bool" where
  "bbs_state_ok desired actuals \<longleftrightarrow> distinct (map dr_ProcessGuid desired)
     \<and> distinct (map instance_key actuals) \<and> list_all distinct_ports actuals"

locale table_kind = route_generator rgen + endpoint_generator egen
  for rgen :: "RoutedDesiredLRP option \<Rightarrow> (RoutingKey \<times> routeMapping list) list" and egen :: "RoutedLRP \<Rightarrow> Endpoint list"
begin

lemma build_generators:
  assumes "it_routesGenerator t = rgen" and "it_endpointGenerator t = egen"
  shows "it_endpointGenerator (build_routes desired t) = egen"
  using assms(2) unfolding build_routes_def
  by (induction desired arbitrary: t) (simp_all add: SetRoutes_new)

lemma build_router:
  assumes "it_routesGenerator t = rgen" and "it_endpointGenerator t = egen" and "it_entries t = []"
    and "bbs_state_ok desired actuals"
  shows "router_of (it_entries (build_endpoints actuals (build_routes desired t))) = bbs_associations rgen egen desired actuals"
proof
  fix key
  let ?t = "build_routes desired t" and ?ps = "concat (map (\<lambda>a. map (Pair a) (egen a)) actuals)"
  have entry: "entry_at (it_entries ?t) k = wanted_entry rgen desired k" for k
    using build_routes_entry [OF assms(1,3)] assms(4) by (simp add: bbs_state_ok_def)
  have none: "re_Endpoints (entry_at (it_entries ?t) k) = []" for k
    unfolding entry by (simp add: wanted_entry_def no_entry_def routed_entry_def split: option.split prod.split)
  have d: "distinct (map (\<lambda>(a, e). (routing_key a e, endpoint_key e)) ?ps)"
    using distinct_endpoints assms(4) by (simp add: bbs_state_ok_def)
  have "entry_at (it_entries (build_endpoints actuals ?t)) key
      = (wanted_entry rgen desired key)\<lparr>re_Endpoints := keyed_endpoints ?ps key (wanted_entry rgen desired key)\<rparr>"
    unfolding build_endpoints_all [OF build_generators [OF assms(1,2)]] add_all_entry [OF d none] entry ..
  moreover have "snd ` set (keyed_endpoints ?ps key x)
      = set (concat (map (\<lambda>a. filter (\<lambda>e. routing_key a e = key \<and> takes x e) (egen a)) actuals))" for x
    unfolding concat_pairs [symmetric] keyed_endpoints_def by (auto simp: image_iff)
  ultimately show "router_of (it_entries (build_endpoints actuals ?t)) key = bbs_associations rgen egen desired actuals key"
    unfolding router_of_def associations_def bbs_associations_def
    by (simp add: wanted_entry_def no_entry_def routed_entry_def takes_def not_le split: option.split prod.split)
qed

lemma sync_router:
  assumes "it_routesGenerator t = rgen" and "it_endpointGenerator t = egen" and "it_entries t = []"
    and "bbs_state_ok desired actuals" and "entries_ok (it_entries old)" and "fresh_domains domains (it_entries old)"
  shows "router_of (it_entries (fst (table_Swap (build_endpoints actuals (build_routes desired t)) domains old)))
    = bbs_associations rgen egen desired actuals"
proof
  fix key
  let ?new = "build_endpoints actuals (build_routes desired t)"
  have ok: "entries_ok (it_entries ?new)"
    using build_entries_ok [of t] assms(3) by (simp add: entries_ok_def)
  have "re_Domain (entry_at (it_entries old) key) \<in> set domains \<or> re_Routes (entry_at (it_entries old) key) = []"
    using assms(6) by (auto simp: fresh_domains_def list_all_iff entry_at_def no_entry_def dest!: map_of_SomeD split: option.split)
  then have "router_of (it_entries (fst (table_Swap ?new domains old))) key = router_of (it_entries ?new) key"
    unfolding Swap_keeps_lemma [OF assms(5) ok] by (elim disjE) (simp_all add: router_of_def associations_def)
  then show "router_of (it_entries (fst (table_Swap ?new domains old))) key = bbs_associations rgen egen desired actuals key"
    by (simp only: build_router [OF assms(1-4)])
qed

end

subsection \<open>The kinds of routes and endpoints\<close>

lemma append_routes_keys:
  "distinct (map fst m) \<Longrightarrow> distinct (map fst (append_routes k rs m))"
  "fst ` set (append_routes k rs m) = insert k (fst ` set m)"
  by (simp_all add: append_routes_def distinct_update dom_update)

lemma routes_distinct: "distinct (map fst (fold (\<lambda>x. append_routes (f x) (h x)) xs []))"
proof -
  have "distinct (map fst m) \<Longrightarrow> distinct (map fst (fold (\<lambda>x. append_routes (f x) (h x)) xs m))" for m
    by (induction xs arbitrary: m) (simp_all add: append_routes_keys)
  then show ?thesis by simp
qed

lemma routes_keys:
  assumes "(k, rs) \<in> set (fold (\<lambda>x. append_routes (f x) (h x)) xs [])"
  obtains x where "x \<in> set xs" "k = f x"
proof -
  have "fst ` set (fold (\<lambda>x. append_routes (f x) (h x)) xs m) = f ` set xs \<union> fst ` set m" for m
    by (induction xs arbitrary: m) (simp_all add: append_routes_keys)
  from this [of "[]"] imageI [OF assms, of fst] show ?thesis using that by auto
qed

interpretation http_routes: route_generator httpRoutesFrom
proof
  show "distinct (map fst (httpRoutesFrom lrp))" for lrp
    unfolding httpRoutesFrom_def by (auto intro!: routes_distinct split: option.split)
  show "rk_ProcessGUID k = dr_ProcessGuid d" if "k \<in> fst ` set (httpRoutesFrom (Some d))" for k d
    using that unfolding httpRoutesFrom_def by (auto split: option.splits elim!: routes_keys)
qed

interpretation tcp_routes: route_generator "tcpRoutesFrom tlsEnabled" for tlsEnabled
proof
  show "distinct (map fst (tcpRoutesFrom tlsEnabled lrp))" for lrp
    unfolding tcpRoutesFrom_def by (auto intro!: routes_distinct split: option.split)
  show "rk_ProcessGUID k = dr_ProcessGuid d" if "k \<in> fst ` set (tcpRoutesFrom tlsEnabled (Some d))" for k d
    using that unfolding tcpRoutesFrom_def by (auto split: option.splits elim!: routes_keys)
qed

interpretation internal_routes: route_generator internalRoutesFrom
proof
  show "distinct (map fst (internalRoutesFrom lrp))" for lrp
    unfolding internalRoutesFrom_def by (auto intro!: routes_distinct split: option.split)
  show "rk_ProcessGUID k = dr_ProcessGuid d" if "k \<in> fst ` set (internalRoutesFrom (Some d))" for k d
    using that unfolding internalRoutesFrom_def by (auto split: option.splits elim!: routes_keys)
qed

lemma map_present:
  "map f (List.map_filter (\<lambda>x. case x of None \<Rightarrow> None | Some y \<Rightarrow> Some (g y)) xs) = map (\<lambda>y. f (g y)) (List.map_filter id xs)"
  by (induction xs) (auto simp: map_filter_simps split: option.split)

interpretation port_endpoints: endpoint_generator NewEndpointsFromActual
proof
  show "endpoint_key e = instance_key a" if "e \<in> set (NewEndpointsFromActual a)" for e a
    using that by (auto simp: NewEndpointsFromActual_def List.map_filter_def endpoint_key_def instance_key_def split: option.splits)
  have "map en_ContainerPort (NewEndpointsFromActual a) = map pm_ContainerPort (List.map_filter id (al_Ports a))" for a
    unfolding NewEndpointsFromActual_def map_present by simp
  then show "distinct (map en_ContainerPort (NewEndpointsFromActual a))" if "distinct_ports a" for a
    using that by (simp add: distinct_ports_def)
qed

interpretation internal_endpoints: endpoint_generator internalEndpointsFromActualLRP
  by unfold_locales (simp_all add: internalEndpointsFromActualLRP_def endpoint_key_def instance_key_def)

interpretation http_table: table_kind httpRoutesFrom NewEndpointsFromActual ..

interpretation tcp_table: table_kind "tcpRoutesFrom tlsEnabled" NewEndpointsFromActual for tlsEnabled ..

interpretation internal_table: table_kind internalRoutesFrom internalEndpointsFromActualLRP ..

subsection \<open>The periodic events\<close>

definition agreeing_entries :: "entry_map \<Rightarrow> bool" where
  "agreeing_entries entries \<longleftrightarrow> list_all (\<lambda>(k, entry). agreeing (re_Endpoints entry)) entries"

lemma associations_none [simp]: "associations no_entry = {}"
  by (simp add: associations_def no_entry_def)

lemma no_endpoints [simp]: "re_Endpoints no_entry = []"
  by (simp add: no_entry_def)

lemma agreeing_Nil [simp]: "agreeing []"
  by (simp add: agreeing_def)

lemma unregistered_none: "unregistered n no_entry new = {}"
  unfolding unregistered_def by (simp add: unregistrations_def diff_fields no_entry_def by_hash_def diffRoutes_def missing_in_def diffEndpoints_def)

lemma deliver_all:
  assumes "entries_ok entries" and "agreeing_entries entries"
  shows "fold (deliver n) (map (\<lambda>(key, entry). (key, no_entry, entry)) entries) R
    = (\<lambda>key. R key \<union> associations (entry_at entries key))"
  using assms
proof (induction entries arbitrary: R)
  case Nil
  then show ?case by (simp add: entry_at_def)
next
  case (Cons ke es)
  obtain k e where ke: "ke = (k, e)" by (cases ke)
  have keyed: "keyed (re_Endpoints e)" and agr: "agreeing (re_Endpoints e)" and fresh: "map_of es k = None"
    and rest: "entries_ok es" "agreeing_entries es"
    using Cons.prems by (auto simp: entries_ok_def agreeing_entries_def ke map_of_eq_None_iff)
  have "registered n no_entry e = associations e"
    using diff_exact [of no_entry e n] keyed agr by auto
  then have step: "deliver n (k, no_entry, e) R = R(k := R k \<union> associations e)"
    by (simp add: deliver_def unregistered_none)
  show ?case
    unfolding ke list.map prod.case fold_Cons comp_apply step Cons.IH [OF rest]
    by (rule ext) (simp add: entry_at_def fresh)
qed



end
