(* ===== verification/Route_Typing.thy ===== *)
theory Route_Typing
  imports Route_Build
begin

section \<open>The types of the routing tables\<close>

text \<open>The values a table holds stay within the types of their fields: ports in 32 bits, counts and indices signed.\<close>

definition port_typed :: "int \<Rightarrow> bool" where
  "port_typed p \<longleftrightarrow> 0 \<le> p \<and> p < 4294967296"

definition endpoint_typed :: "Endpoint \<Rightarrow> bool" where
  "endpoint_typed e \<longleftrightarrow> is_i32 (en_Index e) \<and> port_typed (en_Port e) \<and> port_typed (en_ContainerPort e)
     \<and> port_typed (en_TlsProxyPort e) \<and> port_typed (en_ContainerTlsProxyPort e)"

definition entry_typed :: "RoutingKey \<times> RoutableEndpoints \<Rightarrow> bool" where
  "entry_typed ke \<longleftrightarrow> port_typed (rk_ContainerPort (fst ke)) \<and> is_i32 (re_DesiredInstances (snd ke))
     \<and> list_all (\<lambda>(k, e). endpoint_typed e \<and> k = endpoint_key e \<and> en_ContainerPort e = rk_ContainerPort (fst ke))
         (re_Endpoints (snd ke))"

definition table_typed :: "entry_map \<Rightarrow> bool" where
  "table_typed entries \<longleftrightarrow> distinct (map fst entries) \<and> list_all entry_typed entries"

definition lrp_typed :: "RoutedLRP \<Rightarrow> bool" where
  "lrp_typed a \<longleftrightarrow> is_i32 (key_Index (al_Key a)) \<and> list_all (\<lambda>p. case p of None \<Rightarrow> True
     | Some p \<Rightarrow> port_typed (pm_HostPort p) \<and> port_typed (pm_ContainerPort p) \<and> port_typed (pm_HostTLSProxyPort p)
         \<and> port_typed (pm_ContainerTLSProxyPort p)) (al_Ports a)"

definition desired_typed :: "RoutedDesiredLRP \<Rightarrow> bool" where
  "desired_typed d \<longleftrightarrow> is_i32 (dr_Instances d) \<and> (case dr_Routes d of None \<Rightarrow> True
     | Some r \<Rightarrow> list_all (\<lambda>c. port_typed (cr_Port c)) (ro_cf r) \<and> list_all (\<lambda>c. port_typed (tr_ContainerPort c)) (ro_tcp r))"

fun op_typed :: "table_op \<Rightarrow> bool" where
  "op_typed (OpAddEndpoint a) = lrp_typed a"
| "op_typed (OpRemoveEndpoint a) = lrp_typed a"
| "op_typed (OpSetRoutes before after) = (pred_option desired_typed before \<and> pred_option desired_typed after)"
| "op_typed (OpSwap other domains) = table_typed (it_entries other)"

definition table_of_kind :: "internalRoutingTable \<Rightarrow> bool" where
  "table_of_kind t \<longleftrightarrow> it_endpointGenerator t \<in> {NewEndpointsFromActual, internalEndpointsFromActualLRP}
     \<and> it_routesGenerator t \<in> {httpRoutesFrom, tcpRoutesFrom False, tcpRoutesFrom True, internalRoutesFrom}"

lemma typed_none: "port_typed (rk_ContainerPort k) \<Longrightarrow> entry_typed (k, no_entry)"
  by (simp add: entry_typed_def no_entry_def is_i32_def)

lemma typed_at: "table_typed es \<Longrightarrow> port_typed (rk_ContainerPort k) \<Longrightarrow> entry_typed (k, entry_at es k)"
  using typed_none [of k] unfolding table_typed_def list_all_iff entry_at_def
  by (auto split: option.split dest!: map_of_SomeD)

lemma typed_update: "table_typed es \<Longrightarrow> entry_typed (k, e) \<Longrightarrow> table_typed (AList.update k e es)"
  using set_update_subset [of k e es] by (auto simp: table_typed_def distinct_update list_all_iff)

lemma typed_delete: "table_typed es \<Longrightarrow> table_typed (AList.delete k es)"
  by (auto simp: table_typed_def list_all_iff AList.delete_eq distinct_map_filter)

lemma typed_delete_if: "table_typed es \<Longrightarrow> table_typed (deleteEntryIfEmpty k es)"
  by (simp add: deleteEntryIfEmpty_def Let_def typed_delete)

lemma typed_fold:
  assumes "\<And>x es cs. x \<in> set xs \<Longrightarrow> table_typed es \<Longrightarrow> table_typed (fst (f x (es, cs)))" and "table_typed (fst ec)"
  shows "table_typed (fst (fold f xs ec))"
  using assms
proof (induction xs arbitrary: ec)
  case (Cons x xs)
  have "table_typed (fst (f x ec))" using Cons.prems(1) [of x "fst ec" "snd ec"] Cons.prems(2) by simp
  with Cons.prems(1) show ?case by (simp add: Cons.IH)
qed simp

lemma generated_typed:
  assumes "table_of_kind t" and "lrp_typed a" and "e \<in> set (it_endpointGenerator t a)"
  shows "endpoint_typed e"
  using assms
  by (auto simp: table_of_kind_def lrp_typed_def list_all_iff NewEndpointsFromActual_def internalEndpointsFromActualLRP_def
      List.map_filter_def endpoint_typed_def port_typed_def split: option.splits)

lemma routes_typed:
  assumes "table_of_kind t" and "pred_option desired_typed d" and "(k, rs) \<in> set (it_routesGenerator t d)"
  shows "port_typed (rk_ContainerPort k)"
  using assms
  by (auto simp: table_of_kind_def desired_typed_def list_all_iff httpRoutesFrom_def tcpRoutesFrom_def internalRoutesFrom_def
      port_typed_def split: option.splits elim!: routes_keys)

lemma typed_add:
  assumes "endpoint_typed e" and "table_typed es"
  shows "table_typed (fst (add_endpoint a e (es, cs)))"
proof -
  let ?key = "routing_key a e"
  let ?entry = "entry_at es ?key"
  have "entry_typed (?key, ?entry)"
    using typed_at [OF assms(2)] assms(1) by (simp add: routing_key_def endpoint_typed_def)
  then have "entry_typed (?key, ?entry\<lparr>re_Endpoints := AList.update (endpoint_key e) e (re_Endpoints ?entry)\<rparr>)"
    using assms(1) set_update_subset [of "endpoint_key e" e "re_Endpoints ?entry"]
    by (auto simp: entry_typed_def list_all_iff routing_key_def)
  from typed_update [OF assms(2) this] assms(2) show ?thesis
    by (simp add: add_endpoint_def Let_def split: option.split)
qed

lemma typed_remove:
  assumes "endpoint_typed e" and "table_typed es"
  shows "table_typed (fst (remove_endpoint a e (es, cs)))"
proof -
  let ?key = "routing_key a e"
  let ?entry = "entry_at es ?key"
  have "entry_typed (?key, ?entry)"
    using typed_at [OF assms(2)] assms(1) by (simp add: routing_key_def endpoint_typed_def)
  then have "entry_typed (?key, ?entry\<lparr>re_Endpoints := AList.delete (endpoint_key e) (re_Endpoints ?entry)\<rparr>)"
    by (auto simp: entry_typed_def list_all_iff AList.delete_eq)
  from typed_delete_if [OF typed_update [OF assms(2) this]] assms(2) show ?thesis
    by (simp add: remove_endpoint_def Let_def split: option.split)
qed

lemma typed_set:
  assumes "desired_typed d" and "port_typed (rk_ContainerPort (fst kr))" and "table_typed es"
  shows "table_typed (fst (set_routes before d kr (es, cs)))"
proof -
  obtain key rs where kr: "kr = (key, rs)" by (cases kr)
  have "entry_typed (key, entry_at es key)" using typed_at [OF assms(3)] assms(2) by (simp add: kr)
  then have "entry_typed (key, (entry_at es key)\<lparr>re_Domain := dr_Domain d, re_Routes := rs,
      re_ModificationTag := Some (dr_ModificationTag d), re_DesiredInstances := dr_Instances d, re_Endpoints := filter P (re_Endpoints (entry_at es key))\<rparr>)" for P
    using assms(1) by (auto simp: entry_typed_def list_all_iff desired_typed_def)
  from typed_update [OF assms(3) this] typed_update [OF assms(3) this [of "\<lambda>_. True"]] assms(3) show ?thesis
    by (simp add: set_routes_def kr Let_def split: option.split)
qed

lemma typed_remove_routes:
  assumes "pred_option desired_typed after" and "port_typed (rk_ContainerPort key)" and "table_typed es"
  shows "table_typed (fst (remove_routes before after key (es, cs)))"
proof -
  have e: "entry_typed (key, entry_at es key)" by (rule typed_at [OF assms(3,2)])
  then have "entry_typed (key, (entry_at es key)\<lparr>re_Routes := [], re_Domain := dr_Domain d,
      re_ModificationTag := Some (dr_ModificationTag d), re_DesiredInstances := dr_Instances d\<rparr>)" if "desired_typed d" for d
    using that by (auto simp: entry_typed_def desired_typed_def)
  moreover have "entry_typed (key, (entry_at es key)\<lparr>re_Routes := []\<rparr>)" using e by (simp add: entry_typed_def)
  ultimately show ?thesis
    using assms(1,3) by (cases after) (auto simp: remove_routes_def Let_def intro!: typed_delete_if typed_update)
qed

lemma typed_swap:
  assumes "table_typed existing" and "table_typed es"
  shows "table_typed (fst (swap_key existing domains key (es, cs)))"
proof (cases "map_of existing key")
  case None
  then show ?thesis using assms(2) by (simp add: swap_key_def Let_def)
next
  case (Some old)
  then have "entry_typed (key, old)" using assms(1) by (auto simp: table_typed_def list_all_iff dest!: map_of_SomeD)
  then have "entry_typed (key, mergeUnfreshRoutes old (entry_at es key) domains)"
    using typed_at [OF assms(2), of key] by (simp add: entry_typed_def mergeUnfreshRoutes_def Let_def)
  from typed_delete_if [OF typed_update [OF assms(2) this]] Some show ?thesis by (simp add: swap_key_def Let_def)
qed

lemma typed_swaps:
  assumes "table_typed existing" and "table_typed es"
  shows "table_typed (fst (fold (swap_key existing domains) keys (es, cs)))"
  by (rule typed_fold) (simp_all add: assms typed_swap)

lemma run_op_typed:
  assumes "table_of_kind t" and "table_typed (it_entries t)" and "op_typed op"
  shows "table_typed (it_entries (fst (run_op op t)))"
proof (cases op)
  case (OpAddEndpoint a)
  have "table_typed (fst (fold (add_endpoint a) (it_endpointGenerator t a) (it_entries t, [])))"
    by (rule typed_fold) (use assms OpAddEndpoint generated_typed in \<open>simp_all add: typed_add\<close>)
  then show ?thesis by (simp add: OpAddEndpoint table_AddEndpoint_def Let_def split_beta)
next
  case (OpRemoveEndpoint a)
  have "table_typed (fst (fold (remove_endpoint a) (it_endpointGenerator t a) (it_entries t, [])))"
    by (rule typed_fold) (use assms OpRemoveEndpoint generated_typed in \<open>simp_all add: typed_remove\<close>)
  then show ?thesis by (simp add: OpRemoveEndpoint table_RemoveEndpoint_def Let_def split_beta)
next
  case (OpSetRoutes before after)
  have ports: "port_typed (rk_ContainerPort (fst kr))" if "kr \<in> set (it_routesGenerator t d)" "pred_option desired_typed d" for kr d
    using routes_typed [OF assms(1) that(2), of "fst kr" "snd kr"] that(1) by simp
  define ec where "ec = (case after of None \<Rightarrow> (it_entries t, []) | Some a \<Rightarrow>
    fold (set_routes before a) (it_routesGenerator t after) (it_entries t, []))"
  have "table_typed (fst (fold (set_routes before a) (it_routesGenerator t (Some a)) (it_entries t, [])))" if "after = Some a" for a
    by (rule typed_fold) (use assms(2,3) OpSetRoutes that ports in \<open>auto intro!: typed_set\<close>)
  then have ec: "table_typed (fst ec)" using assms(2) by (auto simp: ec_def split: option.split)
  have "table_typed (fst (fold (remove_routes b after) (filter P (map fst (it_routesGenerator t before))) ec))" if "before = Some b" for b P
    by (rule typed_fold) (use assms(3) OpSetRoutes that ports ec in \<open>auto intro!: typed_remove_routes\<close>)
  with ec show ?thesis
    by (auto simp: OpSetRoutes table_SetRoutes_def Let_def split_beta ec_def [symmetric] split: option.split)
next
  case (OpSwap other domains)
  then have "table_typed (it_entries other)" using assms(3) by simp
  from typed_swaps [OF assms(2) this] show ?thesis by (simp add: OpSwap table_Swap_def Let_def split_beta del: fold_append)
qed

lemma addresses_kind:
  "table_of_kind (fold record_address es t) = table_of_kind t" "table_of_kind (fold remove_address es t) = table_of_kind t"
proof -
  have "table_of_kind (record_address e t) = table_of_kind t" "table_of_kind (remove_address e t) = table_of_kind t" for e t
    by (simp_all add: record_address_def remove_address_def table_of_kind_def Let_def split: option.split)
  then show "table_of_kind (fold record_address es t) = table_of_kind t" "table_of_kind (fold remove_address es t) = table_of_kind t"
    by (induction es arbitrary: t) simp_all
qed

lemma kind_entries [simp]: "table_of_kind (t\<lparr>it_entries := es\<rparr>) = table_of_kind t"
  "table_of_kind (t\<lparr>it_addressEntries := as\<rparr>) = table_of_kind t"
  by (simp_all add: table_of_kind_def)

lemma run_op_kind: "table_of_kind (fst (run_op op t)) = table_of_kind t"
  by (cases op) (simp_all add: table_AddEndpoint_def table_RemoveEndpoint_def table_SetRoutes_def table_Swap_def Let_def
      split_beta addresses_kind split: option.split)

text \<open>
  C24. The routing tables keep their types. In a table made by \<open>NewRoutingTable\<close>, after any sequence of operations on
  well typed LRPs and tables, every key occurs once, every endpoint is stored under its own key and
  in the entry of its container port, all ports are 32 bit unsigned and all indices and instance counts 32 bit signed values.
\<close>

theorem tables_typed:
  assumes "t \<in> {rt_http (NewRoutingTable direct tls), rt_tcp (NewRoutingTable direct tls), rt_internal (NewRoutingTable direct tls)}"
    and "list_all op_typed ops"
  shows "table_typed (it_entries (fst (run_ops ops t)))"
proof -
  have start: "table_of_kind t" "table_typed (it_entries t)"
    using assms(1) by (cases tls; auto simp: NewRoutingTable_def new_table_def table_of_kind_def table_typed_def)+
  have "table_typed (it_entries (fst (run_ops ops u)))" if "list_all op_typed ops" "table_of_kind u" "table_typed (it_entries u)" for ops u
    using that
  proof (induction ops arbitrary: u)
    case (Cons op ops)
    have "table_typed (it_entries (fst (run_ops ops (fst (run_op op u)))))"
      by (rule Cons.IH) (use Cons.prems run_op_typed run_op_kind in auto)
    then show ?case by (simp add: Let_def split_beta)
  qed simp
  from this [OF assms(2) start] show ?thesis .
qed

theorem tables_typed_witness:
  "it_entries (fst (run_ops demo_ops (rt_http (NewRoutingTable True False)))) \<noteq> []
   \<and> table_typed (it_entries (fst (run_ops demo_ops (rt_http (NewRoutingTable True False)))))"
proof -
  have "list_all op_typed demo_ops"
    by (simp add: demo_ops_def demo_routed_def demo_actual_def desired_typed_def lrp_typed_def port_typed_def is_i32_def
        NewActualLRPKey_def)
  moreover have "it_entries (fst (run_ops demo_ops (rt_http (NewRoutingTable True False)))) \<noteq> []" by code_simp
  ultimately show ?thesis
    using tables_typed [of "rt_http (NewRoutingTable True False)" True False demo_ops] by simp
qed

end
