(* ===== verification/Route_Emitter.thy ===== *)
theory Route_Emitter
  imports Route_Build "HOL-Library.Countable"
begin

section \<open>Emitters and the unregistration cache (route-emitter/emitter, route-emitter/unregistration)\<close>

text \<open>
  The two emitters, for NATS and for the routing API, and the cache of unregistrations that a sender
  repeats. What they send is recorded in the order in which it goes out. The clients of NATS, of
  the UAA and of the routing API answer from the history of calls; \<open>json.Marshal\<close> of a message and the
  hash of the package \<open>hashstructure\<close> are functions of the environment. The jobs of
  one emission run in a work pool: \<open>ev_order\<close> is the order in which it runs them.
  Messages of the cache are shared, by reference, with the sender that counts how often it
  has sent them: the cache maps hashes to addresses of a store.
\<close>

subsection \<open>Environment and what has been sent\<close>

type_synonym job = "string \<times> RegistryMessage"

datatype api_call =
    FetchToken bool
  | UpsertTcpRouteMappings "TcpRouteMapping list"
  | DeleteTcpRouteMappings "TcpRouteMapping list"

record emit_env =
  ev_normalise :: "message \<Rightarrow> message option"
  ev_hash :: "RegistryMessage \<Rightarrow> string + int"
  ev_marshal :: "RegistryMessage \<Rightarrow> string + message"
  ev_publish :: "(string \<times> message) list \<Rightarrow> string option"
  ev_order :: "job list \<Rightarrow> job list"
  ev_emitInternalRoutes :: bool
  ev_api :: "api_call list \<Rightarrow> string option"
  ev_ttl :: int
  ev_localMode :: bool
  ev_tcpTLSEnabled :: bool

record emit_world =
  em_published :: "(string \<times> message) list"
  em_api :: "api_call list"
  em_metrics :: "(string \<times> int) list"

definition send_metric :: "string \<Rightarrow> int \<Rightarrow> emit_world \<Rightarrow> emit_world" where
  "send_metric name v w = w\<lparr>em_metrics := em_metrics w @ [(name, v)]\<rparr>"

subsection \<open>The NATS emitter\<close>

text \<open>
  One job. A message that cannot be marshalled is published as an empty payload all the same, and only an
  error of the publication is reported; the channel of errors holds the first one.
\<close>

definition payload_of :: "emit_env \<Rightarrow> RegistryMessage \<Rightarrow> message" where
  "payload_of env m = (case ev_marshal env m of Inl e \<Rightarrow> [] | Inr payload \<Rightarrow> payload)"

definition nats_emit :: "emit_env \<Rightarrow> job \<Rightarrow> emit_world \<times> string option \<Rightarrow> emit_world \<times> string option" where
  "nats_emit env = (\<lambda>(subject, message) (w, error).
     let published = em_published w @ [(subject, payload_of env message)]
     in (w\<lparr>em_published := published\<rparr>,
         case error of None \<Rightarrow> ev_publish env published | Some e \<Rightarrow> Some e))"

definition nats_jobs :: "bool \<Rightarrow> MessagesToEmit \<Rightarrow> job list" where
  "nats_jobs emitInternalRoutes m =
     map (Pair ''router.register'') (me_RegistrationMessages m)
     @ map (Pair ''router.unregister'') (me_UnregistrationMessages m)
     @ (if emitInternalRoutes
        then map (Pair ''service-discovery.register'') (me_InternalRegistrationMessages m)
             @ map (Pair ''service-discovery.unregister'') (me_InternalUnregistrationMessages m)
        else [])"

definition nats_Emit :: "emit_env \<Rightarrow> MessagesToEmit \<Rightarrow> emit_world \<Rightarrow> emit_world \<times> string option" where
  "nats_Emit env m w =
     (let (w, error) = fold (nats_emit env) (ev_order env (nats_jobs (ev_emitInternalRoutes env) m)) (w, None);
          http = int (length (me_RegistrationMessages m) + length (me_UnregistrationMessages m));
          internal = int (length (me_InternalRegistrationMessages m) + length (me_InternalUnregistrationMessages m))
      in case error of
           Some e \<Rightarrow> (w, Some e)
         | None \<Rightarrow>
             let w = send_metric ''HTTPRouteNATSMessagesEmitted'' http w
             in (if ev_emitInternalRoutes env then send_metric ''InternalRouteNATSMessagesEmitted'' internal w else w, None))"

subsection \<open>The routing API emitter\<close>

definition api_call :: "emit_env \<Rightarrow> api_call \<Rightarrow> emit_world \<Rightarrow> emit_world \<times> string option" where
  "api_call env c w = (let calls = em_api w @ [c] in (w\<lparr>em_api := calls\<rparr>, ev_api env calls))"

definition emitRoutingAPI ::
  "emit_env \<Rightarrow> TcpRouteMapping list \<Rightarrow> TcpRouteMapping list \<Rightarrow> emit_world \<Rightarrow> emit_world \<times> string option" where
  "emitRoutingAPI env regMsgs unregMsgs w =
     (let set_ttl = map (\<lambda>m. m\<lparr>tm_TTL := ev_ttl env\<rparr>);
          (w, error) = (if regMsgs \<noteq> [] then api_call env (UpsertTcpRouteMappings (set_ttl regMsgs)) w else (w, None))
      in case error of
           Some e \<Rightarrow> (w, Some e)
         | None \<Rightarrow> if unregMsgs \<noteq> [] then api_call env (DeleteTcpRouteMappings (set_ttl unregMsgs)) w else (w, None))"

text \<open>The loop of \<open>emit\<close> over its counts, 0 and 1.\<close>

fun api_attempts ::
  "emit_env \<Rightarrow> TcpRouteMapping list \<Rightarrow> TcpRouteMapping list \<Rightarrow> nat list \<Rightarrow> emit_world \<Rightarrow> emit_world \<times> string option" where
  "api_attempts env regMsgs unregMsgs [] w = (w, None)"
| "api_attempts env regMsgs unregMsgs (n # counts) w =
     (case api_call env (FetchToken (n > 0)) w of
        (w, Some e) \<Rightarrow> (w, Some e)
      | (w, None) \<Rightarrow>
          (case emitRoutingAPI env regMsgs unregMsgs w of
             (w, None) \<Rightarrow> (w, None)
           | (w, Some e) \<Rightarrow>
               if n > 0 then (w, Some e) else api_attempts env regMsgs unregMsgs counts w))"

definition api_Emit :: "emit_env \<Rightarrow> TCPRouteMappings \<Rightarrow> emit_world \<Rightarrow> emit_world \<times> string option" where
  "api_Emit env m w =
     (if tms_Registrations m = [] \<and> tms_Unregistrations m = [] then (w, None)
      else api_attempts env (tms_Registrations m) (tms_Unregistrations m) [0, 1] w)"

subsection \<open>The unregistration cache\<close>

record Message =
  ms_RegistryMessage :: RegistryMessage
  ms_SentCount :: int

record cache =
  ca_messages :: "(int \<times> nat) list"
  ca_heap :: "Message list"

definition NewCache :: cache where
  "NewCache = \<lparr>ca_messages = [], ca_heap = []\<rparr>"

fun cache_Add :: "emit_env \<Rightarrow> RegistryMessage list \<Rightarrow> cache \<Rightarrow> cache \<times> string option" where
  "cache_Add env [] c = (c, None)"
| "cache_Add env (m # ms) c =
     (case ev_hash env m of
        Inl e \<Rightarrow> (c, Some e)
      | Inr h \<Rightarrow> cache_Add env ms
          \<lparr>ca_messages = AList.update h (length (ca_heap c)) (ca_messages c),
           ca_heap = ca_heap c @ [\<lparr>ms_RegistryMessage = m, ms_SentCount = 0\<rparr>]\<rparr>)"

fun cache_Remove :: "emit_env \<Rightarrow> RegistryMessage list \<Rightarrow> cache \<Rightarrow> cache \<times> string option" where
  "cache_Remove env [] c = (c, None)"
| "cache_Remove env (m # ms) c =
     (case ev_hash env m of
        Inl e \<Rightarrow> (c, Some e)
      | Inr h \<Rightarrow> cache_Remove env ms (c\<lparr>ca_messages := AList.delete h (ca_messages c)\<rparr>))"

definition cache_List :: "cache \<Rightarrow> nat list" where
  "cache_List c = map snd (ca_messages c)"

subsection \<open>The unregistration sender\<close>

definition unregister_only :: "RegistryMessage \<Rightarrow> MessagesToEmit" where
  "unregister_only m = no_messages\<lparr>me_UnregistrationMessages := [m]\<rparr>"

text \<open>One message of a tick: sent, counted, and dropped when it has been sent often enough.\<close>

definition sender_send :: "emit_env \<Rightarrow> int \<Rightarrow> nat \<Rightarrow> cache \<times> emit_world \<Rightarrow> cache \<times> emit_world" where
  "sender_send env sendCount a = (\<lambda>(c, w).
     let message = ca_heap c ! a;
         (w, error) = nats_Emit env (unregister_only (ms_RegistryMessage message)) w;
         message = message\<lparr>ms_SentCount := ms_SentCount message + 1\<rparr>;
         c = c\<lparr>ca_heap := (ca_heap c)[a := message]\<rparr>
     in if ms_SentCount message = sendCount
        then (fst (cache_Remove env [ms_RegistryMessage message] c), w) else (c, w))"

definition sender_tick :: "emit_env \<Rightarrow> int \<Rightarrow> cache \<times> emit_world \<Rightarrow> cache \<times> emit_world" where
  "sender_tick env sendCount = (\<lambda>(c, w). fold (sender_send env sendCount) (cache_List c) (c, w))"

subsection \<open>What the emitters promise\<close>

text \<open>The work pool runs every job once, and a hash is the same exactly for messages to the same address and URIs.\<close>

definition pool_ok :: "emit_env \<Rightarrow> bool" where
  "pool_ok env \<longleftrightarrow> (\<forall>jobs. mset (ev_order env jobs) = mset jobs)"

definition target_of :: "RegistryMessage \<Rightarrow> string \<times> int \<times> int \<times> string list \<times> string" where
  "target_of m = (rm_Host m, rm_Port m, rm_TlsPort m, rm_URIs m, rm_Protocol m)"

definition hash_ok :: "emit_env \<Rightarrow> bool" where
  "hash_ok env \<longleftrightarrow> (\<forall>m. \<not> isl (ev_hash env m)) \<and> (\<forall>m m'. ev_hash env m = ev_hash env m' \<longleftrightarrow> target_of m = target_of m')"

definition published_job :: "emit_env \<Rightarrow> job \<Rightarrow> string \<times> message" where
  "published_job env = (\<lambda>(subject, m). (subject, payload_of env m))"

lemma nats_emit_step:
  assumes "nats_emit env j (w, error) = (w', error')"
  shows "em_published w' = em_published w @ [published_job env j]" and "em_api w' = em_api w"
    and "error' = None \<longleftrightarrow> error = None \<and> ev_publish env (em_published w @ [published_job env j]) = None"
  using assms by (auto simp: nats_emit_def published_job_def split_beta Let_def split: option.splits)

lemma nats_fold:
  assumes "fold (nats_emit env) jobs (w, error) = (w', error')"
  shows "em_published w' = em_published w @ map (published_job env) jobs \<and> em_api w' = em_api w
    \<and> (error' = None \<longleftrightarrow> error = None \<and>
       (\<forall>n < length jobs. ev_publish env (em_published w @ map (published_job env) (take (Suc n) jobs)) = None))"
  using assms
proof (induction jobs arbitrary: w error)
  case (Cons j js)
  obtain w1 e1 where s: "nats_emit env j (w, error) = (w1, e1)" by fastforce
  note step = nats_emit_step [OF s]
  have "fold (nats_emit env) js (w1, e1) = (w', error')" using Cons.prems by (simp add: s)
  from Cons.IH [OF this] step show ?case by (auto simp: All_less_Suc2)
qed simp

lemma nats_Emit_published:
  "em_published (fst (nats_Emit env m w))
   = em_published w @ map (published_job env) (ev_order env (nats_jobs (ev_emitInternalRoutes env) m))
   \<and> em_api (fst (nats_Emit env m w)) = em_api w
   \<and> (snd (nats_Emit env m w) = None \<longleftrightarrow>
      (\<forall>n < length (ev_order env (nats_jobs (ev_emitInternalRoutes env) m)).
        ev_publish env (em_published w @ map (published_job env)
          (take (Suc n) (ev_order env (nats_jobs (ev_emitInternalRoutes env) m)))) = None))"
proof -
  let ?jobs = "ev_order env (nats_jobs (ev_emitInternalRoutes env) m)"
  obtain w' error where f: "fold (nats_emit env) ?jobs (w, None) = (w', error)" by fastforce
  have res: "em_published (fst (nats_Emit env m w)) = em_published w'" "em_api (fst (nats_Emit env m w)) = em_api w'"
    "snd (nats_Emit env m w) = error"
    by (simp_all add: nats_Emit_def f Let_def send_metric_def split: option.split)
  from nats_fold [OF f] show ?thesis unfolding res by (simp only: simp_thms)
qed


text \<open>The calls of a successful attempt.\<close>

definition api_expected :: "emit_env \<Rightarrow> TCPRouteMappings \<Rightarrow> api_call list" where
  "api_expected env m =
     (if tms_Registrations m \<noteq> [] then [UpsertTcpRouteMappings (map (\<lambda>x. x\<lparr>tm_TTL := ev_ttl env\<rparr>) (tms_Registrations m))] else [])
     @ (if tms_Unregistrations m \<noteq> [] then [DeleteTcpRouteMappings (map (\<lambda>x. x\<lparr>tm_TTL := ev_ttl env\<rparr>) (tms_Unregistrations m))] else [])"

definition is_fetch :: "api_call \<Rightarrow> bool" where
  "is_fetch c = (case c of FetchToken f \<Rightarrow> True | _ \<Rightarrow> False)"

lemma emitRoutingAPI_calls:
  assumes "emitRoutingAPI env regs unregs w = (w', r)" and "m = \<lparr>tms_Registrations = regs, tms_Unregistrations = unregs\<rparr>"
  obtains calls where "em_api w' = em_api w @ calls" "\<forall>c \<in> set calls. \<not> is_fetch c" "em_published w' = em_published w"
    "r = None \<Longrightarrow> calls = api_expected env m \<and> (\<forall>n < length calls. ev_api env (em_api w @ take (Suc n) calls) = None)"
proof -
  let ?calls = "drop (length (em_api w)) (em_api w')"
  have "em_api w' = em_api w @ ?calls" "\<forall>c \<in> set ?calls. \<not> is_fetch c" "em_published w' = em_published w"
    "r = None \<Longrightarrow> ?calls = api_expected env m \<and> (\<forall>n < length ?calls. ev_api env (em_api w @ take (Suc n) ?calls) = None)"
    using assms by (auto simp: emitRoutingAPI_def api_call_def Let_def is_fetch_def api_expected_def numeral_2_eq_2 less_Suc_eq
        split: if_splits option.splits)
  then show ?thesis by (rule that)
qed

text \<open>
  C32. The routing API emitter makes at most two attempts, each with a token of its own, the second one
  forced to be new. When it reports success, its last calls register all the mappings and then
  unregister all the others, with the configured time to live, and the API has
  answered each of them without an error.
\<close>

theorem api_Emit_attempts:
  assumes "api_Emit env m w = (w', r)"
  shows "\<exists>calls. em_api w' = em_api w @ calls \<and> length (filter is_fetch calls) \<le> 2
    \<and> (r = None \<longrightarrow> api_expected env m = [] \<and> calls = []
         \<or> (\<exists>start f. calls = start @ FetchToken f # api_expected env m
              \<and> (\<forall>n < length (api_expected env m).
                   ev_api env (em_api w @ start @ FetchToken f # take (Suc n) (api_expected env m)) = None)))"
proof (cases "tms_Registrations m = [] \<and> tms_Unregistrations m = []")
  case True
  then show ?thesis using assms by (simp add: api_Emit_def api_expected_def)
next
  case False
  let ?regs = "tms_Registrations m" and ?unregs = "tms_Unregistrations m"
  obtain w1 r1 where f1: "api_call env (FetchToken False) w = (w1, r1)" by fastforce
  have w1: "em_api w1 = em_api w @ [FetchToken False]" using f1 by (auto simp: api_call_def Let_def)
  have m: "m = \<lparr>tms_Registrations = ?regs, tms_Unregistrations = ?unregs\<rparr>" by simp
  have loop: "api_attempts env ?regs ?unregs [0, 1] w = (w', r)" using assms False by (simp add: api_Emit_def)
  show ?thesis
  proof (cases r1)
    case (Some e)
    then show ?thesis using loop f1 w1 by (auto simp: is_fetch_def)
  next
    case None
    obtain w2 r2 where e1: "emitRoutingAPI env ?regs ?unregs w1 = (w2, r2)" by fastforce
    obtain calls where c1: "em_api w2 = em_api w1 @ calls" "\<forall>c \<in> set calls. \<not> is_fetch c"
      "r2 = None \<Longrightarrow> calls = api_expected env m \<and> (\<forall>n < length calls. ev_api env (em_api w1 @ take (Suc n) calls) = None)"
      using emitRoutingAPI_calls [OF e1 m] by metis
    have nf: "filter is_fetch calls = []" using c1(2) by simp
    show ?thesis
    proof (cases r2)
      case None2: None
      then have "w' = w2" "r = None" using loop f1 None e1 by auto
      then show ?thesis using c1(1) c1(3) [OF None2] nf
        by (intro exI [of _ "FetchToken False # calls"]) (auto simp: w1 is_fetch_def intro!: exI [of _ "[]"])
    next
      case (Some e)
      obtain w3 r3 where f2: "api_call env (FetchToken True) w2 = (w3, r3)" by fastforce
      have w3: "em_api w3 = em_api w2 @ [FetchToken True]" using f2 by (auto simp: api_call_def Let_def)
      show ?thesis
      proof (cases r3)
        case (Some e')
        then have "w' = w3" "r = Some e'" using loop f1 None e1 \<open>r2 = Some e\<close> f2 by auto
        then show ?thesis using c1(1) nf
          by (intro exI [of _ "FetchToken False # calls @ [FetchToken True]"]) (auto simp: w1 w3 is_fetch_def)
      next
        case None3: None
        obtain w4 r4 where e2: "emitRoutingAPI env ?regs ?unregs w3 = (w4, r4)" by fastforce
        obtain calls' where c2: "em_api w4 = em_api w3 @ calls'" "\<forall>c \<in> set calls'. \<not> is_fetch c"
          "r4 = None \<Longrightarrow> calls' = api_expected env m \<and> (\<forall>n < length calls'. ev_api env (em_api w3 @ take (Suc n) calls') = None)"
          using emitRoutingAPI_calls [OF e2 m] by metis
        have nf': "filter is_fetch calls' = []" using c2(2) by simp
        have "w' = w4" "r = r4" using loop f1 None e1 \<open>r2 = Some e\<close> f2 None3 e2 by (auto split: option.splits)
        then show ?thesis using c1(1) c2(1,3) nf nf'
          by (intro exI [of _ "FetchToken False # calls @ FetchToken True # calls'"])
            (auto simp: w1 w3 is_fetch_def intro!: exI [of _ "FetchToken False # calls"])
      qed
    qed
  qed
qed

subsection \<open>What the sender promises\<close>

text \<open>
  A cache is well formed when its entries refer to different messages of the store, each under
  the hash of its message. A hash occurs once, as it is a map.
\<close>

definition entry_ok :: "emit_env \<Rightarrow> Message list \<Rightarrow> int \<times> nat \<Rightarrow> bool" where
  "entry_ok env heap = (\<lambda>(h, a). a < length heap \<and> ev_hash env (ms_RegistryMessage (heap ! a)) = Inr h)"

definition cache_ok :: "emit_env \<Rightarrow> cache \<Rightarrow> bool" where
  "cache_ok env c \<longleftrightarrow> distinct (map fst (ca_messages c)) \<and> distinct (map snd (ca_messages c))
     \<and> list_all (entry_ok env (ca_heap c)) (ca_messages c)"

lemma update_addresses: "snd ` set (AList.update h v m) \<subseteq> insert v (snd ` set m)"
  using set_update_subset [of h v m] by auto

lemma update_distinct_addresses:
  "distinct (map snd m) \<Longrightarrow> v \<notin> snd ` set m \<Longrightarrow> distinct (map snd (AList.update h v m))"
proof (induction m)
  case (Cons p m)
  have "snd p \<noteq> v" "snd p \<notin> snd ` set m" using Cons.prems by auto
  then have "snd p \<notin> snd ` set (AList.update h v m)" using update_addresses [of h v m] by blast
  with Cons show ?case by (cases p) simp
qed simp

lemma cache_Add_ok: "cache_ok env c \<Longrightarrow> cache_ok env (fst (cache_Add env ms c))"
proof (induction ms arbitrary: c)
  case (Cons m ms)
  show ?case
  proof (cases "ev_hash env m")
    case (Inr h)
    let ?c = "\<lparr>ca_messages = AList.update h (length (ca_heap c)) (ca_messages c),
      ca_heap = ca_heap c @ [\<lparr>ms_RegistryMessage = m, ms_SentCount = 0\<rparr>]\<rparr>"
    have "length (ca_heap c) \<notin> snd ` set (ca_messages c)"
      using Cons.prems by (auto simp: cache_ok_def entry_ok_def list_all_iff)
    then have "cache_ok env ?c"
      using Cons.prems Inr set_update_subset [of h "length (ca_heap c)" "ca_messages c"]
      by (auto simp: cache_ok_def distinct_update update_distinct_addresses list_all_iff entry_ok_def nth_append)
    from Cons.IH [OF this] Inr show ?thesis by simp
  qed (use Cons.prems in simp)
qed simp

lemma cache_Remove_ok: "cache_ok env c \<Longrightarrow> cache_ok env (fst (cache_Remove env ms c))"
proof (induction ms arbitrary: c)
  case (Cons m ms)
  show ?case
  proof (cases "ev_hash env m")
    case (Inr h)
    have "cache_ok env (c\<lparr>ca_messages := AList.delete h (ca_messages c)\<rparr>)"
      using Cons.prems by (auto simp: cache_ok_def AList.delete_eq distinct_map_filter list_all_iff)
    from Cons.IH [OF this] Inr show ?thesis by simp
  qed (use Cons.prems in simp)
qed simp

text \<open>The message of an address is published once by a send, and counted.\<close>

definition bump :: "Message \<Rightarrow> Message" where
  "bump m = m\<lparr>ms_SentCount := ms_SentCount m + 1\<rparr>"

definition unregistration :: "emit_env \<Rightarrow> RegistryMessage \<Rightarrow> string \<times> message" where
  "unregistration env m = (''router.unregister'', payload_of env m)"

lemma sender_send_step:
  assumes "pool_ok env" and "ev_hash env (ms_RegistryMessage (ca_heap c ! a)) = Inr h"
    and "sender_send env n a (c, w) = (c', w')"
  shows "em_published w' = em_published w @ [unregistration env (ms_RegistryMessage (ca_heap c ! a))]"
    and "ca_heap c' = (ca_heap c)[a := bump (ca_heap c ! a)]"
    and "ca_messages c' = (if ms_SentCount (ca_heap c ! a) + 1 = n then AList.delete h (ca_messages c) else ca_messages c)"
proof -
  let ?m = "ms_RegistryMessage (ca_heap c ! a)"
  have "mset (ev_order env [j]) = mset [j]" for j using assms(1) by (simp add: pool_ok_def)
  then have one: "ev_order env [j] = [j]" for j by (metis mset_single_iff_right mset.simps)
  have jobs: "nats_jobs i (unregister_only m) = [(''router.unregister'', m)]" for i m
    by (simp add: nats_jobs_def unregister_only_def no_messages_def)
  obtain w1 r where e: "nats_Emit env (unregister_only ?m) w = (w1, r)" by fastforce
  have "em_published w1 = em_published w @ [unregistration env ?m]"
    using nats_Emit_published [of env "unregister_only ?m" w]
    by (simp add: e jobs one published_job_def unregistration_def)
  then show "em_published w' = em_published w @ [unregistration env ?m]"
    and "ca_heap c' = (ca_heap c)[a := bump (ca_heap c ! a)]"
    and "ca_messages c' = (if ms_SentCount (ca_heap c ! a) + 1 = n then AList.delete h (ca_messages c) else ca_messages c)"
    using assms(2,3) by (auto simp: sender_send_def e Let_def bump_def split: if_splits)
qed

lemma bump_message [simp]: "ms_RegistryMessage (bump m) = ms_RegistryMessage m"
  by (simp add: bump_def)

lemma bump_count [simp]: "ms_SentCount (bump m) = ms_SentCount m + 1"
  by (simp add: bump_def)

lemma entry_ok_bump: "entry_ok env (heap[a := bump (heap ! a)]) = entry_ok env heap"
  by (cases "a < length heap") (auto simp: entry_ok_def fun_eq_iff nth_list_update)

text \<open>A tick, when all the messages it lists have been sent the same number of times.\<close>

lemma sender_sends:
  assumes "pool_ok env" and "distinct (map fst ms)" and "distinct (map snd ms)" and "list_all (entry_ok env (ca_heap c)) ms"
    and "\<forall>(h, a) \<in> set ms. ms_SentCount (ca_heap c ! a) = j"
    and "fold (sender_send env n) (map snd ms) (c, w) = (c', w')"
  shows "em_published w' = em_published w @ map (\<lambda>(h, a). unregistration env (ms_RegistryMessage (ca_heap c ! a))) ms
    \<and> ca_messages c' = (if j + 1 = n then filter (\<lambda>(h, a). h \<notin> fst ` set ms) (ca_messages c) else ca_messages c)
    \<and> length (ca_heap c') = length (ca_heap c)
    \<and> (\<forall>a < length (ca_heap c). ca_heap c' ! a = (if a \<in> snd ` set ms then bump (ca_heap c ! a) else ca_heap c ! a))"
  using assms(2-6)
proof (induction ms arbitrary: c w)
  case Nil
  then show ?case by (simp add: filter_True split_beta)
next
  case (Cons ha ms)
  obtain h a where ha: "ha = (h, a)" by (cases ha)
  obtain c1 w1 where s: "sender_send env n a (c, w) = (c1, w1)" by fastforce
  have a: "a < length (ca_heap c)" "ev_hash env (ms_RegistryMessage (ca_heap c ! a)) = Inr h" "ms_SentCount (ca_heap c ! a) = j"
    using Cons.prems by (auto simp: ha entry_ok_def)
  note step = sender_send_step [OF assms(1) a(2) s]
  have other: "b \<noteq> a" if "(h', b) \<in> set ms" for h' b using Cons.prems(2) imageI [OF that, of snd] by (auto simp: ha)
  have same: "ca_heap c1 ! b = ca_heap c ! b" if "b \<noteq> a" for b using that by (simp add: step(2))
  have IH: "em_published w' = em_published w1 @ map (\<lambda>(h, a). unregistration env (ms_RegistryMessage (ca_heap c1 ! a))) ms
    \<and> ca_messages c' = (if j + 1 = n then filter (\<lambda>(h, a). h \<notin> fst ` set ms) (ca_messages c1) else ca_messages c1)
    \<and> length (ca_heap c') = length (ca_heap c1)
    \<and> (\<forall>a < length (ca_heap c1). ca_heap c' ! a = (if a \<in> snd ` set ms then bump (ca_heap c1 ! a) else ca_heap c1 ! a))"
  proof (rule Cons.IH)
    show "distinct (map fst ms)" "distinct (map snd ms)" using Cons.prems(1,2) by simp_all
    show "list_all (entry_ok env (ca_heap c1)) ms" using Cons.prems(3) by (simp add: step(2) entry_ok_bump)
    show "\<forall>(h, a) \<in> set ms. ms_SentCount (ca_heap c1 ! a) = j" using Cons.prems(4) other same by fastforce
    show "fold (sender_send env n) (map snd ms) (c1, w1) = (c', w')" using Cons.prems(5) by (simp add: ha s)
  qed
  have payloads: "map (\<lambda>(h, a). unregistration env (ms_RegistryMessage (ca_heap c1 ! a))) ms
      = map (\<lambda>(h, a). unregistration env (ms_RegistryMessage (ca_heap c ! a))) ms"
    using other same by (intro map_cong) auto
  have "a \<notin> snd ` set ms" using Cons.prems(2) by (simp add: ha)
  then have heap: "\<forall>b < length (ca_heap c). ca_heap c' ! b = (if b \<in> snd ` set (ha # ms) then bump (ca_heap c ! b) else ca_heap c ! b)"
    using IH a(1) by (auto simp: step(2) ha nth_list_update)
  have "filter (\<lambda>(h', b). h' \<notin> fst ` set ms) (AList.delete h (ca_messages c)) = filter (\<lambda>(h', b). h' \<notin> fst ` set (ha # ms)) (ca_messages c)"
    unfolding AList.delete_eq ha filter_filter by (rule filter_cong [OF refl]) (simp add: split_beta, blast)
  then have msgs: "ca_messages c' = (if j + 1 = n then filter (\<lambda>(h, a). h \<notin> fst ` set (ha # ms)) (ca_messages c) else ca_messages c)"
    using IH step(3) a(3) by simp
  have len: "length (ca_heap c') = length (ca_heap c)" using IH by (simp add: step(2))
  have "em_published w' = em_published w @ map (\<lambda>(h, a). unregistration env (ms_RegistryMessage (ca_heap c ! a))) (ha # ms)"
    using IH step(1) payloads by (simp add: ha)
  with msgs heap len show ?case by blast
qed

text \<open>All the messages of a cache have been sent \<open>j\<close> times.\<close>

definition all_sent :: "int \<Rightarrow> cache \<Rightarrow> bool" where
  "all_sent j c \<longleftrightarrow> list_all (\<lambda>(h, a). ms_SentCount (ca_heap c ! a) = j) (ca_messages c)"

definition repeated :: "emit_env \<Rightarrow> cache \<Rightarrow> (string \<times> message) list" where
  "repeated env c = map (\<lambda>(h, a). unregistration env (ms_RegistryMessage (ca_heap c ! a))) (ca_messages c)"

lemma sender_tick_step:
  assumes "pool_ok env" and "cache_ok env c" and "all_sent j c" and "sender_tick env n (c, w) = (c', w')"
  shows "em_published w' = em_published w @ repeated env c"
    and "j + 1 = n \<Longrightarrow> ca_messages c' = []"
    and "j + 1 \<noteq> n \<Longrightarrow> cache_ok env c' \<and> all_sent (j + 1) c' \<and> repeated env c' = repeated env c"
proof -
  let ?ms = "ca_messages c"
  have ms: "distinct (map fst ?ms)" "distinct (map snd ?ms)" "list_all (entry_ok env (ca_heap c)) ?ms"
    "\<forall>(h, a) \<in> set ?ms. ms_SentCount (ca_heap c ! a) = j"
    using assms(2,3) by (simp_all add: cache_ok_def all_sent_def list_all_iff)
  have "fold (sender_send env n) (map snd ?ms) (c, w) = (c', w')"
    using assms(4) by (simp add: sender_tick_def cache_List_def)
  note step = sender_sends [OF assms(1) ms this]
  have heap: "ca_heap c' ! a = bump (ca_heap c ! a)" "a < length (ca_heap c)" if "(h, a) \<in> set ?ms" for h a
  proof -
    show a: "a < length (ca_heap c)" using ms(3) that by (auto simp: list_all_iff entry_ok_def)
    have "a \<in> snd ` set ?ms" using imageI [OF that, of snd] by simp
    then show "ca_heap c' ! a = bump (ca_heap c ! a)" using step a by simp
  qed
  show "em_published w' = em_published w @ repeated env c" using step by (simp add: repeated_def)
  show "j + 1 = n \<Longrightarrow> ca_messages c' = []" using step by (simp add: split_beta)
  assume "j + 1 \<noteq> n"
  then have msgs: "ca_messages c' = ?ms" using step by simp
  have "list_all (entry_ok env (ca_heap c')) ?ms"
    using ms(3) heap step by (auto simp: list_all_iff entry_ok_def)
  moreover have "repeated env c' = repeated env c"
    unfolding repeated_def msgs by (rule map_cong) (use heap in auto)
  ultimately show "cache_ok env c' \<and> all_sent (j + 1) c' \<and> repeated env c' = repeated env c"
    using ms heap by (auto simp: cache_ok_def all_sent_def msgs list_all_iff)
qed

lemma sender_ticks:
  assumes "pool_ok env" and "cache_ok env c" and "all_sent j c" and "j < n"
    and "(sender_tick env n ^^ k) (c, w) = (c', w')"
  shows "em_published w' = em_published w @ concat (replicate (min k (nat (n - j))) (repeated env c))
    \<and> (ca_messages c' = [] \<longleftrightarrow> ca_messages c = [] \<or> n - j \<le> int k)"
  using assms(2-5)
proof (induction k arbitrary: j c w)
  case 0
  then show ?case by auto
next
  case (Suc k)
  obtain c1 w1 where s: "sender_tick env n (c, w) = (c1, w1)" by fastforce
  have rest: "(sender_tick env n ^^ k) (c1, w1) = (c', w')" using Suc.prems(4) by (simp add: funpow_swap1 s)
  note step = sender_tick_step [OF assms(1) Suc.prems(1,2) s]
  show ?case
  proof (cases "j + 1 = n")
    case True
    have idle: "(sender_tick env n ^^ k) (c1, w1) = (c1, w1)"
      using step(2) [OF True] by (induction k) (simp_all add: sender_tick_def cache_List_def)
    have "nat (n - j) = Suc 0" using True by simp
    with idle show ?thesis using rest step(1,2) True by simp
  next
    case False
    then have next1: "cache_ok env c1" "all_sent (j + 1) c1" "repeated env c1 = repeated env c" "j + 1 < n"
      using step(3) Suc.prems(3) by auto
    have "ca_messages c1 = [] \<longleftrightarrow> ca_messages c = []"
      using next1(3) by (metis repeated_def map_is_Nil_conv)
    moreover have "nat (n - j) = Suc (nat (n - (j + 1)))" using next1(4) by simp
    ultimately show ?thesis
      using Suc.IH [OF next1(1,2,4) rest] step(1) next1(3) by auto
  qed
qed

text \<open>
  C30. Every cached unregistration is sent again exactly as often as configured. From a cache of new
  messages, and with nothing added or removed meanwhile, every tick of the sender publishes
  one unregistration for each of them, until each has been sent \<open>sendCount\<close> times; then the cache is
  empty and later ticks publish nothing.
\<close>

theorem sender_repeats:
  assumes "pool_ok env" and "cache_ok env c" and "all_sent 0 c" and "0 < n"
    and "(sender_tick env n ^^ k) (c, w) = (c', w')"
  shows "em_published w' = em_published w @ concat (replicate (min k (nat n)) (repeated env c))
    \<and> (ca_messages c' = [] \<longleftrightarrow> ca_messages c = [] \<or> n \<le> int k)"
  using sender_ticks [OF assms] by simp

text \<open>
  The sender among the other users of the cache. A state is the cache and the messages that the
  current tick still has to send; additions and removals happen between any two sends.
\<close>

inductive cache_step :: "emit_env \<Rightarrow> int \<Rightarrow> cache \<times> nat list \<Rightarrow> cache \<times> nat list \<Rightarrow> bool" for env n where
  add: "cache_step env n (c, pending) (fst (cache_Add env ms c), pending)"
| remove: "cache_step env n (c, pending) (fst (cache_Remove env ms c), pending)"
| tick: "cache_step env n (c, []) (c, cache_List c)"
| send: "cache_step env n (c, a # pending) (fst (sender_send env n a (c, w)), pending)"

definition sender_ok :: "emit_env \<Rightarrow> int \<Rightarrow> cache \<times> nat list \<Rightarrow> bool" where
  "sender_ok env n = (\<lambda>(c, pending). cache_ok env c \<and> distinct pending
     \<and> (\<forall>a \<in> set pending \<union> snd ` set (ca_messages c). a < length (ca_heap c) \<and> ms_SentCount (ca_heap c ! a) < n)
     \<and> (\<forall>m \<in> set (ca_heap c). 0 \<le> ms_SentCount m \<and> ms_SentCount m \<le> n))"

lemma sender_okD:
  assumes "sender_ok env n (c, pending)"
  shows "cache_ok env c" and "distinct pending"
    and "\<And>a. a \<in> set pending \<Longrightarrow> a < length (ca_heap c) \<and> ms_SentCount (ca_heap c ! a) < n"
    and "\<And>a. a \<in> snd ` set (ca_messages c) \<Longrightarrow> a < length (ca_heap c) \<and> ms_SentCount (ca_heap c ! a) < n"
    and "\<And>m. m \<in> set (ca_heap c) \<Longrightarrow> 0 \<le> ms_SentCount m \<and> ms_SentCount m \<le> n"
  using assms unfolding sender_ok_def by auto

lemma sender_ok_Add: "sender_ok env n (c, pending) \<Longrightarrow> 0 < n \<Longrightarrow> sender_ok env n (fst (cache_Add env ms c), pending)"
proof (induction ms arbitrary: c)
  case (Cons m ms)
  show ?case
  proof (cases "ev_hash env m")
    case (Inr h)
    note ok = sender_okD [OF Cons.prems(1)]
    let ?c = "fst (cache_Add env [m] c)"
    have c: "?c = \<lparr>ca_messages = AList.update h (length (ca_heap c)) (ca_messages c),
        ca_heap = ca_heap c @ [\<lparr>ms_RegistryMessage = m, ms_SentCount = 0\<rparr>]\<rparr>"
      by (simp add: Inr)
    have "a < length (ca_heap ?c) \<and> ms_SentCount (ca_heap ?c ! a) < n" if "a \<in> set pending \<union> snd ` set (ca_messages ?c)" for a
    proof (cases "a = length (ca_heap c)")
      case False
      have "a \<in> set pending \<or> a \<in> snd ` set (AList.update h (length (ca_heap c)) (ca_messages c))"
        using that unfolding c cache.simps Un_iff .
      with False have "a \<in> set pending \<or> a \<in> snd ` set (ca_messages c)"
        using subsetD [OF update_addresses, of a h "length (ca_heap c)" "ca_messages c"] by (metis insertE)
      then have "a < length (ca_heap c)" "ms_SentCount (ca_heap c ! a) < n" using ok(3,4) by blast+
      then show ?thesis unfolding c by (simp add: nth_append)
    next
      case True
      then show ?thesis unfolding c using Cons.prems(2) by (simp add: nth_append)
    qed
    moreover have "0 \<le> ms_SentCount x \<and> ms_SentCount x \<le> n" if "x \<in> set (ca_heap ?c)" for x
      using that ok(5) Cons.prems(2) unfolding c by auto
    ultimately have "sender_ok env n (?c, pending)"
      using cache_Add_ok [OF ok(1), of "[m]"] ok(2) unfolding sender_ok_def by simp
    from Cons.IH [OF this Cons.prems(2)] show ?thesis by (simp add: Inr)
  qed (use Cons.prems in simp)
qed simp

lemma cache_Remove_subset:
  "ca_heap (fst (cache_Remove env ms c)) = ca_heap c \<and> set (ca_messages (fst (cache_Remove env ms c))) \<subseteq> set (ca_messages c)"
proof (induction ms arbitrary: c)
  case (Cons m ms)
  then show ?case
  proof (cases "ev_hash env m")
    case (Inr h)
    from Cons.IH [of "c\<lparr>ca_messages := AList.delete h (ca_messages c)\<rparr>"] show ?thesis
      by (auto simp: Inr AList.delete_eq)
  qed simp
qed simp

lemma sender_ok_Remove: "sender_ok env n (c, pending) \<Longrightarrow> sender_ok env n (fst (cache_Remove env ms c), pending)"
  using cache_Remove_subset [of env ms c] cache_Remove_ok [of env c ms] unfolding sender_ok_def by auto

lemma sender_ok_send:
  assumes "pool_ok env" and "hash_ok env" and "sender_ok env n (c, a # pending)"
  shows "sender_ok env n (fst (sender_send env n a (c, w)), pending)"
proof -
  obtain c' w' where s: "sender_send env n a (c, w) = (c', w')" by fastforce
  note ok = sender_okD [OF assms(3)]
  obtain h where h: "ev_hash env (ms_RegistryMessage (ca_heap c ! a)) = Inr h"
    using assms(2) unfolding hash_ok_def by (metis sum.collapse(2))
  note step = sender_send_step [OF assms(1) h s]
  have a: "a < length (ca_heap c)" "ms_SentCount (ca_heap c ! a) < n" using ok(3) by auto
  have "(h', b) \<in> set (ca_messages c)" if "(h', b) \<in> set (ca_messages c')" for h' b
    using that by (auto simp: step(3) AList.delete_eq split: if_splits)
  then have sub: "snd ` set (ca_messages c') \<subseteq> snd ` set (ca_messages c)" by force
  have gone: "a \<notin> snd ` set (ca_messages c')" if "ms_SentCount (ca_heap c ! a) + 1 = n"
    using that ok(1) h by (auto simp: step(3) AList.delete_eq cache_ok_def list_all_iff entry_ok_def)
  have "b < length (ca_heap c') \<and> ms_SentCount (ca_heap c' ! b) < n" if "b \<in> set pending \<union> snd ` set (ca_messages c')" for b
  proof (cases "b = a")
    case True
    then have "a \<in> snd ` set (ca_messages c')" using that ok(2) by auto
    then have "ms_SentCount (ca_heap c ! a) + 1 \<noteq> n" using gone by blast
    then show ?thesis using True a by (simp add: step(2))
  next
    case False
    have "b \<in> set (a # pending) \<or> b \<in> snd ` set (ca_messages c)"
      using that subsetD [OF sub, of b] by (metis UnE list.set_intros(2))
    then have "b < length (ca_heap c) \<and> ms_SentCount (ca_heap c ! b) < n" using ok(3,4) by blast
    with False show ?thesis by (simp add: step(2))
  qed
  moreover have "0 \<le> ms_SentCount m \<and> ms_SentCount m \<le> n" if "m \<in> set (ca_heap c')" for m
  proof -
    from that have "m \<in> insert (bump (ca_heap c ! a)) (set (ca_heap c))"
      using set_update_subset_insert unfolding step(2) by fast
    moreover have "0 \<le> ms_SentCount (ca_heap c ! a)" using ok(5) a(1) by simp
    ultimately show ?thesis using ok(5) a(2) by auto
  qed
  moreover have "cache_ok env c'"
    using ok(1) unfolding cache_ok_def step(2) entry_ok_bump step(3)
    by (auto simp: AList.delete_eq distinct_map_filter list_all_iff)
  ultimately show ?thesis using ok(2) unfolding s sender_ok_def by simp
qed


subsection \<open>An example\<close>

definition demo_hash :: "RegistryMessage \<Rightarrow> string + int" where
  "demo_hash m = Inr (int (to_nat (target_of m)))"

definition demo_emit :: "(RegistryMessage \<Rightarrow> string + int) \<Rightarrow> emit_env" where
  "demo_emit hash = \<lparr>ev_normalise = Some, ev_hash = hash, ev_marshal = \<lambda>m. Inr (concat (rm_URIs m)),
     ev_publish = \<lambda>published. None, ev_order = rev, ev_emitInternalRoutes = True,
     ev_api = \<lambda>calls. if length calls = 2 then Some ''expired'' else None, ev_ttl = 120,
     ev_localMode = True, ev_tcpTLSEnabled = False\<rparr>"

definition demo_world :: emit_world where
  "demo_world = \<lparr>em_published = [], em_api = [], em_metrics = []\<rparr>"

definition demo_message :: "string \<Rightarrow> RegistryMessage" where
  "demo_message uri = \<lparr>rm_Host = ''10.0.0.1'', rm_Port = 61000, rm_TlsPort = 0, rm_URIs = [uri], rm_Protocol = [], rm_App = ''log'',
     rm_RouteServiceUrl = [], rm_PrivateInstanceId = ''i0'', rm_PrivateInstanceIndex = ''0'', rm_ServerCertDomainSAN = ''i0'',
     rm_IsolationSegment = [], rm_EndpointUpdatedAtNs = 0, rm_Tags = [], rm_AvailabilityZone = ''z1'', rm_Options = []\<rparr>"

definition demo_messages :: MessagesToEmit where
  "demo_messages = no_messages\<lparr>me_RegistrationMessages := [demo_message ''a''], me_UnregistrationMessages := [demo_message ''b'']\<rparr>"

definition demo_mappings :: TCPRouteMappings where
  "demo_mappings = no_mappings\<lparr>tms_Registrations := [NewTcpRouteMapping ''g'' 1024 ''10.0.0.1'' 61000 (-1) [] None 0 False]\<rparr>"

definition demo_cache :: cache where
  "demo_cache = \<lparr>ca_messages = [(7, 0)], ca_heap = [\<lparr>ms_RegistryMessage = demo_message ''a'', ms_SentCount = 0\<rparr>]\<rparr>"

lemma demo_world_empty: "em_published demo_world = []" "em_api demo_world = []"
  by (simp_all add: demo_world_def)

lemma demo_pool: "pool_ok (demo_emit hash)"
  by (simp add: pool_ok_def demo_emit_def)

lemma demo_hash_ok: "hash_ok (demo_emit demo_hash)"
  by (simp add: hash_ok_def demo_emit_def demo_hash_def)


theorem api_Emit_attempts_witness:
  "snd (api_Emit (demo_emit demo_hash) demo_mappings demo_world) = None
   \<and> length (em_api (fst (api_Emit (demo_emit demo_hash) demo_mappings demo_world))) = 4
   \<and> (\<exists>start f. em_api (fst (api_Emit (demo_emit demo_hash) demo_mappings demo_world))
        = start @ FetchToken f # api_expected (demo_emit demo_hash) demo_mappings)"
proof -
  let ?env = "demo_emit demo_hash"
  obtain w' r where e: "api_Emit ?env demo_mappings demo_world = (w', r)" by fastforce
  have r: "r = None" "length (em_api w') = 4"
    using e by (auto simp: api_Emit_def demo_mappings_def no_mappings_def api_call_def emitRoutingAPI_def demo_emit_def demo_world_empty)
  have "api_expected ?env demo_mappings \<noteq> []" by (simp add: api_expected_def demo_mappings_def)
  with api_Emit_attempts [OF e] r show ?thesis by (auto simp: e demo_world_empty)
qed

theorem sender_repeats_witness:
  "cache_ok (demo_emit (\<lambda>m. Inr 7)) demo_cache \<and> all_sent 0 demo_cache
   \<and> em_published (snd ((sender_tick (demo_emit (\<lambda>m. Inr 7)) 2 ^^ 3) (demo_cache, demo_world)))
       = [(''router.unregister'', ''a''), (''router.unregister'', ''a'')]
   \<and> ca_messages (fst ((sender_tick (demo_emit (\<lambda>m. Inr 7)) 2 ^^ 3) (demo_cache, demo_world))) = []"
proof -
  let ?env = "demo_emit (\<lambda>m. Inr 7)"
  obtain c' w' where t: "(sender_tick ?env 2 ^^ 3) (demo_cache, demo_world) = (c', w')" by fastforce
  have ok: "cache_ok ?env demo_cache" "all_sent 0 demo_cache"
    by (simp_all add: cache_ok_def entry_ok_def demo_cache_def all_sent_def demo_emit_def)
  have "repeated ?env demo_cache = [(''router.unregister'', ''a'')]"
    by (simp add: repeated_def demo_cache_def unregistration_def payload_of_def demo_emit_def demo_message_def)
  with sender_repeats [OF demo_pool ok _ t] ok show ?thesis
    by (simp add: t demo_world_empty numeral_2_eq_2)
qed


end
