(* ===== verification/Route_Handler.thy ===== *)
theory Route_Handler
  imports Route_Emitter
begin

section \<open>The route handler (route-emitter/routehandlers/handler.go)\<close>

text \<open>
  The handler applies the events of the bbs to the routing table and emits what the table says. Its
  emitters may be absent, as they are while it replays events into a new table.
  An event of the bbs carries LRPs that may be \<open>nil\<close>; of a changed instance it carries the
  parts that have changed. Errors of emitters and of the metric client are only logged.
\<close>

subsection \<open>Events\<close>

record ActualLRPInfo =
  in_Presence :: presence
  in_Address :: string
  in_InstanceAddress :: string
  in_InstanceIpv6Address :: string
  in_PreferredAddress :: preferred_address
  in_Ports :: "PortMapping option list"
  in_State :: actual_state
  in_Since :: int
  in_ModificationTag :: ModificationTag
  in_Routable :: "bool option"
  in_AvailabilityZone :: string

definition ToActualLRP :: "ActualLRPInfo option \<Rightarrow> ActualLRPKey \<Rightarrow> ActualLRPInstanceKey \<Rightarrow> RoutedLRP option" where
  "ToActualLRP info key ikey = map_option (\<lambda>i. \<lparr>al_Key = key, al_InstanceKey = ikey, al_Presence = in_Presence i,
     al_Address = in_Address i, al_InstanceAddress = in_InstanceAddress i, al_InstanceIpv6Address = in_InstanceIpv6Address i,
     al_PreferredAddress = in_PreferredAddress i, al_Ports = in_Ports i, al_State = in_State i, al_Since = in_Since i,
     al_ModificationTag = in_ModificationTag i, al_Routable = in_Routable i,
     al_AvailabilityZone = in_AvailabilityZone i\<rparr>) info"

datatype lrp_event =
    DesiredLRPCreatedEvent "RoutedDesiredLRP option"
  | DesiredLRPChangedEvent "RoutedDesiredLRP option" "RoutedDesiredLRP option"
  | DesiredLRPRemovedEvent "RoutedDesiredLRP option"
  | ActualLRPInstanceCreatedEvent "RoutedLRP option"
  | ActualLRPInstanceChangedEvent ActualLRPKey ActualLRPInstanceKey "ActualLRPInfo option" "ActualLRPInfo option"
  | ActualLRPInstanceRemovedEvent "RoutedLRP option"
  | OtherEvent string

subsection \<open>The handler\<close>

record Handler =
  hd_routingTable :: routingTable
  hd_natsEmitter :: bool
  hd_routingAPIEmitter :: bool
  hd_unregistrationCache :: cache
  hd_world :: emit_world

definition emit_nats :: "emit_env \<Rightarrow> MessagesToEmit \<Rightarrow> Handler \<Rightarrow> Handler" where
  "emit_nats env messages h =
     (if hd_natsEmitter h then h\<lparr>hd_world := fst (nats_Emit env messages (hd_world h))\<rparr> else h)"

definition emit_api :: "emit_env \<Rightarrow> TCPRouteMappings \<Rightarrow> Handler \<Rightarrow> Handler" where
  "emit_api env mappings h =
     (if hd_routingAPIEmitter h then h\<lparr>hd_world := fst (api_Emit env mappings (hd_world h))\<rparr> else h)"

definition metric :: "string \<Rightarrow> int \<Rightarrow> Handler \<Rightarrow> Handler" where
  "metric name v h = h\<lparr>hd_world := send_metric name v (hd_world h)\<rparr>"

definition emitMessages :: "emit_env \<Rightarrow> TCPRouteMappings \<times> MessagesToEmit \<Rightarrow> Handler \<Rightarrow> Handler" where
  "emitMessages env = (\<lambda>(routeMappings, messagesToEmit) h.
     let h = emit_nats env messagesToEmit h;
         h = (if hd_natsEmitter h
              then metric ''RoutesUnregistered'' (RouteUnregistrationCount messagesToEmit)
                     (metric ''RoutesRegistered'' (RouteRegistrationCount messagesToEmit) h)
              else h)
     in emit_api env routeMappings h)"

text \<open>An operation of the table: the handler with the new table, and what the table emits.\<close>

definition on_table ::
  "(routingTable \<Rightarrow> routingTable \<times> TCPRouteMappings \<times> MessagesToEmit) \<Rightarrow> Handler
   \<Rightarrow> Handler \<times> TCPRouteMappings \<times> MessagesToEmit" where
  "on_table f h = (let (t, emits) = f (hd_routingTable h) in (h\<lparr>hd_routingTable := t\<rparr>, emits))"

text \<open>Add the unregistrations to the cache and remove the registrations; the first error ends it.\<close>

definition update_cache :: "emit_env \<Rightarrow> MessagesToEmit \<Rightarrow> Handler \<Rightarrow> Handler \<times> string option" where
  "update_cache env messages h =
     (let (c, error) = cache_Add env (me_UnregistrationMessages messages) (hd_unregistrationCache h);
          h = h\<lparr>hd_unregistrationCache := c\<rparr>
      in case error of
           Some e \<Rightarrow> (h, Some e)
         | None \<Rightarrow>
             let (c, error) = cache_Remove env (me_RegistrationMessages messages) (hd_unregistrationCache h)
             in (h\<lparr>hd_unregistrationCache := c\<rparr>, error))"

definition handleDesiredCreate :: "emit_env \<Rightarrow> RoutedDesiredLRP option \<Rightarrow> Handler \<Rightarrow> Handler" where
  "handleDesiredCreate env desiredLRP h =
     (let (h, emits) = on_table (SetRoutes (ev_normalise env) None desiredLRP) h in emitMessages env emits h)"

definition handleDesiredUpdate ::
  "emit_env \<Rightarrow> RoutedDesiredLRP option \<Rightarrow> RoutedDesiredLRP option \<Rightarrow> Handler \<Rightarrow> Handler \<times> string option" where
  "handleDesiredUpdate env before after h =
     (let (h, mappings, messages) = on_table (SetRoutes (ev_normalise env) before after) h;
          (h, error) = update_cache env messages h
      in case error of
           Some e \<Rightarrow> (h, Some e)
         | None \<Rightarrow> (emitMessages env (mappings, messages) h, None))"

definition handleDesiredDelete :: "emit_env \<Rightarrow> RoutedDesiredLRP option \<Rightarrow> Handler \<Rightarrow> Handler" where
  "handleDesiredDelete env desiredLRP h =
     (let (h, emits) = on_table (case desiredLRP of
              None \<Rightarrow> SetRoutes (ev_normalise env) None None
            | Some d \<Rightarrow> RemoveRoutes (ev_normalise env) d) h
      in emitMessages env emits h)"

definition handleActualCreate :: "emit_env \<Rightarrow> RoutedLRP \<Rightarrow> Handler \<Rightarrow> Handler" where
  "handleActualCreate env actualLRP h =
     (if al_State actualLRP \<noteq> ActualLRPStateRunning then h
      else let (h, emits) = on_table (AddEndpoint (ev_normalise env) actualLRP) h in emitMessages env emits h)"

definition handleActualUpdate :: "emit_env \<Rightarrow> RoutedLRP \<Rightarrow> RoutedLRP \<Rightarrow> Handler \<Rightarrow> Handler \<times> string option" where
  "handleActualUpdate env before after h =
     (let nothing = (no_mappings, no_messages);
          (h, mappings, messages) =
            (if al_State after = ActualLRPStateRunning then
               let (h, mappings, messages) =
                     (if \<not> RoutableExists after \<or> GetRoutable after
                      then on_table (AddEndpoint (ev_normalise env) after) h
                      else if GetRoutable before
                      then on_table (RemoveEndpoint (ev_normalise env) after) h
                      else (h, nothing))
               in if al_State before = ActualLRPStateRunning \<and> al_Presence before = ActualLRP_Ordinary
                     \<and> al_Presence after = ActualLRP_Evacuating
                  then let (h, mappings', messages') = on_table (RemoveEndpoint (ev_normalise env) before) h
                       in (h, mappings_Merge mappings mappings', messages_Merge messages messages')
                  else (h, mappings, messages)
             else if al_State before = ActualLRPStateRunning
             then on_table (RemoveEndpoint (ev_normalise env) before) h
             else (h, nothing));
          (h, error) = update_cache env messages h
      in case error of
           Some e \<Rightarrow> (h, Some e)
         | None \<Rightarrow> (emitMessages env (mappings, messages) h, None))"

definition handleActualDelete :: "emit_env \<Rightarrow> RoutedLRP \<Rightarrow> Handler \<Rightarrow> Handler" where
  "handleActualDelete env actualLRP h =
     (if al_State actualLRP \<noteq> ActualLRPStateRunning then h
      else let (h, emits) = on_table (RemoveEndpoint (ev_normalise env) actualLRP) h in emitMessages env emits h)"

fun HandleEvent :: "emit_env \<Rightarrow> lrp_event \<Rightarrow> Handler \<Rightarrow> Handler" where
  "HandleEvent env (DesiredLRPCreatedEvent d) h = handleDesiredCreate env d h"
| "HandleEvent env (DesiredLRPChangedEvent before after) h = fst (handleDesiredUpdate env before after h)"
| "HandleEvent env (DesiredLRPRemovedEvent d) h = handleDesiredDelete env d h"
| "HandleEvent env (ActualLRPInstanceCreatedEvent a) h =
     (case a of None \<Rightarrow> h | Some a \<Rightarrow> handleActualCreate env a h)"
| "HandleEvent env (ActualLRPInstanceChangedEvent key ikey before after) h =
     (case (ToActualLRP before key ikey, ToActualLRP after key ikey) of
        (Some b, Some a) \<Rightarrow> fst (handleActualUpdate env b a h)
      | _ \<Rightarrow> h)"
| "HandleEvent env (ActualLRPInstanceRemovedEvent a) h =
     (case a of None \<Rightarrow> h | Some a \<Rightarrow> handleActualDelete env a h)"
| "HandleEvent env (OtherEvent name) h = h"

definition EmitExternal :: "emit_env \<Rightarrow> Handler \<Rightarrow> Handler" where
  "EmitExternal env h =
     (let (routingEvents, messagesToEmit) = GetExternalRoutingEvents (ev_normalise env) (hd_routingTable h);
          h = emit_api env routingEvents (emit_nats env messagesToEmit h)
      in metric ''RoutesTotal'' (HTTPAssociationsCount (hd_routingTable h))
           (metric ''RoutesSynced'' (RouteRegistrationCount messagesToEmit) h))"

definition EmitInternal :: "emit_env \<Rightarrow> Handler \<Rightarrow> Handler" where
  "EmitInternal env h =
     (let (mappings, messagesToEmit) = GetInternalRoutingEvents (ev_normalise env) (hd_routingTable h)
      in emit_nats env messagesToEmit h)"

definition new_table_for ::
  "emit_env \<Rightarrow> RoutedDesiredLRP list \<Rightarrow> RoutedLRP list \<Rightarrow> routingTable" where
  "new_table_for env desired actuals =
     fold (\<lambda>lrp t. fst (AddEndpoint (ev_normalise env) lrp t)) actuals
       (fold (\<lambda>lrp t. fst (SetRoutes (ev_normalise env) None (Some lrp) t)) desired
          (NewRoutingTable False (ev_tcpTLSEnabled env)))"

text \<open>The replay of cached events into the new table, without emitters.\<close>

definition replay :: "emit_env \<Rightarrow> lrp_event list \<Rightarrow> routingTable \<Rightarrow> Handler \<Rightarrow> Handler" where
  "replay env events t h =
     fold (HandleEvent env) events
       (h\<lparr>hd_natsEmitter := False, hd_routingAPIEmitter := False, hd_routingTable := t\<rparr>)"

definition Sync ::
  "emit_env \<Rightarrow> RoutedDesiredLRP list \<Rightarrow> RoutedLRP list \<Rightarrow> string list \<Rightarrow> lrp_event list \<Rightarrow> Handler \<Rightarrow> Handler" where
  "Sync env desired actuals domains cachedEvents h0 =
     (let h = replay env cachedEvents (new_table_for env desired actuals) h0;
          newTable = hd_routingTable h;
          h = h\<lparr>hd_routingTable := hd_routingTable h0, hd_natsEmitter := hd_natsEmitter h0,
                hd_routingAPIEmitter := hd_routingAPIEmitter h0\<rparr>;
          (h, routeMappings, messages) = on_table (Swap (ev_normalise env) newTable domains) h;
          h = h\<lparr>hd_unregistrationCache := fst (cache_Add env (me_UnregistrationMessages messages) (hd_unregistrationCache h))\<rparr>;
          h = h\<lparr>hd_unregistrationCache := fst (cache_Remove env (me_RegistrationMessages messages) (hd_unregistrationCache h))\<rparr>;
          h = emitMessages env (routeMappings, messages) h
      in if ev_localMode env
         then metric ''TCPRouteCount'' (TCPAssociationsCount (hd_routingTable h))
                (metric ''HTTPRouteCount'' (HTTPAssociationsCount (hd_routingTable h)) h)
         else h)"

definition RefreshDesired :: "emit_env \<Rightarrow> RoutedDesiredLRP list \<Rightarrow> Handler \<Rightarrow> Handler" where
  "RefreshDesired env desiredLRPs h = fold (\<lambda>d h.
     let (h, emits) = on_table (SetRoutes (ev_normalise env) None (Some d)) h in emitMessages env emits h) desiredLRPs h"

definition ShouldRefreshDesired :: "RoutedLRP \<Rightarrow> Handler \<Rightarrow> bool option" where
  "ShouldRefreshDesired actualLRP h = map_option Not (HasExternalRoutes actualLRP (hd_routingTable h))"

subsection \<open>The tables behind the handler\<close>

lemma on_tables_table:
  "fst (on_tables n f t) = \<lparr>rt_tcp = fst (f (rt_tcp t)), rt_http = fst (f (rt_http t)), rt_internal = fst (f (rt_internal t))\<rparr>"
  by (simp add: on_tables_def Let_def split_beta)

lemma Swap_table:
  "fst (Swap n other domains t) = \<lparr>rt_tcp = fst (table_Swap (rt_tcp other) domains (rt_tcp t)),
     rt_http = fst (table_Swap (rt_http other) domains (rt_http t)),
     rt_internal = fst (table_Swap (rt_internal other) domains (rt_internal t))\<rparr>"
  by (simp add: Swap_def Let_def split_beta)

lemma fold_tables:
  "fold (\<lambda>x t. fst (on_tables n (f x) t)) xs t
   = \<lparr>rt_tcp = fold (\<lambda>x u. fst (f x u)) xs (rt_tcp t), rt_http = fold (\<lambda>x u. fst (f x u)) xs (rt_http t),
      rt_internal = fold (\<lambda>x u. fst (f x u)) xs (rt_internal t)\<rparr>"
  by (induction xs arbitrary: t) (simp_all add: on_tables_table)

lemma new_table_for_tables:
  "new_table_for env desired actuals = (let t = NewRoutingTable False (ev_tcpTLSEnabled env);
     build = (\<lambda>u. build_endpoints actuals (build_routes desired u))
   in \<lparr>rt_tcp = build (rt_tcp t), rt_http = build (rt_http t), rt_internal = build (rt_internal t)\<rparr>)"
  by (simp add: new_table_for_def AddEndpoint_def SetRoutes_def fold_tables build_routes_def build_endpoints_def Let_def)

lemma emit_keeps [simp]:
  "hd_routingTable (emit_nats env m h) = hd_routingTable h" "hd_routingTable (emit_api env mp h) = hd_routingTable h"
  "hd_routingTable (metric n v h) = hd_routingTable h" "hd_routingTable (emitMessages env e h) = hd_routingTable h"
  "hd_unregistrationCache (emit_nats env m h) = hd_unregistrationCache h" "hd_unregistrationCache (emit_api env mp h) = hd_unregistrationCache h"
  "hd_unregistrationCache (metric n v h) = hd_unregistrationCache h" "hd_unregistrationCache (emitMessages env e h) = hd_unregistrationCache h"
  by (simp_all add: emit_nats_def emit_api_def metric_def emitMessages_def split_beta Let_def)

lemma Sync_table:
  "hd_routingTable (Sync env desired actuals domains events h)
   = fst (Swap (ev_normalise env) (hd_routingTable (replay env events (new_table_for env desired actuals) h)) domains (hd_routingTable h))"
  by (simp add: Sync_def on_table_def Let_def split_beta)

subsection \<open>The invariant of the handler\<close>

definition tables_ok :: "routingTable \<Rightarrow> bool" where
  "tables_ok t \<longleftrightarrow> entries_ok (it_entries (rt_http t)) \<and> entries_ok (it_entries (rt_tcp t)) \<and> entries_ok (it_entries (rt_internal t))"

definition handler_ok :: "emit_env \<Rightarrow> Handler \<Rightarrow> bool" where
  "handler_ok env h \<longleftrightarrow> tables_ok (hd_routingTable h) \<and> cache_ok env (hd_unregistrationCache h)"

lemma op_entries_ok: "entries_ok (it_entries t) \<Longrightarrow> op_ok op \<Longrightarrow> entries_ok (it_entries (fst (run_op op t)))"
  using run_op_steps [of t op "fst (run_op op t)" "snd (run_op op t)"] by (simp add: steps_ok_def)

lemma on_tables_ok:
  assumes "\<And>t. f t = run_op op t" and "op_ok op" and "tables_ok t"
  shows "tables_ok (fst (on_tables n f t))"
  using assms op_entries_ok by (simp add: tables_ok_def on_tables_table)

lemma table_ops_ok:
  assumes "tables_ok t"
  shows "tables_ok (fst (AddEndpoint n a t))" "tables_ok (fst (RemoveEndpoint n a t))"
    "tables_ok (fst (SetRoutes n before after t))" "tables_ok (fst (RemoveRoutes n d t))"
  unfolding AddEndpoint_def RemoveEndpoint_def SetRoutes_def RemoveRoutes_def table_RemoveRoutes_def
  using assms
  by (rule on_tables_ok [where op = "OpAddEndpoint a", rotated 2] on_tables_ok [where op = "OpRemoveEndpoint a", rotated 2]
      on_tables_ok [where op = "OpSetRoutes before after", rotated 2] on_tables_ok [where op = "OpSetRoutes (Some d) None", rotated 2];
    simp add: table_RemoveRoutes_def)+

lemma Swap_ok: "tables_ok t \<Longrightarrow> tables_ok other \<Longrightarrow> tables_ok (fst (Swap n other domains t))"
  using op_entries_ok [of _ "OpSwap _ domains"] by (simp add: tables_ok_def Swap_table)

lemma NewRoutingTable_ok: "tables_ok (NewRoutingTable direct tls)"
  by (simp add: tables_ok_def NewRoutingTable_def new_table_def entries_ok_def)

lemma new_table_ok: "tables_ok (new_table_for env desired actuals)"
  using NewRoutingTable_ok [of False "ev_tcpTLSEnabled env"]
  by (simp add: new_table_for_tables tables_ok_def Let_def build_entries_ok)

lemma handler_ok_emit [simp]:
  "handler_ok env (emitMessages env e h) = handler_ok env h" "handler_ok env (metric n v h) = handler_ok env h"
  "handler_ok env (emit_nats env m h) = handler_ok env h" "handler_ok env (emit_api env mp h) = handler_ok env h"
  by (simp_all add: handler_ok_def)

lemma on_table_ok:
  assumes "\<And>t. tables_ok t \<Longrightarrow> tables_ok (fst (f t))" and "handler_ok env h"
  shows "handler_ok env (fst (on_table f h))"
  using assms by (simp add: handler_ok_def on_table_def split_beta Let_def)

lemma update_cache_ok: "handler_ok env h \<Longrightarrow> handler_ok env (fst (update_cache env m h))"
  by (simp add: handler_ok_def update_cache_def split_beta Let_def cache_Add_ok cache_Remove_ok split: option.split)

lemma set_routes_ok: "handler_ok env h \<Longrightarrow> handler_ok env (fst (on_table (SetRoutes n before after) h))"
  by (rule on_table_ok [OF table_ops_ok(3)])

lemma remove_routes_ok: "handler_ok env h \<Longrightarrow> handler_ok env (fst (on_table (RemoveRoutes n d) h))"
  by (rule on_table_ok [OF table_ops_ok(4)])

lemma add_endpoint_ok: "handler_ok env h \<Longrightarrow> handler_ok env (fst (on_table (AddEndpoint n a) h))"
  by (rule on_table_ok [OF table_ops_ok(1)])

lemma remove_endpoint_ok: "handler_ok env h \<Longrightarrow> handler_ok env (fst (on_table (RemoveEndpoint n a) h))"
  by (rule on_table_ok [OF table_ops_ok(2)])

lemmas handler_ops_ok = set_routes_ok remove_routes_ok add_endpoint_ok remove_endpoint_ok update_cache_ok

text \<open>The end of both updates: the cache, then the emission.\<close>

lemma cached_emit_ok:
  assumes "handler_ok env (fst r)"
  shows "handler_ok env (fst (case r of (h, mappings, messages) \<Rightarrow>
    (case update_cache env messages h of (h, error) \<Rightarrow>
       (case error of None \<Rightarrow> (emitMessages env (mappings, messages) h, None) | Some e \<Rightarrow> (h, Some e)))))"
proof -
  obtain h mappings messages where r: "r = (h, mappings, messages)" by (cases r)
  obtain h' error where u: "update_cache env messages h = (h', error)" by fastforce
  have "handler_ok env h'" using update_cache_ok [of env h messages] assms by (simp add: r u)
  then show ?thesis by (simp add: r u split: option.split)
qed

lemma handleActualUpdate_ok:
  assumes "handler_ok env h"
  shows "handler_ok env (fst (handleActualUpdate env before after h))"
  unfolding handleActualUpdate_def Let_def
  by (rule cached_emit_ok) (auto simp: assms handler_ops_ok split_beta)

lemma handleDesiredUpdate_ok:
  assumes "handler_ok env h"
  shows "handler_ok env (fst (handleDesiredUpdate env before after h))"
  unfolding handleDesiredUpdate_def Let_def by (rule cached_emit_ok) (rule set_routes_ok [OF assms])

lemma HandleEvent_ok: "handler_ok env h \<Longrightarrow> handler_ok env (HandleEvent env e h)"
  by (cases e)
    (simp_all add: handleDesiredCreate_def handleDesiredDelete_def handleActualCreate_def handleActualDelete_def
      handleActualUpdate_ok handleDesiredUpdate_ok handler_ops_ok split_beta Let_def split: option.split)

lemma replay_ok:
  assumes "handler_ok env h" and "tables_ok t"
  shows "handler_ok env (replay env events t h)"
proof -
  have "handler_ok env (fold (HandleEvent env) events h')" if "handler_ok env h'" for h'
    using that by (induction events arbitrary: h') (simp_all add: HandleEvent_ok)
  then show ?thesis using assms by (simp add: replay_def handler_ok_def)
qed

lemma Sync_ok:
  assumes "handler_ok env h"
  shows "handler_ok env (Sync env desired actuals domains events h)"
proof -
  have r: "handler_ok env (replay env events (new_table_for env desired actuals) h)"
    by (rule replay_ok [OF assms new_table_ok])
  then have "tables_ok (hd_routingTable (Sync env desired actuals domains events h))"
    using assms Swap_ok unfolding Sync_table handler_ok_def by blast
  moreover have "cache_ok env (hd_unregistrationCache (Sync env desired actuals domains events h))"
    using r by (simp add: Sync_def on_table_def split_beta Let_def handler_ok_def cache_Add_ok cache_Remove_ok)
  ultimately show ?thesis by (simp add: handler_ok_def)
qed

lemma RefreshDesired_ok: "handler_ok env h \<Longrightarrow> handler_ok env (RefreshDesired env ds h)"
  unfolding RefreshDesired_def
proof (induction ds arbitrary: h)
  case (Cons d ds)
  have "handler_ok env (fst (on_table (SetRoutes (ev_normalise env) None (Some d)) h))"
    by (rule on_table_ok [OF table_ops_ok(3) Cons.prems])
  then show ?case using Cons.IH by (simp add: split_beta Let_def)
qed simp

lemma Emit_ok: "handler_ok env (EmitExternal env h) = handler_ok env h" "handler_ok env (EmitInternal env h) = handler_ok env h"
  by (simp_all add: EmitExternal_def EmitInternal_def split_beta Let_def)

subsection \<open>Calls of the handler\<close>

datatype handler_call =
    CallHandleEvent lrp_event
  | CallRefreshDesired "RoutedDesiredLRP list"
  | CallSync "RoutedDesiredLRP list" "RoutedLRP list" "string list" "lrp_event list"
  | CallEmitExternal
  | CallEmitInternal

fun run_call :: "emit_env \<Rightarrow> handler_call \<Rightarrow> Handler \<Rightarrow> Handler" where
  "run_call env (CallHandleEvent e) h = HandleEvent env e h"
| "run_call env (CallRefreshDesired ds) h = RefreshDesired env ds h"
| "run_call env (CallSync desired actuals domains events) h = Sync env desired actuals domains events h"
| "run_call env CallEmitExternal h = EmitExternal env h"
| "run_call env CallEmitInternal h = EmitInternal env h"

definition NewHandler :: "bool \<Rightarrow> bool \<Rightarrow> bool \<Rightarrow> bool \<Rightarrow> Handler" where
  "NewHandler direct tls nats api = \<lparr>hd_routingTable = NewRoutingTable direct tls, hd_natsEmitter = nats, hd_routingAPIEmitter = api,
     hd_unregistrationCache = NewCache, hd_world = \<lparr>em_published = [], em_api = [], em_metrics = []\<rparr>\<rparr>"

lemma run_calls_ok: "handler_ok env h \<Longrightarrow> handler_ok env (fold (run_call env) calls h)"
proof (induction calls arbitrary: h)
  case (Cons c calls)
  have "handler_ok env (run_call env c h)"
    using Cons.prems by (cases c) (simp_all add: HandleEvent_ok RefreshDesired_ok Sync_ok Emit_ok)
  with Cons.IH show ?case by simp
qed simp

lemma NewHandler_ok: "handler_ok env (NewHandler direct tls nats api)"
  by (simp add: handler_ok_def NewHandler_def NewRoutingTable_ok NewCache_def cache_ok_def)

definition tables_fresh :: "string list \<Rightarrow> routingTable \<Rightarrow> bool" where
  "tables_fresh domains t \<longleftrightarrow> fresh_domains domains (it_entries (rt_http t)) \<and> fresh_domains domains (it_entries (rt_tcp t))
     \<and> fresh_domains domains (it_entries (rt_internal t))"

lemma Sync_tables:
  assumes "handler_ok env h" and "bbs_state_ok desired actuals"
    and "tables_fresh domains (hd_routingTable h)" and "t = hd_routingTable (Sync env desired actuals domains [] h)"
  shows "router_of (it_entries (rt_http t)) = bbs_associations httpRoutesFrom NewEndpointsFromActual desired actuals
    \<and> router_of (it_entries (rt_tcp t)) = bbs_associations (tcpRoutesFrom (ev_tcpTLSEnabled env)) NewEndpointsFromActual desired actuals
    \<and> router_of (it_entries (rt_internal t)) = bbs_associations internalRoutesFrom internalEndpointsFromActualLRP desired actuals"
proof -
  have ok: "entries_ok (it_entries (rt_http (hd_routingTable h)))" "entries_ok (it_entries (rt_tcp (hd_routingTable h)))"
    "entries_ok (it_entries (rt_internal (hd_routingTable h)))"
    using assms(1) by (simp_all add: handler_ok_def tables_ok_def)
  have fresh: "fresh_domains domains (it_entries (rt_http (hd_routingTable h)))" "fresh_domains domains (it_entries (rt_tcp (hd_routingTable h)))"
    "fresh_domains domains (it_entries (rt_internal (hd_routingTable h)))"
    using assms(3) by (simp_all add: tables_fresh_def)
  have t: "t = fst (Swap (ev_normalise env) (new_table_for env desired actuals) domains (hd_routingTable h))"
    by (simp add: assms(4) Sync_table replay_def)
  show ?thesis
    unfolding t Swap_table new_table_for_tables Let_def NewRoutingTable_def new_table_def
    using http_table.sync_router [OF _ _ _ assms(2) ok(1) fresh(1)] tcp_table.sync_router [OF _ _ _ assms(2) ok(2) fresh(2)]
      internal_table.sync_router [OF _ _ _ assms(2) ok(3) fresh(3)]
    by simp
qed

text \<open>
  C17. A synchronisation repairs the routing table, whatever has happened before. After any sequence of events,
  refreshes, earlier synchronisations and emissions, when a synchronisation finds no cached events and the domains
  of all the routes it holds are fresh, then afterwards the HTTP, TCP and internal tables hold exactly what the state
  of the bbs asks for: each route of a desired LRP with each endpoint of its running instances
  whose index is below the number of instances, and nothing else.
\<close>

theorem Sync_installs_bbs_state:
  assumes "h = fold (run_call env) calls (NewHandler direct tls nats api)" and "bbs_state_ok desired actuals"
    and "tables_fresh domains (hd_routingTable h)" and "t = hd_routingTable (Sync env desired actuals domains [] h)"
  shows "router_of (it_entries (rt_http t)) = bbs_associations httpRoutesFrom NewEndpointsFromActual desired actuals
    \<and> router_of (it_entries (rt_tcp t)) = bbs_associations (tcpRoutesFrom (ev_tcpTLSEnabled env)) NewEndpointsFromActual desired actuals
    \<and> router_of (it_entries (rt_internal t)) = bbs_associations internalRoutesFrom internalEndpointsFromActualLRP desired actuals"
  unfolding assms(1) by (rule Sync_tables [OF run_calls_ok [OF NewHandler_ok] assms(2) assms(3,4) [unfolded assms(1)]])

theorem Sync_installs_bbs_state_witness:
  "let env = demo_emit (\<lambda>m. Inr 7);
       h = fold (run_call env) [CallHandleEvent (DesiredLRPCreatedEvent (Some (demo_routed [''a''] 1)))] (NewHandler False False True True);
       t = hd_routingTable (Sync env [demo_routed [''b''] 2] [demo_actual ActualLRP_Ordinary 1] [''cf-apps''] [] h)
   in router_of (it_entries (rt_http t)) demo_key = Hash ` {http_route (demo_routed [''b''] 2)
          \<lparr>cr_Hostnames = [''b''], cr_Port = 8080, cr_RouteServiceUrl = [], cr_IsolationSegment = [], cr_Protocol = [], cr_Options = []\<rparr> ''b''}
        \<times> essence ` set (NewEndpointsFromActual (demo_actual ActualLRP_Ordinary 1))"
proof -
  let ?env = "demo_emit (\<lambda>m. Inr 7)"
  let ?calls = "[CallHandleEvent (DesiredLRPCreatedEvent (Some (demo_routed [''a''] 1)))]"
  let ?h = "fold (run_call ?env) ?calls (NewHandler False False True True)"
  let ?desired = "[demo_routed [''b''] 2]" and ?actuals = "[demo_actual ActualLRP_Ordinary 1]"
  have ok: "bbs_state_ok ?desired ?actuals" by code_simp
  have table: "hd_routingTable ?h = fst (on_tables Some (table_SetRoutes None (Some (demo_routed [''a''] 1))) (NewRoutingTable False False))"
    by (simp add: handleDesiredCreate_def on_table_def split_beta Let_def NewHandler_def SetRoutes_def demo_emit_def)
  have fresh: "tables_fresh [''cf-apps''] (hd_routingTable ?h)"
    unfolding table on_tables_table by code_simp
  have "wanted httpRoutesFrom ?desired demo_key = Some (demo_routed [''b''] 2, [http_route (demo_routed [''b''] 2)
      \<lparr>cr_Hostnames = [''b''], cr_Port = 8080, cr_RouteServiceUrl = [], cr_IsolationSegment = [], cr_Protocol = [], cr_Options = []\<rparr> ''b''])"
    by code_simp
  moreover have "filter (\<lambda>e. routing_key (demo_actual ActualLRP_Ordinary 1) e = demo_key \<and> (0 < dr_Instances (demo_routed [''b''] 2)
      \<longrightarrow> en_Index e < dr_Instances (demo_routed [''b''] 2))) (NewEndpointsFromActual (demo_actual ActualLRP_Ordinary 1))
      = NewEndpointsFromActual (demo_actual ActualLRP_Ordinary 1)"
    by code_simp
  ultimately have "bbs_associations httpRoutesFrom NewEndpointsFromActual ?desired ?actuals demo_key
      = Hash ` {http_route (demo_routed [''b''] 2)
          \<lparr>cr_Hostnames = [''b''], cr_Port = 8080, cr_RouteServiceUrl = [], cr_IsolationSegment = [], cr_Protocol = [], cr_Options = []\<rparr> ''b''}
        \<times> essence ` set (NewEndpointsFromActual (demo_actual ActualLRP_Ordinary 1))"
    by (simp add: bbs_associations_def del: set_filter)
  with Sync_installs_bbs_state [OF refl ok fresh refl] show ?thesis unfolding Let_def by simp
qed

subsection \<open>The cache behind the handler\<close>

lemma cache_Add_new:
  assumes "\<forall>m. \<not> isl (ev_hash env m)"
  shows "snd (cache_Add env ms c) = None"
    and "(\<exists>a. map_of (ca_messages c) h = Some a \<and> a < length (ca_heap c) \<and> ms_SentCount (ca_heap c ! a) = 0)
           \<or> Inr h \<in> ev_hash env ` set ms
         \<Longrightarrow> \<exists>a. map_of (ca_messages (fst (cache_Add env ms c))) h = Some a \<and> a < length (ca_heap (fst (cache_Add env ms c)))
           \<and> ms_SentCount (ca_heap (fst (cache_Add env ms c)) ! a) = 0"
proof -
  have "\<exists>h. ev_hash env m = Inr h" for m using assms by (metis sum.collapse(2))
  then obtain hash where hash: "ev_hash env m = Inr (hash m)" for m by metis
  show "snd (cache_Add env ms c) = None" by (induction ms arbitrary: c) (simp_all add: hash)
  assume "(\<exists>a. map_of (ca_messages c) h = Some a \<and> a < length (ca_heap c) \<and> ms_SentCount (ca_heap c ! a) = 0)
           \<or> Inr h \<in> ev_hash env ` set ms"
  then show "\<exists>a. map_of (ca_messages (fst (cache_Add env ms c))) h = Some a \<and> a < length (ca_heap (fst (cache_Add env ms c)))
           \<and> ms_SentCount (ca_heap (fst (cache_Add env ms c)) ! a) = 0"
  proof (induction ms arbitrary: c)
    case (Cons m ms)
    let ?c = "\<lparr>ca_messages = AList.update (hash m) (length (ca_heap c)) (ca_messages c),
      ca_heap = ca_heap c @ [\<lparr>ms_RegistryMessage = m, ms_SentCount = 0\<rparr>]\<rparr>"
    have "(\<exists>a. map_of (ca_messages ?c) h = Some a \<and> a < length (ca_heap ?c) \<and> ms_SentCount (ca_heap ?c ! a) = 0)
        \<or> Inr h \<in> ev_hash env ` set ms"
    proof (cases "hash m = h")
      case True
      then show ?thesis by simp
    next
      case False
      then have "Inr h \<in> ev_hash env ` set (m # ms) \<longleftrightarrow> Inr h \<in> ev_hash env ` set ms" by (simp add: hash)
      with Cons.prems consider a where "map_of (ca_messages c) h = Some a" "a < length (ca_heap c)" "ms_SentCount (ca_heap c ! a) = 0"
        | "Inr h \<in> ev_hash env ` set ms" by (elim disjE exE conjE) simp_all
      then show ?thesis
      proof cases
        case 1
        with False have "map_of (ca_messages ?c) h = Some a \<and> a < length (ca_heap ?c) \<and> ms_SentCount (ca_heap ?c ! a) = 0"
          by (simp add: nth_append)
        then show ?thesis by (intro disjI1 exI)
      qed (rule disjI2)
    qed
    from Cons.IH [OF this] show ?case by (simp add: hash)
  qed simp
qed

lemma cache_Remove_gone:
  assumes "\<forall>m. \<not> isl (ev_hash env m)"
  shows "snd (cache_Remove env ms c) = None"
    and "map_of (ca_messages (fst (cache_Remove env ms c))) h
       = (if Inr h \<in> ev_hash env ` set ms then None else map_of (ca_messages c) h)"
proof -
  have "\<exists>h. ev_hash env m = Inr h" for m using assms by (metis sum.collapse(2))
  then obtain hash where hash: "ev_hash env m = Inr (hash m)" for m by metis
  show "snd (cache_Remove env ms c) = None" by (induction ms arbitrary: c) (simp_all add: hash)
  show "map_of (ca_messages (fst (cache_Remove env ms c))) h
       = (if Inr h \<in> ev_hash env ` set ms then None else map_of (ca_messages c) h)"
    by (induction ms arbitrary: c) (auto simp: hash delete_conv')
qed



text \<open>A tick publishes every message it lists, however often each has been sent.\<close>

lemma tick_publishes:
  assumes "pool_ok env" and "cache_ok env c" and "sender_tick env n (c, w) = (c', w')"
  shows "em_published w' = em_published w @ repeated env c"
proof -
  have "em_published w' = em_published w @ map (\<lambda>a. unregistration env (ms_RegistryMessage (ca_heap c ! a))) as"
    if "\<forall>a \<in> set as. \<exists>h. ev_hash env (ms_RegistryMessage (ca_heap c ! a)) = Inr h" "fold (sender_send env n) as (c, w) = (c', w')"
    for as c w
    using that
  proof (induction as arbitrary: c w)
    case (Cons a as)
    obtain c1 w1 where s: "sender_send env n a (c, w) = (c1, w1)" by fastforce
    obtain h where "ev_hash env (ms_RegistryMessage (ca_heap c ! a)) = Inr h" using Cons.prems(1) by auto
    note step = sender_send_step [OF assms(1) this s]
    have same: "ms_RegistryMessage (ca_heap c1 ! b) = ms_RegistryMessage (ca_heap c ! b)" for b
      by (cases "b = a"; cases "a < length (ca_heap c)") (simp_all add: step(2) list_update_beyond)
    have "em_published w' = em_published w1 @ map (\<lambda>a. unregistration env (ms_RegistryMessage (ca_heap c1 ! a))) as"
      by (rule Cons.IH) (use Cons.prems s same in simp_all)
    then show ?case by (simp add: step(1) same)
  qed simp
  from this [of "cache_List c" c w] assms(2,3) show ?thesis
    by (auto simp: sender_tick_def cache_List_def repeated_def split_beta cache_ok_def list_all_iff entry_ok_def)
qed


definition demo_handler :: Handler where
  "demo_handler = \<lparr>hd_routingTable = (NewRoutingTable False False)\<lparr>rt_http := fst (table_AddEndpoint (demo_actual ActualLRP_Ordinary 1) demo_table)\<rparr>,
     hd_natsEmitter = True, hd_routingAPIEmitter = False, hd_unregistrationCache = demo_cache, hd_world = demo_world\<rparr>"


end
