(* ===== verification/Route_Watcher.thy ===== *)
theory Route_Watcher
  imports Route_Handler
begin

section \<open>The watcher and its clocks (route-emitter/watcher, syncer, scheduler)\<close>

text \<open>
  The watcher is a loop over channels: events of the bbs, ticks that ask to emit or to synchronise,
  and the end of a synchronisation that runs beside the loop. While one runs, events are kept,
  the last one for each key, and replayed into the new table. A turn of the loop takes one of
  the inputs; \<open>None\<close> is a panic. The bbs answers each turn as it does at that time.
  The kept events are a map that the end of a synchronisation ranges over twice: its input holds
  the two orders in which Go visits them.
\<close>

subsection \<open>The bbs as the watcher calls it\<close>

datatype watcher_bbs_error = EndpointNotFoundErr | WatcherBBSError string

record watcher_bbs =
  wb_ActualLRPs :: "string \<Rightarrow> watcher_bbs_error + RoutedLRP list"
  wb_DesiredLRPRoutingInfos :: "string list \<Rightarrow> watcher_bbs_error + RoutedDesiredLRP list"
  wb_DesiredLRPs :: "string list \<Rightarrow> watcher_bbs_error + RoutedDesiredLRP list"
  wb_Domains :: "watcher_bbs_error + string list"

definition getDesiredLRPs :: "watcher_bbs \<Rightarrow> string list \<Rightarrow> watcher_bbs_error + RoutedDesiredLRP list" where
  "getDesiredLRPs bbs guids =
     (case wb_DesiredLRPRoutingInfos bbs guids of
        Inl EndpointNotFoundErr \<Rightarrow> wb_DesiredLRPs bbs guids
      | r \<Rightarrow> r)"

record syncEventResult =
  sr_desired :: "RoutedDesiredLRP list"
  sr_runningActual :: "RoutedLRP list"
  sr_domains :: "string list"
  sr_err :: bool

definition runs_and_routable :: "RoutedLRP \<Rightarrow> bool" where
  "runs_and_routable a \<longleftrightarrow> al_State a = ActualLRPStateRunning \<and> (\<not> RoutableExists a \<or> GetRoutable a)"

text \<open>
  The goroutines of \<open>sync\<close>. With a cell id only the desired LRPs of the instances on that cell are
  fetched, and none when there are none.
\<close>

definition watcher_sync :: "string \<Rightarrow> watcher_bbs \<Rightarrow> syncEventResult" where
  "watcher_sync cellID bbs =
     (let actuals = wb_ActualLRPs bbs cellID;
          running = (case actuals of Inl e \<Rightarrow> [] | Inr as \<Rightarrow> filter runs_and_routable as);
          desired = (if cellID = [] then getDesiredLRPs bbs []
                     else case actuals of
                       Inl e \<Rightarrow> Inr []
                     | Inr as \<Rightarrow>
                         let guids = map (\<lambda>a. key_ProcessGuid (al_Key a)) as
                         in if guids \<noteq> [] then getDesiredLRPs bbs guids else Inr []);
          domains = wb_Domains bbs
      in \<lparr>sr_desired = (case desired of Inl e \<Rightarrow> [] | Inr ds \<Rightarrow> ds), sr_runningActual = running,
          sr_domains = (case domains of Inl e \<Rightarrow> [] | Inr ds \<Rightarrow> ds),
          sr_err = (isl actuals \<or> isl desired \<or> isl domains)\<rparr>)"

subsection \<open>Events\<close>

fun event_Key :: "lrp_event \<Rightarrow> string" where
  "event_Key (DesiredLRPCreatedEvent d) = (case d of None \<Rightarrow> [] | Some d \<Rightarrow> dr_ProcessGuid d)"
| "event_Key (DesiredLRPChangedEvent before after) = (case before of None \<Rightarrow> [] | Some d \<Rightarrow> dr_ProcessGuid d)"
| "event_Key (DesiredLRPRemovedEvent d) = (case d of None \<Rightarrow> [] | Some d \<Rightarrow> dr_ProcessGuid d)"
| "event_Key (ActualLRPInstanceCreatedEvent a) = (case a of None \<Rightarrow> [] | Some a \<Rightarrow> ikey_InstanceGuid (al_InstanceKey a))"
| "event_Key (ActualLRPInstanceChangedEvent key ikey before after) = ikey_InstanceGuid ikey"
| "event_Key (ActualLRPInstanceRemovedEvent a) = (case a of None \<Rightarrow> [] | Some a \<Rightarrow> ikey_InstanceGuid (al_InstanceKey a))"
| "event_Key (OtherEvent key) = key"

definition foundInCurrentDesireds :: "string \<Rightarrow> RoutedDesiredLRP list \<Rightarrow> bool" where
  "foundInCurrentDesireds guid currentDesireds = list_ex (\<lambda>d. dr_ProcessGuid d = guid) currentDesireds"

fun event_actual :: "lrp_event \<Rightarrow> RoutedLRP option" where
  "event_actual (ActualLRPInstanceCreatedEvent a) = a"
| "event_actual (ActualLRPInstanceChangedEvent key ikey before after) = ToActualLRP after key ikey"
| "event_actual e = None"

definition retrieveDesiredInternal ::
  "watcher_bbs \<Rightarrow> Handler \<Rightarrow> lrp_event \<Rightarrow> RoutedDesiredLRP list \<Rightarrow> bool \<Rightarrow> RoutedDesiredLRP list option" where
  "retrieveDesiredInternal bbs h event currentDesireds syncing =
     (case event_actual event of
        None \<Rightarrow> Some []
      | Some a \<Rightarrow>
          if al_State a \<noteq> ActualLRPStateRunning then Some []
          else
            (case ShouldRefreshDesired a h of
               None \<Rightarrow> None
             | Some refresh \<Rightarrow>
                 let guid = key_ProcessGuid (al_Key a)
                 in if refresh \<or> (syncing \<and> \<not> foundInCurrentDesireds guid currentDesireds)
                    then Some (case getDesiredLRPs bbs [guid] of Inl e \<Rightarrow> [] | Inr ds \<Rightarrow> ds)
                    else Some []))"

definition watcher_handleEvent :: "emit_env \<Rightarrow> watcher_bbs \<Rightarrow> lrp_event \<Rightarrow> Handler \<Rightarrow> Handler option" where
  "watcher_handleEvent env bbs event h =
     map_option (\<lambda>desiredLRPs.
       HandleEvent env event (if desiredLRPs \<noteq> [] then RefreshDesired env desiredLRPs h else h))
     (retrieveDesiredInternal bbs h event [] False)"

subsection \<open>The loop\<close>

record Watcher =
  wa_handler :: Handler
  wa_cachedEvents :: "(string \<times> lrp_event) list"
  wa_syncing :: bool
  wa_stopped :: bool

datatype watcher_input =
    WEvent lrp_event
  | WEmitExternal
  | WEmitInternal
  | WSyncEnd syncEventResult "lrp_event list \<Rightarrow> lrp_event list" "lrp_event list \<Rightarrow> lrp_event list"
  | WSync
  | WResubscribe
  | WSignal

definition NewWatcher :: "Handler \<Rightarrow> Watcher" where
  "NewWatcher h = \<lparr>wa_handler = h, wa_cachedEvents = [], wa_syncing = False, wa_stopped = False\<rparr>"

text \<open>The desired LRPs of cached events that the synchronisation has not fetched; \<open>None\<close> is a panic.\<close>

fun cached_desired ::
  "watcher_bbs \<Rightarrow> Handler \<Rightarrow> RoutedDesiredLRP list \<Rightarrow> lrp_event list \<Rightarrow> RoutedDesiredLRP list option" where
  "cached_desired bbs h current [] = Some []"
| "cached_desired bbs h current (e # es) =
     (case retrieveDesiredInternal bbs h e current True of
        None \<Rightarrow> None
      | Some ds \<Rightarrow> map_option (\<lambda>rest. ds @ rest) (cached_desired bbs h current es))"

definition watcher_turn :: "emit_env \<Rightarrow> watcher_bbs \<Rightarrow> watcher_input \<Rightarrow> Watcher \<Rightarrow> Watcher option" where
  "watcher_turn env bbs input s =
     (if wa_stopped s then Some s
      else case input of
        WEvent event \<Rightarrow>
          if wa_syncing s
          then Some (s\<lparr>wa_cachedEvents := AList.update (event_Key event) event (wa_cachedEvents s)\<rparr>)
          else map_option (\<lambda>h. s\<lparr>wa_handler := h\<rparr>) (watcher_handleEvent env bbs event (wa_handler s))
      | WEmitExternal \<Rightarrow> Some (s\<lparr>wa_handler := EmitExternal env (wa_handler s)\<rparr>)
      | WEmitInternal \<Rightarrow> Some (s\<lparr>wa_handler := EmitInternal env (wa_handler s)\<rparr>)
      | WSyncEnd r order order' \<Rightarrow>
          (let s = s\<lparr>wa_syncing := False\<rparr>;
               events = map snd (wa_cachedEvents s)
           in if sr_err r then Some s
              else map_option (\<lambda>extra.
                s\<lparr>wa_handler := Sync env (sr_desired r @ extra) (sr_runningActual r) (sr_domains r) (order' events) (wa_handler s),
                  wa_cachedEvents := []\<rparr>)
                (cached_desired bbs (wa_handler s) (sr_desired r) (order events)))
      | WSync \<Rightarrow> Some (if wa_syncing s then s else s\<lparr>wa_syncing := True\<rparr>)
      | WResubscribe \<Rightarrow> Some s
      | WSignal \<Rightarrow> Some (s\<lparr>wa_stopped := True\<rparr>))"

subsection \<open>The clocks\<close>

text \<open>The syncer asks for a synchronisation at start and at every tick; its channel holds one request.\<close>

datatype syncer_input = SyncTick | SyncSignal

fun syncer_Run :: "syncer_input list \<Rightarrow> nat" where
  "syncer_Run (SyncTick # inputs) = Suc (syncer_Run inputs)"
| "syncer_Run _ = 1"

text \<open>
  The scheduler greets the external service until it answers with its interval, then asks to emit at
  that interval. \<open>greet\<close> is the error of the nth greeting. In the second phase \<open>None\<close> is a panic: of
  \<open>rand.Int63n\<close>, whose argument must be positive, or of \<open>time.NewTicker\<close>; \<open>jitter\<close> is the interval
  multiplied by the jitter factor and cut to an integer.
\<close>

datatype greet_input = GreetReply int | GreetRetry | GreetSignal

datatype greet_result = GreetFailed string | GreetGaveUp | Greeted int | GreetStopped | GreetWaiting

fun greet_loop :: "(nat \<Rightarrow> string option) \<Rightarrow> nat \<Rightarrow> nat \<Rightarrow> greet_input list \<Rightarrow> greet_result \<times> nat" where
  "greet_loop greet maxGreetAttempts greetAttempt inputs =
     (let greetAttempt = greetAttempt + 1
      in case greet greetAttempt of
           Some e \<Rightarrow> (GreetFailed e, greetAttempt)
         | None \<Rightarrow>
             if greetAttempt = maxGreetAttempts then (GreetGaveUp, greetAttempt)
             else case inputs of
                    [] \<Rightarrow> (GreetWaiting, greetAttempt)
                  | GreetReply i # rest \<Rightarrow> (Greeted i, greetAttempt)
                  | GreetRetry # rest \<Rightarrow> greet_loop greet maxGreetAttempts greetAttempt rest
                  | GreetSignal # rest \<Rightarrow> (GreetStopped, greetAttempt))"

declare greet_loop.simps [simp del]

definition handleExternalServiceStart :: "int \<Rightarrow> int" where
  "handleExternalServiceStart minimumRegisterInterval = i64 (minimumRegisterInterval * 1000000000)"

datatype emit_input = EmitStart int | EmitTick | EmitSignal

text \<open>The requests to emit that a run of the second phase makes; each goes into the channel when it is empty.\<close>

fun emit_loop :: "(int \<Rightarrow> int) \<Rightarrow> emit_input list \<Rightarrow> nat option" where
  "emit_loop jitter [] = Some 0"
| "emit_loop jitter (EmitStart interval # inputs) =
     (if jitter interval \<le> 0 \<or> interval \<le> 0 then None else map_option Suc (emit_loop jitter inputs))"
| "emit_loop jitter (EmitTick # inputs) = map_option Suc (emit_loop jitter inputs)"
| "emit_loop jitter (EmitSignal # inputs) = Some 0"

definition scheduler_Run ::
  "(nat \<Rightarrow> string option) \<Rightarrow> (int \<Rightarrow> int) \<Rightarrow> greet_input list \<Rightarrow> emit_input list \<Rightarrow> (greet_result \<times> nat) option" where
  "scheduler_Run greet jitter greets emits =
     (case greet_loop greet 30 0 greets of
        (Greeted interval, n) \<Rightarrow>
          if interval \<le> 0 then None
          else map_option (Pair (Greeted interval)) (emit_loop jitter emits)
      | (r, n) \<Rightarrow> Some (r, 0))"

subsection \<open>The greeting ends\<close>

lemma greet_loop_bound:
  assumes "attempt < limit" and "greet_loop greet limit attempt inputs = (r, n)"
  shows "n \<le> limit \<and> (r = GreetWaiting \<longrightarrow> n = attempt + length inputs + 1 \<and> n < limit)"
  using assms
proof (induction inputs arbitrary: attempt)
  case Nil
  then show ?case by (subst (asm) greet_loop.simps) (auto simp: Let_def split: option.splits if_splits)
next
  case (Cons i rest)
  show ?case
  proof (cases "greet (attempt + 1) = None \<and> attempt + 1 \<noteq> limit \<and> i = GreetRetry")
    case True
    then have "greet_loop greet limit (attempt + 1) rest = (r, n)"
      using Cons.prems(2) by (subst (asm) greet_loop.simps) (auto simp: Let_def)
    from Cons.IH [OF _ this] Cons.prems(1) True show ?thesis by auto
  next
    case False
    then show ?thesis
      using Cons.prems by (subst (asm) greet_loop.simps) (auto simp: Let_def split: option.splits if_splits greet_input.splits)
  qed
qed

text \<open>
  C25. The greeting of the external service ends. The scheduler sends at most 30 greetings, and when 29
  ticks have passed without an answer or a signal it has given up or failed: it never waits on.
\<close>

theorem greeting_ends:
  assumes "greet_loop greet 30 0 inputs = (r, n)"
  shows "n \<le> 30 \<and> (29 \<le> length inputs \<longrightarrow> r \<noteq> GreetWaiting)"
  using greet_loop_bound [OF _ assms] by auto

theorem greeting_ends_witness:
  "greet_loop (\<lambda>n. None) 30 0 (replicate 29 GreetRetry) = (GreetGaveUp, 30) \<and> snd (greet_loop (\<lambda>n. None) 30 0 (replicate 29 GreetRetry)) \<le> 30"
proof -
  have "greet_loop (\<lambda>n. None) 30 0 (replicate 29 GreetRetry) = (GreetGaveUp, 30)" by code_simp
  with greeting_ends [OF this] show ?thesis by simp
qed

subsection \<open>The loop does not panic\<close>

text \<open>An event without missing port mappings: those of its instance are read when its routes are looked up.\<close>

definition event_ok :: "lrp_event \<Rightarrow> bool" where
  "event_ok e = (case event_actual e of None \<Rightarrow> True | Some a \<Rightarrow> None \<notin> set (al_Ports a))"

text \<open>A range visits every entry of the map once.\<close>

definition range_order :: "(lrp_event list \<Rightarrow> lrp_event list) \<Rightarrow> bool" where
  "range_order order \<longleftrightarrow> (\<forall>es. mset (order es) = mset es)"

lemma range_order_set: "range_order order \<Longrightarrow> set (order es) = set es"
  unfolding range_order_def by (metis set_mset_mset)

lemma range_order_empty: "range_order order \<Longrightarrow> order [] = []"
  unfolding range_order_def by (metis mset_zero_iff)

fun input_ok :: "watcher_input \<Rightarrow> bool" where
  "input_ok (WEvent e) = event_ok e"
| "input_ok (WSyncEnd r order order') = (range_order order \<and> range_order order')"
| "input_ok _ = True"

inductive watcher_reach :: "emit_env \<Rightarrow> Watcher \<Rightarrow> bool" for env where
  start: "watcher_reach env (NewWatcher (NewHandler direct tls nats api))"
| turn: "watcher_reach env s \<Longrightarrow> input_ok input \<Longrightarrow> watcher_turn env bbs input s = Some s' \<Longrightarrow> watcher_reach env s'"

definition watcher_ok :: "emit_env \<Rightarrow> Watcher \<Rightarrow> bool" where
  "watcher_ok env s \<longleftrightarrow> handler_ok env (wa_handler s) \<and> distinct (map fst (wa_cachedEvents s))
     \<and> list_all (\<lambda>(k, e). k = event_Key e \<and> event_ok e) (wa_cachedEvents s)"

lemma refresh_defined: "None \<notin> set (al_Ports a) \<Longrightarrow> \<exists>b. ShouldRefreshDesired a h = Some b"
  by (auto simp: ShouldRefreshDesired_def HasExternalRoutes_def table_HasExternalRoutes_def NewRoutingKeysFromActual_def split: bool.split)

lemma retrieve_defined: "event_ok e \<Longrightarrow> \<exists>ds. retrieveDesiredInternal bbs h e current syncing = Some ds"
  using refresh_defined [of _ h] unfolding retrieveDesiredInternal_def event_ok_def
  by (fastforce simp: Let_def split: option.splits)

lemma cached_desired_defined: "list_all event_ok es \<Longrightarrow> \<exists>ds. cached_desired bbs h current es = Some ds"
proof (induction es)
  case (Cons e es)
  obtain ds where "retrieveDesiredInternal bbs h e current True = Some ds"
    using retrieve_defined [of e bbs h current True] Cons.prems by auto
  with Cons show ?case by auto
qed simp

lemma watcher_turn_defined:
  assumes "watcher_ok env s" and "input_ok input"
  obtains s' where "watcher_turn env bbs input s = Some s'"
proof -
  have "\<exists>s'. watcher_turn env bbs input s = Some s'"
  proof (cases input)
    case (WEvent e)
    then show ?thesis
      using retrieve_defined [of e bbs "wa_handler s" "[]" False] assms(2)
      by (auto simp: watcher_turn_def watcher_handleEvent_def)
  next
    case (WSyncEnd r order order')
    have "list_all event_ok (map snd (wa_cachedEvents s))" using assms(1) by (auto simp: watcher_ok_def list_all_iff)
    then have "list_all event_ok (order (map snd (wa_cachedEvents s)))"
      using assms(2) by (simp add: WSyncEnd list_all_iff range_order_set)
    from cached_desired_defined [OF this, of bbs "wa_handler s" "sr_desired r"] WSyncEnd show ?thesis
      by (auto simp: watcher_turn_def Let_def)
  qed (auto simp: watcher_turn_def)
  then show ?thesis using that by blast
qed

lemma watcher_handleEvent_ok:
  assumes "handler_ok env h" and "watcher_handleEvent env bbs e h = Some h'"
  shows "handler_ok env h'"
  using assms by (auto simp: watcher_handleEvent_def HandleEvent_ok RefreshDesired_ok split: if_splits)

lemma watcher_turn_ok:
  assumes "watcher_ok env s" and "input_ok input" and "watcher_turn env bbs input s = Some s'"
  shows "watcher_ok env s'"
proof (cases "wa_stopped s")
  case False
  show ?thesis
  proof (cases input)
    case (WEvent e)
    show ?thesis
    proof (cases "wa_syncing s")
      case True
      have "list_all (\<lambda>(k, e). k = event_Key e \<and> event_ok e) (AList.update (event_Key e) e (wa_cachedEvents s))"
        using assms(1,2) set_update_subset [of "event_Key e" e "wa_cachedEvents s"]
        by (auto simp: watcher_ok_def list_all_iff WEvent)
      with assms True False WEvent show ?thesis by (auto simp: watcher_turn_def watcher_ok_def distinct_update)
    qed (use assms False WEvent watcher_handleEvent_ok in \<open>auto simp: watcher_turn_def watcher_ok_def\<close>)
  qed (use assms False in \<open>auto simp: watcher_turn_def watcher_ok_def Let_def Sync_ok Emit_ok split: if_splits\<close>)
qed (use assms in \<open>simp add: watcher_turn_def\<close>)

lemma watcher_reach_ok: "watcher_reach env s \<Longrightarrow> watcher_ok env s"
proof (induction rule: watcher_reach.induct)
  case (start direct tls nats api)
  then show ?case by (simp add: watcher_ok_def NewWatcher_def NewHandler_ok)
next
  case (turn s input bbs s')
  then show ?case by (blast intro: watcher_turn_ok)
qed



text \<open>
  A failed synchronisation leaves the events that arrived meanwhile unapplied: when one of the queries fails, the
  handler is not called, although the watcher goes back to applying new events at once; the events stay cached until
  a later synchronisation succeeds.
\<close>

theorem failed_sync_strands_events:
  assumes "wa_syncing s" and "\<not> wa_stopped s" and "sr_err r"
  shows "\<exists>s'. watcher_turn env bbs (WEvent e) s = Some s'
    \<and> (\<exists>s''. watcher_turn env bbs (WSyncEnd r order order') s' = Some s'' \<and> wa_handler s'' = wa_handler s \<and> \<not> wa_syncing s''
         \<and> map_of (wa_cachedEvents s'') (event_Key e) = Some e
         \<and> (\<forall>e' bbs' s3. watcher_turn env bbs' (WEvent e') s'' = Some s3 \<longrightarrow> map_of (wa_cachedEvents s3) (event_Key e) = Some e))"
  using assms by (auto simp: watcher_turn_def Let_def)

subsection \<open>An example\<close>

definition demo_watched :: watcher_bbs where
  "demo_watched = \<lparr>wb_ActualLRPs = \<lambda>cell. Inr [demo_actual ActualLRP_Ordinary 1],
     wb_DesiredLRPRoutingInfos = \<lambda>guids. Inl EndpointNotFoundErr,
     wb_DesiredLRPs = \<lambda>guids. Inr [demo_routed [''a''] 1], wb_Domains = Inr [''cf-apps'']\<rparr>"

definition demo_watcher :: Watcher where
  "demo_watcher = NewWatcher (NewHandler False False True True)"

lemma demo_watcher_reach: "watcher_reach env demo_watcher"
  unfolding demo_watcher_def by (rule watcher_reach.start)



theorem failed_sync_strands_events_witness:
  "let s = demo_watcher\<lparr>wa_syncing := True\<rparr>; e = DesiredLRPCreatedEvent (Some (demo_routed [''a''] 1));
       r = watcher_sync ''cell'' (demo_watched\<lparr>wb_Domains := Inl (WatcherBBSError ''timeout'')\<rparr>)
   in \<exists>s' s''. watcher_turn (demo_emit demo_hash) demo_watched (WEvent e) s = Some s'
        \<and> watcher_turn (demo_emit demo_hash) demo_watched (WSyncEnd r id rev) s' = Some s''
        \<and> wa_handler s'' = wa_handler s \<and> map_of (wa_cachedEvents s'') (event_Key e) = Some e"
proof -
  let ?s = "demo_watcher\<lparr>wa_syncing := True\<rparr>"
  have "wa_syncing ?s" "\<not> wa_stopped ?s" by (simp_all add: demo_watcher_def NewWatcher_def)
  moreover have "sr_err (watcher_sync ''cell'' (demo_watched\<lparr>wb_Domains := Inl (WatcherBBSError ''timeout'')\<rparr>))" by code_simp
  ultimately show ?thesis
    unfolding Let_def
    using failed_sync_strands_events [of ?s "watcher_sync ''cell'' (demo_watched\<lparr>wb_Domains := Inl (WatcherBBSError ''timeout'')\<rparr>)"
        "demo_emit demo_hash" demo_watched "DesiredLRPCreatedEvent (Some (demo_routed [''a''] 1))" id rev]
    by blast
qed

end
