(* ===== verification/Spec2Isabelle.thy ===== *)
theory Spec2Isabelle
  imports Cluster Rep_Harmonizer Route_Typing Route_Watcher
begin

text \<open>
  A verification development of diego-release, the container scheduler of Cloud Foundry. Paths below are
  relative to \<open>src/src/code.cloudfoundry.org\<close>.

  \<^bold>\<open>The program.\<close> Diego places long running processes (LRPs) and tasks on cells. The auctioneer (\<open>auction\<close>,
  \<open>auctioneer\<close>) collects start requests in a batch, fetches the state of every cell, picks a cell for
  every request and sends each cell its work. The rep of a cell (\<open>rep\<close>) admits the work and reserves
  containers in the executor (\<open>executor\<close>). It keeps the containers and the records of the bulletin board
  system (bbs) in step by generating operations that a keyed queue (\<open>operationq\<close>) runs. The route emitter
  (\<open>route-emitter\<close>) follows the events of the bbs in three routing tables and tells the routers
  of the changes.

  \<^bold>\<open>Conventions.\<close> Go's integers are \<open>int\<close> with the wrap around of their width written out (\<open>i32\<close>,
  \<open>i64\<close>, \<open>u16\<close>, \<open>u32\<close>, \<open>u64\<close> of \<open>Go_Prelude\<close>). A Go map is an association list, and where the order of a
  range matters it is an argument. A pointer that may be nil is an option, a panic is \<open>None\<close>, an
  error is a value. Structs are records with a prefix for each struct. Code outside the sources (garden, the bbs,
  NATS, JSON, the clock, guid generators) is an argument, often a function of the history of
  calls; what a property needs of it is a named hypothesis, and the witness of the property
  instantiates it. Goroutines are step relations or explicit interleavings.

  \<^bold>\<open>Theories, in the order of the code.\<close>
  \<^item> \<open>Go_Prelude\<close>, \<open>Go_Url\<close>: integers, maps and lists of Go, and the part of \<open>net/url\<close> that root file systems use.
  \<^item> \<open>Scheduling_Types\<close>: the vendored types of the bbs that the scheduler and the rep share, with
    resources, placement constraints and cell states.
  \<^item> \<open>Auction_Cell\<close> (\<open>auctionrunner/cell.go\<close>), \<open>Auction_Zones\<close> (\<open>zone_sorter.go\<close>, \<open>zone_builder.go\<close>),
    \<open>Auction_Scheduler\<close> (\<open>scheduler.go\<close>): scoring, reservation, filtering, both auctions and \<open>Schedule\<close>.
    \<open>Auction_Safety\<close> shows capacity and constraints, \<open>Auction_Conservation\<close> that every request is answered once,
    \<open>Auction_Properties\<close> states the results, and what the winner of an auction is.
  \<^item> \<open>Auction_Runner\<close> (\<open>batch.go\<close>, \<open>auction_runner.go\<close>, the handlers and the delegate of \<open>auctioneer\<close>): the
    runner as a step relation between requests and rounds, and its invariant.
  \<^item> \<open>Operation_Queue\<close> (\<open>operationq/queue.go\<close>): sliding buffers and the keyed queue as a step relation.
  \<^item> \<open>Executor_Types\<close> (\<open>resources.go\<close>, \<open>client.go\<close>, \<open>errors.go\<close>), \<open>Executor_Network\<close> (\<open>helpers.go\<close>,
    \<open>proxy_config_handler.go\<close>), \<open>Executor_Node\<close> (\<open>storenode.go\<close>), \<open>Executor_Lifecycle\<close> (what the steps of a node keep),
    \<open>Executor_Store\<close> (\<open>containerstore.go\<close>, \<open>nodemap.go\<close>, \<open>depot.go\<close>): the executor, the accounting of its resources, and its
    refinement of an abstract allocation.
  \<^item> \<open>Rep_Conversion\<close>, \<open>Rep_Cell\<close>, \<open>Rep_Handlers\<close>: the conversions, \<open>auctioncellrep\<close>, the HTTP handlers and the
    client. \<open>Rep_Properties\<close> and \<open>Rep_Admission\<close> show what \<open>Perform\<close> places, returns and reports.
  \<^item> \<open>Rep_Generator\<close>, \<open>Rep_Harmonizer\<close>: the operations and their generator, the bulker, the event consumer
    and evacuation; convergence of a batch and safety under interleaving.
  \<^item> \<open>Route_Types\<close>, \<open>Route_Table\<close> (\<open>route-emitter/routingtable\<close>): endpoints, messages, the tables.
    \<open>Route_Refinement\<close> shows that the emitted messages keep a router equal to the table, \<open>Route_Properties\<close> how
    \<open>Swap\<close> and late events behave, \<open>Route_Build\<close> what a table built from the state of the bbs holds, by
    locales for route and endpoint generators interpreted on the HTTP, TCP and internal tables, and \<open>Route_Typing\<close>
    the types that the tables keep.
  \<^item> \<open>Route_Emitter\<close> (\<open>emitter\<close>, \<open>unregistration\<close>), \<open>Route_Handler\<close> (\<open>routehandlers\<close>), \<open>Route_Watcher\<close> (\<open>watcher\<close>,
    \<open>syncer\<close>, \<open>scheduler\<close>): what is sent and how often, the handler of events and
    synchronisations, and the loop above it, which does not panic and converges to the bbs.
  \<^item> \<open>Cluster\<close> and this theory: the auctioneer and the reps composed over the HTTP client and handlers.

  \<^bold>\<open>Bounds.\<close> No definition uses fuel: loops are recursions on the data, on the list of inputs that a loop receives, or
  have a termination proof. The greeting of the route emitter makes at most the 30 attempts that
  \<open>NewRouteBroadcastScheduler\<close> configures. Hypotheses on sizes, such as capacities within 32 bits, are stated where they are
  needed.

  \<^bold>\<open>Not modelled.\<close> The steps that run inside a container and the transformer that builds them, credentials,
  log streaming, and the volume manager are processes, files and streams; the container
  store takes their results as arguments. JSON and protobuf codecs, HTTP and TLS transport, NATS subscriptions, metrics and
  logging, and the start-up of the programs are left out, as they are I/O or wiring. So are the separate
  programs around Diego: ssh, \<open>cfdot\<close>, the app life cycles, the file server, the health check and the
  acceptance tests.
\<close>

section \<open>Properties of the whole\<close>



text \<open>
  C2. Every request is answered exactly once, across the network: whatever the states of the reps
  and executors, whichever answers are lost, the successful and the failed requests of a
  scheduling round together are the requested ones.
\<close>

theorem cluster_answers_every_request:
  assumes "wire_ok w" and "\<And>cl. fresh_guids (se_newGuid (env cl))"
    and "fetchStateAndBuildZones (cluster_State w env lost sites) clients weight = (s_zones s, st)"
    and "distinct (map la_id (req_LRPs req))" and "distinct (map ta_id (req_Tasks req))"
    and "\<And>ps. mset (order ps) = mset ps"
  shows "\<exists>r st'. Schedule s (cluster_Perform w env lost' sites) order st req = Some (r, st')
    \<and> mset (map la_id (SuccessfulLRPs r @ FailedLRPs r)) = mset (map la_id (req_LRPs req))
    \<and> mset (map ta_id (SuccessfulTasks r @ FailedTasks r)) = mset (map ta_id (req_Tasks req))"
proof (rule Schedule_conserved_any [OF _ built_idle [OF assms(3)] assms(4,5) _ assms(6)])
  show "distinct (zone_ptrs (s_zones s))"
    using fetchStateAndBuildZones_facts(1) [OF assms(3)] .
  show "returns_part (cluster_Perform w env lost' sites)"
    unfolding returns_part_def using cluster_Perform_Some [OF assms(1)] Perform_returns_ids [OF assms(2)] by metis
qed

theorem cluster_answers_every_request_witness:
  "\<exists>r st'. Schedule duo_scheduler (cluster_Perform demo_wire duo_env (\<lambda>cl. cl = 1) duo_sites) rev (snd duo_zones)
      dep_request = Some (r, st')
    \<and> mset (map la_id (SuccessfulLRPs r @ FailedLRPs r)) = mset (map la_id (req_LRPs dep_request))
    \<and> mset (map ta_id (SuccessfulTasks r @ FailedTasks r)) = mset (map ta_id (req_Tasks dep_request))"
  by (rule cluster_answers_every_request [OF demo_wire_ok(1) duo_fresh duo_fetch dep_distinct_ids]) simp

text \<open>
  C3. Cells that are unhealthy, evacuating or unreachable get no work: the zones hold only cells
  whose rep answered, reports itself healthy and is not evacuating, and the resources they are
  scheduled with are those that the executor has left.
\<close>

theorem no_work_for_drained_cells:
  assumes "wire_ok w" and "fetchStateAndBuildZones (cluster_State w env lost sites) clients weight = (zs, st)"
  shows "list_all (\<lambda>p. let s = sites (cell_client (st p)) in
      cl_healthy (rs_client s) \<and> \<not> ec_evacuated (rs_evacuation s) \<and> \<not> lost (cell_client (st p))
    \<and> cs_AvailableResources (cell_state (st p)) = convertResources (RemainingResources (se_liveDiskMB (env (cell_client (st p)))) (rs_client s))) (zone_ptrs zs)"
  unfolding list_all_iff
proof
  fix p assume "p \<in> set (zone_ptrs zs)"
  then obtain state where st: "cluster_State w env lost sites (cell_client (st p)) = Some state"
    "\<not> cs_Evacuating state" "cell_state (st p) = state"
    using built_cell [OF assms(2)] by metis
  then have "\<not> lost (cell_client (st p))"
    by (auto simp: cluster_State_def client_State_def site_transport_def split: option.splits sum.splits prod.splits)
  with rep_State_fields [OF cluster_State_Some [OF assms(1) st(1)]] st(2,3)
  show "let s = sites (cell_client (st p)) in
      cl_healthy (rs_client s) \<and> \<not> ec_evacuated (rs_evacuation s) \<and> \<not> lost (cell_client (st p))
    \<and> cs_AvailableResources (cell_state (st p)) = convertResources (RemainingResources (se_liveDiskMB (env (cell_client (st p)))) (rs_client s))"
    by (simp add: Let_def Evacuating_def split: if_splits)
qed

theorem no_work_for_drained_cells_witness:
  "list_all (\<lambda>p. cl_healthy (rs_client (duo_sites (cell_client (snd duo_zones p))))) (zone_ptrs (s_zones duo_scheduler))"
  using no_work_for_drained_cells [OF demo_wire_ok(1) duo_fetch] by (simp add: list_all_iff Let_def)

end
